theory Spec2Isabelle
  imports Complex_Main "HOL-Library.Multiset"
begin

section \<open>The data model of game.js\<close>

text \<open>
  The program is one script, \<^verbatim>\<open>src/game.js\<close>, whose state is a set of module-level
  variables mutated by event handlers (keyboard, mouse, touch, shop clicks, timer
  callbacks) and by the per-frame function \<^verbatim>\<open>update\<close>. The embedding is state passing:
  the module-level variables are the fields of the record \<open>state\<close>, every handler is a
  function from state to state, and a function that reads an array element by index
  returns \<open>error + state\<close>, with \<open>Inl TypeError\<close> where JavaScript would throw on a
  property read of \<^verbatim>\<open>undefined\<close>.

  JavaScript numbers are IEEE doubles. Coordinates, velocities and times in seconds are
  idealised as \<open>real\<close>; the counters that only ever hold integers (ammo, hit points,
  damage, coins, score, level, millisecond timestamps) are \<open>int\<close>, which is exact for
  doubles below \<open>2^53\<close>.

  What the script takes from outside is a parameter: the record \<open>env\<close> holds the canvas
  size (\<^verbatim>\<open>W\<close>, \<^verbatim>\<open>H\<close>: read from the page, which is not part of the sources), the sequence
  of values \<^verbatim>\<open>Math.random()\<close> returns and the sequence of values \<^verbatim>\<open>Date.now()\<close> returns.
  The state counts how many of each have been consumed.
\<close>

datatype error = TypeError

datatype owner = FromPlayer | FromEnemy

datatype etype = Normal | Fast | Tank | Spitter | Bomber | Boss

datatype pktype = Coin | Ammo

datatype wtype = WBullet | WShot | WRocket

datatype wkey = Pistol | Smg | Machine | Shotgun | Sniper | Rocket

record player =
  p_x :: real
  p_y :: real
  p_r :: real
  p_speed :: real
  p_maxHp :: int
  p_hp :: int

record weapon =
  w_name :: string
  w_ammo :: int
  w_maxAmmo :: int
  w_damage :: int
  w_fireRate :: int
  w_reload :: int
  w_type :: wtype
  w_pellets :: "int option"
  w_spread :: "real option"
  w_owned :: bool
  w_price :: int

record bullet =
  b_x :: real
  b_y :: real
  b_vx :: real
  b_vy :: real
  b_r :: real
  b_dmg :: int
  b_from :: owner
  b_rocket :: bool

record enemy =
  e_x :: real
  e_y :: real
  e_r :: real
  e_speed :: real
  e_hp :: int
  e_type :: etype
  e_color :: string
  e_lastSpit :: int

record particle =
  pt_x :: real
  pt_y :: real
  pt_dx :: real
  pt_dy :: real
  pt_life :: real
  pt_age :: real
  pt_color :: string
  pt_r :: real

record pickup =
  pk_x :: real
  pk_y :: real
  pk_type :: pktype
  pk_val :: int
  pk_age :: real

record wall =
  wl_x :: real
  wl_y :: real
  wl_w :: real
  wl_h :: real

record env =
  canvasW :: real
  canvasH :: real
  rnd :: "nat \<Rightarrow> real"
  clk :: "nat \<Rightarrow> int"

text \<open>
  The fields of \<open>state\<close> are the script's \<^verbatim>\<open>let\<close> variables under their own names.
  \<open>timers\<close> holds the pending \<^verbatim>\<open>setTimeout\<close> callbacks of the two reload functions
  (each callback is determined by the weapon it closed over and its delay), \<open>sfx\<close> logs
  the cues passed to \<^verbatim>\<open>playSfx\<close>, \<open>nrnd\<close> and \<open>nclk\<close> count the calls of
  \<^verbatim>\<open>Math.random\<close> and \<^verbatim>\<open>Date.now\<close>. The variables \<^verbatim>\<open>wave\<close> and \<^verbatim>\<open>mobileFire\<close> are
  written but never read and are left out, as are the DOM and the audio objects.
\<close>

record state =
  gameStarted :: bool
  gameOver :: bool
  score :: int
  coins :: int
  level :: int
  enemiesToSpawn :: int
  player :: player
  bullets :: "bullet list"
  enemies :: "enemy list"
  particles :: "particle list"
  pickups :: "pickup list"
  weapons :: "wkey \<Rightarrow> weapon"
  currentWeaponKey :: wkey
  lastShotAt :: int
  reloading :: bool
  keys :: "string \<Rightarrow> bool"
  mouse :: "real \<times> real"
  mouseDown :: bool
  lastT :: real
  pickupSpawnTimer :: real
  timers :: "(wkey \<times> int) list"
  sfx :: "string list"
  nrnd :: nat
  nclk :: nat

section \<open>Utilities\<close>

text \<open>\<^verbatim>\<open>Math.random()\<close>: the next value of the sequence.\<close>

definition Math_random :: "env \<Rightarrow> state \<Rightarrow> real \<times> state" where
  "Math_random env s = (rnd env (nrnd s), s\<lparr>nrnd := Suc (nrnd s)\<rparr>)"

text \<open>\<^verbatim>\<open>const rand = (a,b) => Math.random()*(b-a)+a\<close>\<close>

definition rand :: "env \<Rightarrow> real \<Rightarrow> real \<Rightarrow> state \<Rightarrow> real \<times> state" where
  "rand env a b s = (case Math_random env s of (u, s1) \<Rightarrow> (u * (b - a) + a, s1))"

text \<open>\<^verbatim>\<open>const clamp = (v,a,b) => Math.max(a, Math.min(b,v))\<close>\<close>

definition clamp :: "real \<Rightarrow> real \<Rightarrow> real \<Rightarrow> real" where
  "clamp v a b = max a (min b v)"

text \<open>\<^verbatim>\<open>const nowMs = () => Date.now()\<close>\<close>

definition nowMs :: "env \<Rightarrow> state \<Rightarrow> int \<times> state" where
  "nowMs env s = (clk env (nclk s), s\<lparr>nclk := Suc (nclk s)\<rparr>)"

text \<open>\<^verbatim>\<open>Math.hypot(a, b)\<close>\<close>

definition hypot :: "real \<Rightarrow> real \<Rightarrow> real" where
  "hypot a b = sqrt (a * a + b * b)"

text \<open>\<^verbatim>\<open>Math.atan2(y, x)\<close>, the angle of the point \<open>(x, y)\<close> in \<open>(-\<pi>, \<pi>]\<close>.\<close>

definition atan2 :: "real \<Rightarrow> real \<Rightarrow> real" where
  "atan2 y x =
     (if 0 < x then arctan (y / x)
      else if x < 0 then (if 0 \<le> y then arctan (y / x) + pi else arctan (y / x) - pi)
      else if 0 < y then pi / 2
      else if y < 0 then - (pi / 2)
      else 0)"

text \<open>\<^verbatim>\<open>xs.splice(i, 1)\<close>: the list without its element at index \<open>i\<close>; unchanged when
  \<open>i\<close> is past the end.\<close>

definition splice1 :: "nat \<Rightarrow> 'a list \<Rightarrow> 'a list" where
  "splice1 i xs = take i xs @ drop (Suc i) xs"

text \<open>\<^verbatim>\<open>playSfx(name)\<close>: the cue is logged; the audio element is outside the model.\<close>

definition playSfx :: "string \<Rightarrow> state \<Rightarrow> state" where
  "playSfx name s = s\<lparr>sfx := sfx s @ [name]\<rparr>"

section \<open>Loops\<close>

text \<open>Sequencing: an error ends the handler, as a thrown exception does.\<close>

definition andThen :: "error + state \<Rightarrow> (state \<Rightarrow> error + state) \<Rightarrow> error + state" where
  "andThen r f = (case r of Inl err \<Rightarrow> Inl err | Inr s \<Rightarrow> f s)"

text \<open>
  \<^verbatim>\<open>for(let i=xs.length-1;i>=0;i--){ body }\<close>, the shape of every pass over an entity
  array: \<open>downfrom body n s\<close> runs \<open>body (n-1)\<close>, ..., \<open>body 0\<close> in this order and stops
  at the first error. It is called with \<open>n\<close> the length of the array at loop entry.
\<close>

fun downfrom :: "(nat \<Rightarrow> state \<Rightarrow> error + state) \<Rightarrow> nat \<Rightarrow> state \<Rightarrow> error + state" where
  "downfrom body 0 s = Inr s"
| "downfrom body (Suc i) s =
     (case body i s of Inl err \<Rightarrow> Inl err | Inr s1 \<Rightarrow> downfrom body i s1)"

text \<open>\<^verbatim>\<open>for(let i=0;i<n;i++){ body }\<close>: \<open>body 0\<close>, ..., \<open>body (n-1)\<close> in this order.\<close>

fun forUpTo :: "(nat \<Rightarrow> state \<Rightarrow> state) \<Rightarrow> nat \<Rightarrow> state \<Rightarrow> state" where
  "forUpTo body 0 s = s"
| "forUpTo body (Suc n) s = body n (forUpTo body n s)"

section \<open>Particles and pickups\<close>

definition spawnParticle ::
  "real \<Rightarrow> real \<Rightarrow> real \<Rightarrow> real \<Rightarrow> real \<Rightarrow> string \<Rightarrow> real \<Rightarrow> state \<Rightarrow> state" where
  "spawnParticle x y dx dy life color r s =
     s\<lparr>particles := particles s @
        [\<lparr>pt_x = x, pt_y = y, pt_dx = dx, pt_dy = dy, pt_life = life, pt_age = 0,
          pt_color = color, pt_r = r\<rparr>]\<rparr>"

text \<open>One iteration of \<^verbatim>\<open>spawnBlood\<close>: the arguments of \<^verbatim>\<open>spawnParticle\<close> are evaluated
  left to right, one \<^verbatim>\<open>Math.random()\<close> each.\<close>

definition blood_particle :: "env \<Rightarrow> real \<Rightarrow> real \<Rightarrow> nat \<Rightarrow> state \<Rightarrow> state" where
  "blood_particle env x y i s =
     (case rand env (-120) 120 s of (dx, s1) \<Rightarrow>
      case rand env (-120) 120 s1 of (dy, s2) \<Rightarrow>
      case rand env 500 900 s2 of (life, s3) \<Rightarrow>
      case rand env 1.5 3.5 s3 of (r, s4) \<Rightarrow>
        spawnParticle x y dx dy life ''#b91c1c'' r s4)"

definition spawnBlood :: "env \<Rightarrow> real \<Rightarrow> real \<Rightarrow> nat \<Rightarrow> state \<Rightarrow> state" where
  "spawnBlood env x y n s = forUpTo (blood_particle env x y) n s"

definition muzzle_particle :: "env \<Rightarrow> real \<Rightarrow> real \<Rightarrow> real \<Rightarrow> nat \<Rightarrow> state \<Rightarrow> state" where
  "muzzle_particle env x y angle i s =
     (case rand env 120 260 s of (sp, s1) \<Rightarrow>
      case rand env (-0.6) 0.6 s1 of (a1, s2) \<Rightarrow>
      case rand env (-0.6) 0.6 s2 of (a2, s3) \<Rightarrow>
      case rand env 120 260 s3 of (life, s4) \<Rightarrow>
      case rand env 2 4 s4 of (r, s5) \<Rightarrow>
        spawnParticle x y (cos (angle + a1) * sp) (sin (angle + a2) * sp) life ''#f59e0b'' r s5)"

definition spawnMuzzle :: "env \<Rightarrow> real \<Rightarrow> real \<Rightarrow> real \<Rightarrow> state \<Rightarrow> state" where
  "spawnMuzzle env x y angle s = forUpTo (muzzle_particle env x y angle) 4 s"

definition spawnPickup :: "real \<Rightarrow> real \<Rightarrow> pktype \<Rightarrow> int \<Rightarrow> state \<Rightarrow> state" where
  "spawnPickup x y type val s =
     s\<lparr>pickups := pickups s @
        [\<lparr>pk_x = x, pk_y = y, pk_type = type, pk_val = val, pk_age = 0\<rparr>]\<rparr>"

section \<open>Explosion\<close>

text \<open>
  \<^verbatim>\<open>for(let i=0;i<40;i++) spawnParticle(x, y, rand(-300,300), rand(-300,300),
  rand(400,900), '#fb923c', rand(2,5));\<close>
\<close>

definition explode_particle :: "env \<Rightarrow> real \<Rightarrow> real \<Rightarrow> nat \<Rightarrow> state \<Rightarrow> state" where
  "explode_particle env x y i s =
     (case rand env (-300) 300 s of (dx, s1) \<Rightarrow>
      case rand env (-300) 300 s1 of (dy, s2) \<Rightarrow>
      case rand env 400 900 s2 of (life, s3) \<Rightarrow>
      case rand env 2 5 s3 of (r, s4) \<Rightarrow>
        spawnParticle x y dx dy life ''#fb923c'' r s4)"

text \<open>
  The body of the loop over the enemies, at index \<open>i\<close>:
  \<^verbatim>\<open>const e = enemies[i];
  if(Math.hypot(e.x - x, e.y - y) < radius + e.r){
    e.hp -= 3 + level;
    if(e.hp <= 0){ spawnPickup(e.x, e.y, 'coin', 3 + Math.floor(Math.random()*5));
                   enemies.splice(i,1); } }\<close>
  \<^verbatim>\<open>e\<close> is the array's own object, so the assignment to \<^verbatim>\<open>e.hp\<close> updates the array.
\<close>

definition explode_step :: "env \<Rightarrow> real \<Rightarrow> real \<Rightarrow> real \<Rightarrow> nat \<Rightarrow> state \<Rightarrow> error + state" where
  "explode_step env x y radius i s =
     (if i < length (enemies s) then
        let e = enemies s ! i in
        if hypot (e_x e - x) (e_y e - y) < radius + e_r e then
          let e1 = e\<lparr>e_hp := e_hp e - (3 + level s)\<rparr>;
              s1 = s\<lparr>enemies := (enemies s)[i := e1]\<rparr>
          in
          if e_hp e1 \<le> 0 then
            (case Math_random env s1 of (u, s2) \<Rightarrow>
               let s3 = spawnPickup (e_x e1) (e_y e1) Coin (3 + \<lfloor>u * 5\<rfloor>) s2
               in Inr (s3\<lparr>enemies := splice1 i (enemies s3)\<rparr>))
          else Inr s1
        else Inr s
      else Inl TypeError)"

text \<open>\<^verbatim>\<open>function explode(x,y,scale=1)\<close>\<close>

definition explode :: "env \<Rightarrow> real \<Rightarrow> real \<Rightarrow> real \<Rightarrow> state \<Rightarrow> error + state" where
  "explode env x y scale s =
     (let s1 = forUpTo (explode_particle env x y) 40 s;
          radius = 60 * scale
      in andThen (downfrom (explode_step env x y radius) (length (enemies s1)) s1)
           (\<lambda>s2. Inr (playSfx ''explosion'' s2)))"

section \<open>Weapons, shooting and reload\<close>

text \<open>
  The object \<^verbatim>\<open>weapons\<close> has six fixed keys and \<^verbatim>\<open>currentWeaponKey\<close> is only ever
  assigned one of the six literals, so the keys are the datatype \<open>wkey\<close> and the table is
  a total function. The guards \<^verbatim>\<open>if(!w)\<close> of the source can therefore never fire and
  have no counterpart. A weapon's \<^verbatim>\<open>type\<close> is one of three literals, the datatype
  \<open>wtype\<close>. Fields a weapon does not have (\<^verbatim>\<open>pellets\<close>, \<^verbatim>\<open>spread\<close>) are \<open>None\<close>.
\<close>

definition weapons0 :: "wkey \<Rightarrow> weapon" where
  "weapons0 k = (case k of
     Pistol \<Rightarrow> \<lparr>w_name = ''Pistol'', w_ammo = 12, w_maxAmmo = 12, w_damage = 1,
       w_fireRate = 220, w_reload = 800, w_type = WBullet, w_pellets = None,
       w_spread = None, w_owned = True, w_price = 0\<rparr>
   | Smg \<Rightarrow> \<lparr>w_name = ''SMG'', w_ammo = 30, w_maxAmmo = 30, w_damage = 1,
       w_fireRate = 80, w_reload = 1000, w_type = WBullet, w_pellets = None,
       w_spread = None, w_owned = True, w_price = 50\<rparr>
   | Machine \<Rightarrow> \<lparr>w_name = ''Machine'', w_ammo = 60, w_maxAmmo = 60, w_damage = 1,
       w_fireRate = 45, w_reload = 1400, w_type = WBullet, w_pellets = None,
       w_spread = None, w_owned = True, w_price = 120\<rparr>
   | Shotgun \<Rightarrow> \<lparr>w_name = ''Shotgun'', w_ammo = 8, w_maxAmmo = 8, w_damage = 1,
       w_fireRate = 600, w_reload = 1600, w_type = WShot, w_pellets = Some 7,
       w_spread = Some 0.6, w_owned = True, w_price = 100\<rparr>
   | Sniper \<Rightarrow> \<lparr>w_name = ''Sniper'', w_ammo = 5, w_maxAmmo = 5, w_damage = 8,
       w_fireRate = 900, w_reload = 1800, w_type = WBullet, w_pellets = None,
       w_spread = None, w_owned = True, w_price = 150\<rparr>
   | Rocket \<Rightarrow> \<lparr>w_name = ''Rocket'', w_ammo = 2, w_maxAmmo = 2, w_damage = 6,
       w_fireRate = 1000, w_reload = 2200, w_type = WRocket, w_pellets = None,
       w_spread = None, w_owned = True, w_price = 250\<rparr>)"

text \<open>
  \<^verbatim>\<open>setTimeout(()=>{ w.ammo = w.maxAmmo; reloading = false; }, w.reload)\<close>: the callback
  is queued with the key of the weapon object it closed over.
\<close>

definition setTimeout_reload :: "wkey \<Rightarrow> state \<Rightarrow> state" where
  "setTimeout_reload k s = s\<lparr>timers := timers s @ [(k, w_reload (weapons s k))]\<rparr>"

definition autoReload :: "state \<Rightarrow> state" where
  "autoReload s =
     (if reloading s then s
      else setTimeout_reload (currentWeaponKey s) (s\<lparr>reloading := True\<rparr>))"

definition startReload :: "state \<Rightarrow> state" where
  "startReload s =
     (if reloading s then s
      else let w = weapons s (currentWeaponKey s) in
        if w_ammo w \<ge> w_maxAmmo w then s
        else setTimeout_reload (currentWeaponKey s) (playSfx ''reload'' (s\<lparr>reloading := True\<rparr>)))"

text \<open>The callback of a reload timer, for the weapon with key \<open>k\<close>.\<close>

definition reload_done :: "wkey \<Rightarrow> state \<Rightarrow> state" where
  "reload_done k s =
     s\<lparr>weapons := (weapons s)(k := (weapons s k)\<lparr>w_ammo := w_maxAmmo (weapons s k)\<rparr>),
       reloading := False\<rparr>"

text \<open>One pellet of the shotgun: \<^verbatim>\<open>const a = angle + rand(-spread, spread); bullets.push(...)\<close>\<close>

definition pellet :: "env \<Rightarrow> real \<Rightarrow> real \<Rightarrow> int \<Rightarrow> nat \<Rightarrow> state \<Rightarrow> state" where
  "pellet env angle spread damage i s =
     (case rand env (- spread) spread s of (off, s1) \<Rightarrow>
        let a = angle + off in
        s1\<lparr>bullets := bullets s1 @
          [\<lparr>b_x = p_x (player s1) + cos a * 18, b_y = p_y (player s1) + sin a * 18,
            b_vx = cos a * 650, b_vy = sin a * 650, b_r = 3, b_dmg = damage,
            b_from = FromPlayer, b_rocket = False\<rparr>]\<rparr>)"

text \<open>
  \<^verbatim>\<open>function shootAtMouse()\<close>. \<^verbatim>\<open>w.pellets || 6\<close> and \<^verbatim>\<open>w.spread || 0.6\<close> take the default
  for a missing field and for \<open>0\<close>.
\<close>

definition shootAtMouse :: "env \<Rightarrow> state \<Rightarrow> state" where
  "shootAtMouse env s =
     (if \<not> gameStarted s \<or> gameOver s then s
      else let k = currentWeaponKey s; w = weapons s k in
      if \<not> w_owned w then s
      else if reloading s then s
      else if w_ammo w \<le> 0 then autoReload s
      else case nowMs env s of (now, s1) \<Rightarrow>
      if now - lastShotAt s1 < w_fireRate w then s1
      else
        let s2 = s1\<lparr>lastShotAt := now\<rparr>;
            s3 = s2\<lparr>weapons := (weapons s2)(k := w\<lparr>w_ammo := w_ammo w - 1\<rparr>)\<rparr>;
            px = p_x (player s3); py = p_y (player s3);
            angle = atan2 (snd (mouse s3) - py) (fst (mouse s3) - px);
            s4 = (case w_type w of
                    WBullet \<Rightarrow>
                      s3\<lparr>bullets := bullets s3 @
                        [\<lparr>b_x = px + cos angle * 18, b_y = py + sin angle * 18,
                          b_vx = cos angle * 700, b_vy = sin angle * 700, b_r = 4,
                          b_dmg = w_damage w, b_from = FromPlayer, b_rocket = False\<rparr>]\<rparr>
                  | WShot \<Rightarrow>
                      let pellets = (case w_pellets w of None \<Rightarrow> 6
                                     | Some n \<Rightarrow> if n = 0 then 6 else n);
                          spread = (case w_spread w of None \<Rightarrow> 0.6
                                    | Some d \<Rightarrow> if d = 0 then 0.6 else d)
                      in forUpTo (pellet env angle spread (w_damage w)) (nat pellets) s3
                  | WRocket \<Rightarrow>
                      s3\<lparr>bullets := bullets s3 @
                        [\<lparr>b_x = px + cos angle * 18, b_y = py + sin angle * 18,
                          b_vx = cos angle * 320, b_vy = sin angle * 320, b_r = 6,
                          b_dmg = w_damage w * 2, b_from = FromPlayer, b_rocket = True\<rparr>]\<rparr>);
            s5 = spawnMuzzle env (px + cos angle * 18) (py + sin angle * 18) angle s4;
            s6 = playSfx ''shoot'' s5
        in if w_ammo (weapons s6 k) \<le> 0 then autoReload s6 else s6)"

section \<open>Enemies and waves\<close>

text \<open>
  \<^verbatim>\<open>function spawnEnemy(type='normal')\<close>. The four \<^verbatim>\<open>if(side===k)\<close> statements are
  exclusive and are written as one chain; \<open>(0, 0)\<close> is the initial value of \<^verbatim>\<open>x\<close> and
  \<^verbatim>\<open>y\<close>. The callers pass one of the archetype literals; the last branch is the
  source's final \<^verbatim>\<open>else\<close>, taken for \<^verbatim>\<open>'normal'\<close>.
\<close>

definition spawnEnemy :: "env \<Rightarrow> etype \<Rightarrow> state \<Rightarrow> state" where
  "spawnEnemy env type s =
     (case rand env 0 4 s of (sd, s1) \<Rightarrow>
      let side = \<lfloor>sd\<rfloor> in
      case (if side = 0 then (case rand env 0 (canvasH env) s1 of (v, s2) \<Rightarrow> (- 30, v, s2))
            else if side = 1 then
              (case rand env 0 (canvasH env) s1 of (v, s2) \<Rightarrow> (canvasW env + 30, v, s2))
            else if side = 2 then
              (case rand env 0 (canvasW env) s1 of (v, s2) \<Rightarrow> (v, - 30, s2))
            else if side = 3 then
              (case rand env 0 (canvasW env) s1 of (v, s2) \<Rightarrow> (v, canvasH env + 30, s2))
            else (0, 0, s1)) of
        (x, y, s2) \<Rightarrow>
      let e = \<lparr>e_x = x, e_y = y, e_r = 18, e_speed = 50, e_hp = 1, e_type = Normal,
               e_color = ''#16a34a'', e_lastSpit = 0\<rparr>;
          e1 = (if type = Fast then
                  e\<lparr>e_speed := 120, e_hp := 1, e_r := 14, e_color := ''#f97316'', e_type := Fast\<rparr>
                else if type = Tank then
                  e\<lparr>e_speed := 36, e_hp := 4 + level s2 div 2, e_r := 26,
                    e_color := ''#14532d'', e_type := Tank\<rparr>
                else if type = Spitter then
                  e\<lparr>e_speed := 45, e_hp := 2, e_r := 18, e_color := ''#7c3aed'',
                    e_lastSpit := 0, e_type := Spitter\<rparr>
                else if type = Bomber then
                  e\<lparr>e_speed := 40, e_hp := 1, e_r := 16, e_color := ''#dc2626'', e_type := Bomber\<rparr>
                else if type = Boss then
                  e\<lparr>e_speed := 25, e_hp := 20 + level s2 * 4, e_r := 48,
                    e_color := ''#7f1d1d'', e_type := Boss\<rparr>
                else
                  e\<lparr>e_speed := 50 + (of_int (level s2) - 1) * 3, e_hp := 1 + level s2 div 4\<rparr>)
      in s2\<lparr>enemies := enemies s2 @ [e1]\<rparr>)"

text \<open>The body of the loop of \<^verbatim>\<open>spawnWave\<close>, at index \<open>i\<close>.\<close>

definition spawnWave_step :: "env \<Rightarrow> nat \<Rightarrow> state \<Rightarrow> state" where
  "spawnWave_step env i s =
     (if level s mod 5 = 0 \<and> i = 0 then spawnEnemy env Boss s
      else case Math_random env s of (r, s1) \<Rightarrow>
        if r < 0.55 then spawnEnemy env Normal s1
        else if r < 0.75 then spawnEnemy env Fast s1
        else if r < 0.88 then spawnEnemy env Spitter s1
        else spawnEnemy env Tank s1)"

text \<open>
  \<^verbatim>\<open>function spawnWave()\<close>. \<^verbatim>\<open>Math.floor(level * 1.2)\<close> is taken over the reals; the loop
  \<^verbatim>\<open>for(let i=0;i<count;i++)\<close> does nothing for a count below one.
\<close>

definition spawnWave :: "env \<Rightarrow> state \<Rightarrow> state" where
  "spawnWave env s =
     (let s1 = s\<lparr>enemies := []\<rparr>;
          count = enemiesToSpawn s1 + \<lfloor>of_int (level s1) * (1.2 :: real)\<rfloor>
      in forUpTo (spawnWave_step env) (nat count) s1)"

section \<open>Collisions\<close>

definition walls :: "wall list" where
  "walls =
     [\<lparr>wl_x = 200, wl_y = 140, wl_w = 160, wl_h = 14\<rparr>,
      \<lparr>wl_x = 520, wl_y = 300, wl_w = 16, wl_h = 180\<rparr>,
      \<lparr>wl_x = 360, wl_y = 420, wl_w = 220, wl_h = 14\<rparr>]"

definition circleRectCollision ::
  "real \<Rightarrow> real \<Rightarrow> real \<Rightarrow> real \<Rightarrow> real \<Rightarrow> real \<Rightarrow> real \<Rightarrow> bool" where
  "circleRectCollision cx cy cr rx ry rw rh =
     (let closestX = clamp cx rx (rx + rw);
          closestY = clamp cy ry (ry + rh);
          dx = cx - closestX; dy = cy - closestY
      in dx * dx + dy * dy < cr * cr)"

section \<open>The update loop\<close>

text \<open>
  \<^verbatim>\<open>function update(ts)\<close> is a sequence of passes, each a comment-headed block of the
  source; the model has one function per block and composes them in \<open>update\<close>. The DOM
  writes at the end of the function and the request for the next animation frame have
  no counterpart: when the browser calls \<^verbatim>\<open>update\<close> is the event \<open>Frame\<close> below.
\<close>

text \<open>Movement input and the clamp inside the canvas. \<^verbatim>\<open>Math.hypot(vx, vy) || 1\<close> is
  \<open>1\<close> when the length is zero.\<close>

definition movePlayer :: "env \<Rightarrow> real \<Rightarrow> state \<Rightarrow> state" where
  "movePlayer env dt s =
     (let vy0 = (if keys s ''w'' \<or> keys s ''arrowup'' then - 1 else 0 :: real);
          vy = (if keys s ''s'' \<or> keys s ''arrowdown'' then vy0 + 1 else vy0);
          vx0 = (if keys s ''a'' \<or> keys s ''arrowleft'' then - 1 else 0 :: real);
          vx = (if keys s ''d'' \<or> keys s ''arrowright'' then vx0 + 1 else vx0);
          mag = (if hypot vx vy = 0 then 1 else hypot vx vy);
          p = player s;
          p1 = p\<lparr>p_x := p_x p + vx / mag * p_speed p * dt\<rparr>;
          p2 = p1\<lparr>p_y := p_y p1 + vy / mag * p_speed p1 * dt\<rparr>;
          p3 = p2\<lparr>p_x := clamp (p_x p2) (p_r p2) (canvasW env - p_r p2)\<rparr>;
          p4 = p3\<lparr>p_y := clamp (p_y p3) (p_r p3) (canvasH env - p_r p3)\<rparr>
      in s\<lparr>player := p4\<rparr>)"

text \<open>
  The body of \<^verbatim>\<open>for(const w of walls)\<close> ("avoid walls (simple push-back)"): on overlap,
  one \<^verbatim>\<open>if / else if\<close> for x and then one for y.
\<close>

definition avoidWall :: "wall \<Rightarrow> player \<Rightarrow> player" where
  "avoidWall w p =
     (if circleRectCollision (p_x p) (p_y p) (p_r p) (wl_x w) (wl_y w) (wl_w w) (wl_h w) then
        let p1 = (if p_x p < wl_x w then p\<lparr>p_x := wl_x w - p_r p - 1\<rparr>
                  else if p_x p > wl_x w + wl_w w then p\<lparr>p_x := wl_x w + wl_w w + p_r p + 1\<rparr>
                  else p)
        in (if p_y p1 < wl_y w then p1\<lparr>p_y := wl_y w - p_r p1 - 1\<rparr>
            else if p_y p1 > wl_y w + wl_h w then p1\<lparr>p_y := wl_y w + wl_h w + p_r p1 + 1\<rparr>
            else p1)
      else p)"

definition avoidWalls :: "state \<Rightarrow> state" where
  "avoidWalls s = s\<lparr>player := fold avoidWall walls (player s)\<rparr>"

text \<open>"update bullets": the body at index \<open>i\<close>. The inner loop over the walls with its
  \<^verbatim>\<open>break\<close> is \<open>list_ex\<close>.\<close>

definition bullet_step :: "env \<Rightarrow> real \<Rightarrow> nat \<Rightarrow> state \<Rightarrow> error + state" where
  "bullet_step env dt i s =
     (if i < length (bullets s) then
        let b = bullets s ! i;
            b1 = b\<lparr>b_x := b_x b + b_vx b * dt\<rparr>;
            b2 = b1\<lparr>b_y := b_y b1 + b_vy b1 * dt\<rparr>;
            s1 = s\<lparr>bullets := (bullets s)[i := b2]\<rparr>;
            hitWall = list_ex (\<lambda>w. circleRectCollision (b_x b2) (b_y b2) (b_r b2)
                                   (wl_x w) (wl_y w) (wl_w w) (wl_h w)) walls
        in
        if hitWall then
          andThen (if b_rocket b2 then explode env (b_x b2) (b_y b2) 1.2 s1 else Inr s1)
            (\<lambda>s2. Inr (s2\<lparr>bullets := splice1 i (bullets s2)\<rparr>))
        else if b_x b2 < - 40 \<or> b_x b2 > canvasW env + 40 \<or>
                b_y b2 < - 40 \<or> b_y b2 > canvasH env + 40 then
          Inr (s1\<lparr>bullets := splice1 i (bullets s1)\<rparr>)
        else Inr s1
      else Inl TypeError)"

definition updateBullets :: "env \<Rightarrow> real \<Rightarrow> state \<Rightarrow> error + state" where
  "updateBullets env dt s = downfrom (bullet_step env dt) (length (bullets s)) s"

text \<open>
  "update enemies". The body of the loop at index \<open>i\<close> is three blocks of the source,
  each acting on \<^verbatim>\<open>e = enemies[i]\<close>, the array's own object: the spitter's attack, the
  movement toward the player, and the collision with the player.
\<close>

text \<open>"spitter attack". \<^verbatim>\<open>nowMs()\<close> is called only for a spitter, and a second time when
  it spits.\<close>

definition spitterAttack :: "env \<Rightarrow> nat \<Rightarrow> state \<Rightarrow> state" where
  "spitterAttack env i s =
     (let e = enemies s ! i in
      if e_type e = Spitter then
        (case nowMs env s of (t, sa) \<Rightarrow>
           if t - e_lastSpit e > 1400 then
             let a = atan2 (p_y (player sa) - e_y e) (p_x (player sa) - e_x e);
                 sb = sa\<lparr>bullets := bullets sa @
                        [\<lparr>b_x = e_x e, b_y = e_y e, b_vx = cos a * 220,
                          b_vy = sin a * 220, b_r = 5, b_dmg = 1,
                          b_from = FromEnemy, b_rocket = False\<rparr>]\<rparr>
             in (case nowMs env sb of (t2, sc) \<Rightarrow>
                   sc\<lparr>enemies := (enemies sc)[i := e\<lparr>e_lastSpit := t2\<rparr>]\<rparr>)
           else sa)
      else s)"

text \<open>"movement toward player". \<^verbatim>\<open>Math.hypot(dx, dy) || 1\<close> is \<open>1\<close> for a zero length.\<close>

definition moveTowardPlayer :: "real \<Rightarrow> nat \<Rightarrow> state \<Rightarrow> state" where
  "moveTowardPlayer dt i s =
     (let e = enemies s ! i;
          dx = p_x (player s) - e_x e;
          dy = p_y (player s) - e_y e;
          len = (if hypot dx dy = 0 then 1 else hypot dx dy);
          e1 = e\<lparr>e_x := e_x e + dx / len * e_speed e * dt\<rparr>;
          e2 = e1\<lparr>e_y := e_y e1 + dy / len * e_speed e1 * dt\<rparr>
      in s\<lparr>enemies := (enemies s)[i := e2]\<rparr>)"

text \<open>
  "collision with player". After a contact the source calls \<^verbatim>\<open>enemies.splice(i,1)\<close> in
  both branches of \<^verbatim>\<open>if(e.type === 'bomber')\<close>, for a bomber after \<^verbatim>\<open>explode\<close> has run
  on the same array.
\<close>

definition playerContact :: "env \<Rightarrow> nat \<Rightarrow> state \<Rightarrow> error + state" where
  "playerContact env i s =
     (let e = enemies s ! i in
      if hypot (e_x e - p_x (player s)) (e_y e - p_y (player s)) < e_r e + p_r (player s)
      then
        let s1 = s\<lparr>player := (player s)
                   \<lparr>p_hp := p_hp (player s) - (if e_type e = Tank then 12 else 6)\<rparr>\<rparr>
        in
        case rand env (- 6) 6 s1 of (ox, s2) \<Rightarrow>
        case rand env (- 6) 6 s2 of (oy, s3) \<Rightarrow>
        let s4 = spawnBlood env (p_x (player s3) + ox) (p_y (player s3) + oy) 8 s3 in
        andThen (if e_type e = Bomber then explode env (e_x e) (e_y e) 1.0 s4 else Inr s4)
          (\<lambda>s5.
            let s6 = playSfx ''zombieDeath'' (s5\<lparr>enemies := splice1 i (enemies s5)\<rparr>) in
            case Math_random env s6 of (u, s7) \<Rightarrow>
              if u < 0.5 then
                (case Math_random env s7 of (v, s8) \<Rightarrow>
                   Inr (spawnPickup (p_x (player s8)) (p_y (player s8)) Coin
                          (1 + \<lfloor>v * 3\<rfloor>) s8))
              else Inr s7)
      else Inr s)"

text \<open>The body at index \<open>i\<close>. \<^verbatim>\<open>const e = enemies[i]\<close> is \<^verbatim>\<open>undefined\<close> when \<open>i\<close> is past
  the end of the array, and \<^verbatim>\<open>e.type\<close> then throws.\<close>

definition enemy_step :: "env \<Rightarrow> real \<Rightarrow> nat \<Rightarrow> state \<Rightarrow> error + state" where
  "enemy_step env dt i s =
     (if i < length (enemies s) then
        playerContact env i (moveTowardPlayer dt i (spitterAttack env i s))
      else Inl TypeError)"

definition updateEnemies :: "env \<Rightarrow> real \<Rightarrow> state \<Rightarrow> error + state" where
  "updateEnemies env dt s = downfrom (enemy_step env dt) (length (enemies s)) s"

text \<open>
  "bullets hitting enemies". \<open>enemyDied env i\<close> is the block under the comment
  "enemy died", for the enemy at index \<open>i\<close>.
\<close>

definition enemyDied :: "env \<Rightarrow> nat \<Rightarrow> state \<Rightarrow> error + state" where
  "enemyDied env i s =
     (let e = enemies s ! i in
      case (if e_type e = Boss then (50, s)
            else if e_type e = Tank then (8, s)
            else (case Math_random env s of (u, sa) \<Rightarrow> (3 + \<lfloor>u * 3\<rfloor>, sa))) of
        (coinGain, s1) \<Rightarrow>
      let s2 = s1\<lparr>coins := coins s1 + coinGain\<rparr>;
          s3 = s2\<lparr>score := score s2 + (if e_type e = Boss then 200 else 10)\<rparr>;
          s4 = spawnPickup (e_x e) (e_y e) Coin coinGain s3
      in
      andThen (if e_type e = Bomber then explode env (e_x e) (e_y e) 1.0 s4 else Inr s4)
        (\<lambda>s5. Inr (playSfx ''zombieDeath'' (s5\<lparr>enemies := splice1 i (enemies s5)\<rparr>))))"

text \<open>\<open>bullet_hits env i j\<close> is the block run when the player's bullet at index \<open>j\<close>
  overlaps the enemy at index \<open>i\<close>; it ends in \<^verbatim>\<open>break\<close>.\<close>

definition bullet_hits :: "env \<Rightarrow> nat \<Rightarrow> nat \<Rightarrow> state \<Rightarrow> error + state" where
  "bullet_hits env i j s =
     (let e = enemies s ! i;
          b = bullets s ! j;
          e1 = e\<lparr>e_hp := e_hp e - b_dmg b\<rparr>;
          s1 = s\<lparr>enemies := (enemies s)[i := e1]\<rparr>;
          s2 = spawnBlood env (b_x b) (b_y b) 4 s1;
          s3 = s2\<lparr>bullets := splice1 j (bullets s2)\<rparr>
      in if e_hp e1 \<le> 0 then enemyDied env i s3 else Inr s3)"

text \<open>
  The inner loop \<^verbatim>\<open>for(let j=bullets.length-1;j>=0;j--)\<close> for the enemy at index \<open>i\<close>; the
  counter is \<open>j + 1\<close>. \<^verbatim>\<open>e\<close> was read before the loop and is dereferenced only once
  a bullet of the player is met: \<^verbatim>\<open>e.x\<close> throws when \<^verbatim>\<open>enemies[i]\<close> was \<^verbatim>\<open>undefined\<close>.
\<close>

fun hit_scan :: "env \<Rightarrow> nat \<Rightarrow> nat \<Rightarrow> state \<Rightarrow> error + state" where
  "hit_scan env i 0 s = Inr s"
| "hit_scan env i (Suc j) s =
     (if j < length (bullets s) then
        let b = bullets s ! j in
        if b_from b \<noteq> FromPlayer then hit_scan env i j s
        else if i < length (enemies s) then
          let e = enemies s ! i in
          if hypot (e_x e - b_x b) (e_y e - b_y b) < e_r e + b_r b then bullet_hits env i j s
          else hit_scan env i j s
        else Inl TypeError
      else Inl TypeError)"

definition hit_step :: "env \<Rightarrow> nat \<Rightarrow> state \<Rightarrow> error + state" where
  "hit_step env i s = hit_scan env i (length (bullets s)) s"

definition bulletsHitEnemies :: "env \<Rightarrow> state \<Rightarrow> error + state" where
  "bulletsHitEnemies env s = downfrom (hit_step env) (length (enemies s)) s"

text \<open>"bullets hitting player (enemy projectiles)": the body at index \<open>i\<close>.\<close>

definition playerHit_step :: "env \<Rightarrow> nat \<Rightarrow> state \<Rightarrow> error + state" where
  "playerHit_step env i s =
     (if i < length (bullets s) then
        let b = bullets s ! i in
        if b_from b = FromEnemy \<and>
           hypot (b_x b - p_x (player s)) (b_y b - p_y (player s)) < b_r b + p_r (player s)
        then
          let s1 = s\<lparr>player := (player s)\<lparr>p_hp := p_hp (player s) - 8\<rparr>\<rparr>;
              s2 = spawnBlood env (p_x (player s1)) (p_y (player s1)) 6 s1
          in Inr (s2\<lparr>bullets := splice1 i (bullets s2)\<rparr>)
        else Inr s
      else Inl TypeError)"

definition bulletsHitPlayer :: "env \<Rightarrow> state \<Rightarrow> error + state" where
  "bulletsHitPlayer env s = downfrom (playerHit_step env) (length (bullets s)) s"

text \<open>"update particles": the body at index \<open>i\<close>.\<close>

definition particle_step :: "real \<Rightarrow> nat \<Rightarrow> state \<Rightarrow> error + state" where
  "particle_step dt i s =
     (if i < length (particles s) then
        let p = particles s ! i;
            p1 = p\<lparr>pt_age := pt_age p + dt * 1000\<rparr>;
            p2 = p1\<lparr>pt_x := pt_x p1 + pt_dx p1 * dt\<rparr>;
            p3 = p2\<lparr>pt_y := pt_y p2 + pt_dy p2 * dt\<rparr>;
            s1 = s\<lparr>particles := (particles s)[i := p3]\<rparr>
        in if pt_age p3 > pt_life p3 then Inr (s1\<lparr>particles := splice1 i (particles s1)\<rparr>)
           else Inr s1
      else Inl TypeError)"

definition updateParticles :: "real \<Rightarrow> state \<Rightarrow> error + state" where
  "updateParticles dt s = downfrom (particle_step dt) (length (particles s)) s"

text \<open>"pickups": the body at index \<open>i\<close>. \<^verbatim>\<open>pk.age || 0\<close> is \<^verbatim>\<open>pk.age\<close> for a number.\<close>

definition pickup_step :: "real \<Rightarrow> nat \<Rightarrow> state \<Rightarrow> error + state" where
  "pickup_step dt i s =
     (if i < length (pickups s) then
        let pk = pickups s ! i;
            pk1 = pk\<lparr>pk_age := pk_age pk + dt * 1000\<rparr>;
            s1 = s\<lparr>pickups := (pickups s)[i := pk1]\<rparr>
        in
        if hypot (pk_x pk1 - p_x (player s1)) (pk_y pk1 - p_y (player s1)) < 20 then
          let s2 = (if pk_type pk1 = Coin then s1\<lparr>coins := coins s1 + pk_val pk1\<rparr> else s1);
              s3 = (if pk_type pk1 = Ammo then
                      let k = currentWeaponKey s2; w = weapons s2 k in
                      s2\<lparr>weapons := (weapons s2)
                           (k := w\<lparr>w_ammo := min (w_maxAmmo w) (w_ammo w + 8)\<rparr>)\<rparr>
                    else s2)
          in Inr (s3\<lparr>pickups := splice1 i (pickups s3)\<rparr>)
        else Inr s1
      else Inl TypeError)"

definition updatePickups :: "real \<Rightarrow> state \<Rightarrow> error + state" where
  "updatePickups dt s = downfrom (pickup_step dt) (length (pickups s)) s"

text \<open>"spawn periodic pickups"\<close>

definition spawnPeriodicPickups :: "env \<Rightarrow> real \<Rightarrow> state \<Rightarrow> state" where
  "spawnPeriodicPickups env dt s =
     (let s1 = s\<lparr>pickupSpawnTimer := pickupSpawnTimer s + dt\<rparr> in
      if pickupSpawnTimer s1 > 6 then
        (case Math_random env s1 of (u, s2) \<Rightarrow>
           let s3 = (if u < 0.6 then
                       (case rand env 60 (canvasW env - 60) s2 of (x, sa) \<Rightarrow>
                        case rand env 60 (canvasH env - 60) sa of (y, sb) \<Rightarrow>
                        case Math_random env sb of (v, sc) \<Rightarrow>
                          spawnPickup x y Coin (1 + \<lfloor>v * 3\<rfloor>) sc)
                     else s2)
           in s3\<lparr>pickupSpawnTimer := 0\<rparr>)
      else s1)"

text \<open>"level progression: if all enemies dead -> next level". \<^verbatim>\<open>Math.floor(cw.maxAmmo * 0.2)\<close>
  is taken over the reals.\<close>

definition levelProgression :: "env \<Rightarrow> state \<Rightarrow> state" where
  "levelProgression env s =
     (if length (enemies s) = 0 \<and> gameStarted s \<and> \<not> gameOver s then
        let s1 = s\<lparr>level := level s + 1\<rparr>;
            s2 = s1\<lparr>enemiesToSpawn := enemiesToSpawn s1 + 2\<rparr>;
            s3 = spawnWave env s2;
            s4 = s3\<lparr>coins := coins s3 + 5\<rparr>;
            k = currentWeaponKey s4;
            cw = weapons s4 k
        in s4\<lparr>weapons := (weapons s4)
                (k := cw\<lparr>w_ammo := min (w_maxAmmo cw)
                           (w_ammo cw + \<lfloor>of_int (w_maxAmmo cw) * (0.2 :: real)\<rfloor>)\<rparr>)\<rparr>
      else s)"

text \<open>"game over check"\<close>

definition gameOverCheck :: "state \<Rightarrow> state" where
  "gameOverCheck s =
     (if p_hp (player s) \<le> 0 \<and> \<not> gameOver s then playSfx ''zombieDeath'' (s\<lparr>gameOver := True\<rparr>)
      else s)"

text \<open>\<^verbatim>\<open>function update(ts)\<close>. \<^verbatim>\<open>if(!lastT)\<close> holds for \<open>0\<close>.\<close>

definition update :: "env \<Rightarrow> real \<Rightarrow> state \<Rightarrow> error + state" where
  "update env ts s =
     (let s0 = (if lastT s = 0 then s\<lparr>lastT := ts\<rparr> else s);
          dt = min 0.05 ((ts - lastT s0) / 1000);
          s1 = s0\<lparr>lastT := ts\<rparr>
      in
      if \<not> gameStarted s1 then Inr s1
      else
        let s2 = avoidWalls (movePlayer env dt s1);
            s3 = (if mouseDown s2 then shootAtMouse env s2 else s2)
        in
        andThen (updateBullets env dt s3) (\<lambda>s4.
        andThen (updateEnemies env dt s4) (\<lambda>s5.
        andThen (bulletsHitEnemies env s5) (\<lambda>s6.
        andThen (bulletsHitPlayer env s6) (\<lambda>s7.
        andThen (updateParticles dt s7) (\<lambda>s8.
        andThen (updatePickups dt s8) (\<lambda>s9.
          Inr (gameOverCheck (levelProgression env (spawnPeriodicPickups env dt s9))))))))))"

section \<open>Shop, start and restart\<close>

record shopItem =
  it_key :: wkey
  it_label :: string
  it_price :: int

definition shopItems :: "shopItem list" where
  "shopItems =
     [\<lparr>it_key = Smg, it_label = ''SMG'', it_price = 50\<rparr>,
      \<lparr>it_key = Machine, it_label = ''Machine Gun'', it_price = 120\<rparr>,
      \<lparr>it_key = Shotgun, it_label = ''Shotgun'', it_price = 100\<rparr>,
      \<lparr>it_key = Sniper, it_label = ''Sniper'', it_price = 150\<rparr>,
      \<lparr>it_key = Rocket, it_label = ''Rocket Launcher'', it_price = 250\<rparr>]"

text \<open>
  The click handler \<^verbatim>\<open>renderShop\<close> attaches to the button of the item \<open>it\<close>. The result
  says which of the two alerts the handler reaches: the purchase message or
  \<^verbatim>\<open>'Not enough coins'\<close>. After the two assignments the handler calls \<^verbatim>\<open>renderShop()\<close>
  and \<^verbatim>\<open>updateUI()\<close>, which write to the page only; \<^verbatim>\<open>updateUI\<close> is not defined in
  \<^verbatim>\<open>game.js\<close>.
\<close>

datatype purchase = Purchased | NotEnoughCoins

definition shopClick :: "shopItem \<Rightarrow> state \<Rightarrow> purchase \<times> state" where
  "shopClick it s =
     (if coins s \<ge> it_price it then
        let s1 = s\<lparr>coins := coins s - it_price it\<rparr>;
            k = it_key it
        in (Purchased, s1\<lparr>weapons := (weapons s1)(k := (weapons s1 k)\<lparr>w_owned := True\<rparr>)\<rparr>)
      else (NotEnoughCoins, s))"

definition createPlayer :: "env \<Rightarrow> state \<Rightarrow> state" where
  "createPlayer env s =
     s\<lparr>player := \<lparr>p_x = canvasW env / 2, p_y = canvasH env / 2, p_r = 16, p_speed = 200,
                   p_maxHp = 100, p_hp = 100\<rparr>\<rparr>"

definition startGame :: "env \<Rightarrow> state \<Rightarrow> state" where
  "startGame env s =
     (let s1 = s\<lparr>gameStarted := True, gameOver := False, score := 0, coins := 0, level := 1,
                 enemiesToSpawn := 6\<rparr>;
          s2 = createPlayer env s1;
          s3 = s2\<lparr>weapons := (weapons s2)(Pistol := (weapons s2 Pistol)\<lparr>w_owned := True\<rparr>)\<rparr>
      in spawnWave env s3)"

definition restartGame :: "env \<Rightarrow> state \<Rightarrow> state" where
  "restartGame env s =
     (let s1 = s\<lparr>gameOver := False\<rparr>;
          s2 = s1\<lparr>player := (player s1)\<lparr>p_hp := p_maxHp (player s1)\<rparr>\<rparr>;
          s3 = s2\<lparr>score := 0, coins := 0, level := 1, enemiesToSpawn := 6\<rparr>;
          s4 = s3\<lparr>bullets := [], enemies := [], particles := [], pickups := []\<rparr>
      in spawnWave env s4)"

section \<open>Events\<close>

text \<open>\<^verbatim>\<open>String.prototype.toLowerCase\<close> on the ASCII letters.\<close>

definition toLowerCase :: "string \<Rightarrow> string" where
  "toLowerCase str =
     map (\<lambda>c. let n = (of_char c :: nat) in if 65 \<le> n \<and> n \<le> 90 then char_of (n + 32) else c) str"

text \<open>The \<^verbatim>\<open>keydown\<close> listener, on \<^verbatim>\<open>e.key\<close>.\<close>

definition keydown :: "env \<Rightarrow> string \<Rightarrow> state \<Rightarrow> state" where
  "keydown env key s =
     (let s1 = s\<lparr>keys := (keys s)(toLowerCase key := True)\<rparr>;
          s2 = (if key = ''1'' then s1\<lparr>currentWeaponKey := Pistol\<rparr> else s1);
          s3 = (if key = ''2'' then s2\<lparr>currentWeaponKey := Smg\<rparr> else s2);
          s4 = (if key = ''3'' then s3\<lparr>currentWeaponKey := Machine\<rparr> else s3);
          s5 = (if key = ''4'' then s4\<lparr>currentWeaponKey := Shotgun\<rparr> else s4);
          s6 = (if key = ''5'' then s5\<lparr>currentWeaponKey := Sniper\<rparr> else s5);
          s7 = (if key = ''6'' then s6\<lparr>currentWeaponKey := Rocket\<rparr> else s6);
          s8 = (if key = ''r'' then startReload s7 else s7)
      in
      if key = ''Enter'' then
        (if \<not> gameStarted s8 then startGame env s8
         else if gameOver s8 then restartGame env s8
         else s8)
      else s8)"

text \<open>
  What can happen to the script after it has loaded: the listeners it registers, the
  animation frame calling \<^verbatim>\<open>update\<close>, and a pending reload timer firing. The coordinates
  of \<open>MouseMove\<close> are those the listener computes from the page geometry. \<open>Timeout n\<close>
  runs the pending callback at position \<open>n\<close> of the queue, \<open>ShopClick n\<close> is a click on the
  button of \<^verbatim>\<open>shopItems[n]\<close>, \<open>StartClick\<close> a click on the start button.
\<close>

datatype event =
    KeyDown string
  | KeyUp string
  | MouseMove real real
  | MouseDown
  | MouseUp
  | FireTouchStart
  | ReloadTouchStart
  | Frame real
  | Timeout nat
  | ShopClick nat
  | StartClick

definition handle :: "env \<Rightarrow> event \<Rightarrow> state \<Rightarrow> error + state" where
  "handle env ev s =
     (case ev of
        KeyDown key \<Rightarrow> Inr (keydown env key s)
      | KeyUp key \<Rightarrow> Inr (s\<lparr>keys := (keys s)(toLowerCase key := False)\<rparr>)
      | MouseMove x y \<Rightarrow> Inr (s\<lparr>mouse := (x, y)\<rparr>)
      | MouseDown \<Rightarrow> Inr (shootAtMouse env (s\<lparr>mouseDown := True\<rparr>))
      | MouseUp \<Rightarrow> Inr (s\<lparr>mouseDown := False\<rparr>)
      | FireTouchStart \<Rightarrow> Inr (shootAtMouse env s)
      | ReloadTouchStart \<Rightarrow> Inr (startReload s)
      | Frame ts \<Rightarrow> update env ts s
      | Timeout n \<Rightarrow>
          (if n < length (timers s) then
             Inr (reload_done (fst (timers s ! n)) (s\<lparr>timers := splice1 n (timers s)\<rparr>))
           else Inr s)
      | ShopClick n \<Rightarrow>
          (if n < length shopItems then Inr (snd (shopClick (shopItems ! n) s)) else Inr s)
      | StartClick \<Rightarrow> Inr (startGame env s))"

text \<open>The state once the script has run to its end: the initial values of the variables,
  \<^verbatim>\<open>createPlayer()\<close> and the \<^verbatim>\<open>spawnWave()\<close> of its last lines.\<close>

definition state0 :: state where
  "state0 =
     \<lparr>gameStarted = False, gameOver = False, score = 0, coins = 0, level = 1,
      enemiesToSpawn = 6,
      player = \<lparr>p_x = 0, p_y = 0, p_r = 0, p_speed = 0, p_maxHp = 0, p_hp = 0\<rparr>,
      bullets = [], enemies = [], particles = [], pickups = [],
      weapons = weapons0, currentWeaponKey = Pistol, lastShotAt = 0, reloading = False,
      keys = (\<lambda>k. False), mouse = (0, 0), mouseDown = False, lastT = 0,
      pickupSpawnTimer = 0, timers = [], sfx = [], nrnd = 0, nclk = 0\<rparr>"

definition init :: "env \<Rightarrow> state" where
  "init env =
     (let s1 = createPlayer env state0;
          s2 = s1\<lparr>mouse := (canvasW env / 2, canvasH env / 2)\<rparr>
      in spawnWave env s2)"

text \<open>The states of a run: those the script reaches from its load by handled events.\<close>

inductive reachable :: "env \<Rightarrow> state \<Rightarrow> bool" for env :: env where
  reachable_init: "reachable env (init env)"
| reachable_step: "reachable env s \<Longrightarrow> handle env ev s = Inr s1 \<Longrightarrow> reachable env s1"

text \<open>The contract of \<^verbatim>\<open>Math.random()\<close>: a number in \<open>[0, 1)\<close>.\<close>

definition random_ok :: "env \<Rightarrow> bool" where
  "random_ok env = (\<forall>n. 0 \<le> rnd env n \<and> rnd env n < 1)"

section \<open>Notions used in the statements\<close>

text \<open>
  What an explosion at \<open>(x, y)\<close> with blast radius \<open>radius\<close> at level \<open>lvl\<close> makes of one
  enemy: nothing if it is in range and the damage \<open>3 + lvl\<close> brings it to zero or below,
  the enemy with that damage subtracted if it is in range and survives, the enemy
  itself if it is out of range. \<open>blast_kills\<close> is the first of the three cases.
\<close>

definition blast_outcome :: "real \<Rightarrow> real \<Rightarrow> real \<Rightarrow> int \<Rightarrow> enemy \<Rightarrow> enemy list" where
  "blast_outcome x y radius lvl e =
     (if hypot (e_x e - x) (e_y e - y) < radius + e_r e then
        (if e_hp e - (3 + lvl) \<le> 0 then [] else [e\<lparr>e_hp := e_hp e - (3 + lvl)\<rparr>])
      else [e])"

definition blast_kills :: "real \<Rightarrow> real \<Rightarrow> real \<Rightarrow> int \<Rightarrow> enemy \<Rightarrow> bool" where
  "blast_kills x y radius lvl e =
     (hypot (e_x e - x) (e_y e - y) < radius + e_r e \<and> e_hp e - (3 + lvl) \<le> 0)"

text \<open>A state with the five fields \<^verbatim>\<open>explode\<close> writes blanked out: two states agree
  outside those fields exactly when their images are equal.\<close>

definition outside_explode :: "state \<Rightarrow> state" where
  "outside_explode s = s\<lparr>enemies := [], pickups := [], particles := [], sfx := [], nrnd := 0\<rparr>"

text \<open>The hit points \<^verbatim>\<open>spawnEnemy\<close> gives an archetype at a level.\<close>

definition archetype_hp :: "etype \<Rightarrow> int \<Rightarrow> int" where
  "archetype_hp ty lvl =
     (case ty of Normal \<Rightarrow> 1 + lvl div 4 | Fast \<Rightarrow> 1 | Tank \<Rightarrow> 4 + lvl div 2
      | Spitter \<Rightarrow> 2 | Bomber \<Rightarrow> 1 | Boss \<Rightarrow> 20 + 4 * lvl)"

subsection \<open>Concrete inputs\<close>

text \<open>An 800 by 600 canvas, \<^verbatim>\<open>Math.random()\<close> always \<open>0\<close>, \<^verbatim>\<open>Date.now()\<close> always \<open>1000\<close>.\<close>

definition env0 :: env where
  "env0 = \<lparr>canvasW = 800, canvasH = 600, rnd = (\<lambda>n. 0), clk = (\<lambda>n. 1000)\<rparr>"

text \<open>The script's variables once its initialisers and \<^verbatim>\<open>createPlayer()\<close> have run, before
  the first wave: the player stands at \<open>(400, 300)\<close> with 100 of 100 health.\<close>

definition loaded0 :: state where
  "loaded0 = createPlayer env0 state0"

definition enemy0 :: "real \<Rightarrow> real \<Rightarrow> int \<Rightarrow> etype \<Rightarrow> enemy" where
  "enemy0 x y hp ty =
     \<lparr>e_x = x, e_y = y, e_r = 18, e_speed = 50, e_hp = hp, e_type = ty,
      e_color = ''#16a34a'', e_lastSpit = 0\<rparr>"

text \<open>Three enemies: one at \<open>(100, 100)\<close> with one hit point, one far away, and a boss
  with fifty hit points ten units from the first.\<close>

definition blast_demo :: state where
  "blast_demo = loaded0\<lparr>enemies := [enemy0 100 100 1 Normal, enemy0 500 500 1 Normal,
                                    enemy0 110 100 50 Boss]\<rparr>"

text \<open>A started game, and the same with a reload under way.\<close>

definition started0 :: state where
  "started0 = loaded0\<lparr>gameStarted := True\<rparr>"

definition reloading0 :: state where
  "reloading0 = loaded0\<lparr>gameStarted := True, reloading := True\<rparr>"

text \<open>The same variables at level 5.\<close>

definition level5 :: state where
  "level5 = loaded0\<lparr>level := 5\<rparr>"

text \<open>The first wall, and a player whose circle overlaps its upper left corner from
  outside, and one whose circle overlaps its upper edge from above.\<close>

definition corner_demo :: player where
  "corner_demo = \<lparr>p_x = 195, p_y = 135, p_r = 16, p_speed = 200, p_maxHp = 100, p_hp = 100\<rparr>"

definition wall1 :: wall where
  "wall1 = \<lparr>wl_x = 200, wl_y = 140, wl_w = 160, wl_h = 14\<rparr>"

definition above_demo :: player where
  "above_demo = \<lparr>p_x = 250, p_y = 130, p_r = 16, p_speed = 200, p_maxHp = 100, p_hp = 100\<rparr>"

text \<open>A started game whose player has no health left; a started game with 60 coins.\<close>

definition dead_demo :: state where
  "dead_demo = loaded0\<lparr>gameStarted := True, player := (player loaded0)\<lparr>p_hp := 0\<rparr>\<rparr>"

definition rich_demo :: state where
  "rich_demo = loaded0\<lparr>gameStarted := True, coins := 60\<rparr>"

subsection \<open>Invariants of a run\<close>

text \<open>
  \<open>run_inv\<close> holds in every state the script reaches (shown below): the level is at least 1
  and the quota at least 6, no enemy is a bomber (\<^verbatim>\<open>spawnWave\<close> never asks for one),
  the player's health is at most its maximum, and every weapon's ammo lies between 0
  and its capacity. \<open>pickups_ok\<close>, that no pickup has a negative value, holds as well
  when \<^verbatim>\<open>Math.random()\<close> keeps to \<open>[0, 1)\<close>.
\<close>

definition ammo_ok :: "state \<Rightarrow> bool" where
  "ammo_ok s = (\<forall>k. 0 \<le> w_ammo (weapons s k) \<and> w_ammo (weapons s k) \<le> w_maxAmmo (weapons s k))"

definition no_bomber :: "state \<Rightarrow> bool" where
  "no_bomber s = list_all (\<lambda>e. e_type e \<noteq> Bomber) (enemies s)"

definition pickups_ok :: "state \<Rightarrow> bool" where
  "pickups_ok s = list_all (\<lambda>pk. 0 \<le> pk_val pk) (pickups s)"

definition run_inv :: "state \<Rightarrow> bool" where
  "run_inv s = (1 \<le> level s \<and> 6 \<le> enemiesToSpawn s \<and> no_bomber s \<and>
            p_hp (player s) \<le> p_maxHp (player s) \<and> ammo_ok s)"

text \<open>
  \<open>keeps env s u\<close> relates a state \<open>s\<close> to a later state \<open>u\<close> of the same call of
  \<^verbatim>\<open>update\<close>, before its game-over check: the invariant holds in \<open>u\<close>, the two flags are
  as in \<open>s\<close>, the player's health has not grown and its maximum is the same, and, when
  \<^verbatim>\<open>Math.random()\<close> keeps to \<open>[0, 1)\<close> and no pickup of \<open>s\<close> has a negative value, the
  same holds of \<open>u\<close> and the coin balance has not shrunk.
\<close>

definition keeps :: "env \<Rightarrow> state \<Rightarrow> state \<Rightarrow> bool" where
  "keeps env s u =
     (run_inv u \<and> gameStarted u = gameStarted s \<and> gameOver u = gameOver s \<and>
      p_hp (player u) \<le> p_hp (player s) \<and> p_maxHp (player u) = p_maxHp (player s) \<and>
      (random_ok env \<longrightarrow> pickups_ok s \<longrightarrow> pickups_ok u \<and> coins s \<le> coins u))"

subsection \<open>The enemy pass and the bullet pass\<close>

text \<open>
  The words used to state what the two passes over the enemy list do. \<open>touches p e\<close> is
  the test under "collision with player"; \<open>approach p dt e\<close> is the enemy after the
  lines under "movement toward player"; \<open>contact_outcome p dt e\<close> is what the enemy pass
  leaves of an enemy that is not a bomber: nothing when the moved enemy touches the
  player, the moved enemy otherwise. \<open>forget_spit\<close> blanks the time stamp that a
  spitter's attack writes, the one field of an enemy the pass changes besides its
  position. \<open>same_body\<close> says that two player records have the same position and radius.
\<close>

definition touches :: "player \<Rightarrow> enemy \<Rightarrow> bool" where
  "touches p e = (hypot (e_x e - p_x p) (e_y e - p_y p) < e_r e + p_r p)"

definition approach :: "player \<Rightarrow> real \<Rightarrow> enemy \<Rightarrow> enemy" where
  "approach p dt e =
     (let dx = p_x p - e_x e;
          dy = p_y p - e_y e;
          len = (if hypot dx dy = 0 then 1 else hypot dx dy)
      in e\<lparr>e_x := e_x e + dx / len * e_speed e * dt, e_y := e_y e + dy / len * e_speed e * dt\<rparr>)"

definition contact_outcome :: "player \<Rightarrow> real \<Rightarrow> enemy \<Rightarrow> enemy list" where
  "contact_outcome p dt e = (if touches p (approach p dt e) then [] else [approach p dt e])"

definition forget_spit :: "enemy \<Rightarrow> enemy" where
  "forget_spit e = e\<lparr>e_lastSpit := 0\<rparr>"

definition same_body :: "player \<Rightarrow> player \<Rightarrow> bool" where
  "same_body p q = (p_x q = p_x p \<and> p_y q = p_y p \<and> p_r q = p_r p)"

text \<open>
  \<open>overlaps e b\<close> is the test of the bullet pass. \<open>hit_outcome e h\<close> is what the bullet
  pass leaves of an enemy that is not a bomber and that is hit by \<open>h\<close>: the enemy itself
  when no bullet hits it, nothing when the one bullet's damage brings its hit points to
  zero or below, the enemy with that damage taken off otherwise. \<open>the_hits hs\<close> lists
  the bullets of \<open>hs\<close>. \<open>hit_fair bs e h\<close>: a bullet that hits \<open>e\<close> is a bullet of the player
  that overlaps \<open>e\<close>, and an enemy that is not hit overlaps no bullet of the player
  among \<open>bs\<close>.
\<close>

definition overlaps :: "enemy \<Rightarrow> bullet \<Rightarrow> bool" where
  "overlaps e b = (hypot (e_x e - b_x b) (e_y e - b_y b) < e_r e + b_r b)"

definition hit_outcome :: "enemy \<Rightarrow> bullet option \<Rightarrow> enemy list" where
  "hit_outcome e h =
     (case h of None \<Rightarrow> [e]
      | Some b \<Rightarrow> if e_hp e - b_dmg b \<le> 0 then [] else [e\<lparr>e_hp := e_hp e - b_dmg b\<rparr>])"

definition the_hits :: "bullet option list \<Rightarrow> bullet list" where
  "the_hits hs = concat (map (\<lambda>h. case h of None \<Rightarrow> [] | Some b \<Rightarrow> [b]) hs)"

definition hit_fair :: "bullet list \<Rightarrow> enemy \<Rightarrow> bullet option \<Rightarrow> bool" where
  "hit_fair bs e h =
     (case h of None \<Rightarrow> list_all (\<lambda>b. b_from b = FromPlayer \<longrightarrow> \<not> overlaps e b) bs
      | Some b \<Rightarrow> b_from b = FromPlayer \<and> overlaps e b)"

text \<open>A tank with five hit points ten units from the player; the same with a second
  enemy far away; a bullet of the player at rest; a tank with five hit points under two
  such bullets.\<close>

definition contact_demo :: state where
  "contact_demo = loaded0\<lparr>enemies := [enemy0 410 300 5 Tank]\<rparr>"

definition contact_pair :: state where
  "contact_pair = loaded0\<lparr>enemies := [enemy0 410 300 5 Tank, enemy0 100 100 1 Normal]\<rparr>"

definition bullet0 :: "real \<Rightarrow> real \<Rightarrow> bullet" where
  "bullet0 x y = \<lparr>b_x = x, b_y = y, b_vx = 0, b_vy = 0, b_r = 4, b_dmg = 1,
                  b_from = FromPlayer, b_rocket = False\<rparr>"

definition hits_demo :: state where
  "hits_demo = loaded0\<lparr>enemies := [enemy0 500 500 5 Tank],
                        bullets := [bullet0 500 500, bullet0 500 500]\<rparr>"

text \<open>The tank and the enemy far away in a started game.\<close>

definition contact_game :: state where
  "contact_game = contact_pair\<lparr>gameStarted := True\<rparr>"

subsection \<open>The passes of a step\<close>

text \<open>
  The parts of \<^verbatim>\<open>update\<close> around its three passes over bullets and enemies, in the words
  of its definition. \<open>frame_dt ts s\<close> is the time step \<^verbatim>\<open>dt\<close> of the call \<^verbatim>\<open>update(ts)\<close> in
  state \<open>s\<close>; \<open>before_bullets env ts s\<close> is the state of a started game when the pass
  "update bullets" begins, after the player has moved, has been pushed out of the
  walls and has fired; \<open>after_hits env dt\<close> is the rest of the step from the pass
  "bullets hitting player" on.
\<close>

definition frame_dt :: "real \<Rightarrow> state \<Rightarrow> real" where
  "frame_dt ts s =
     (let s0 = (if lastT s = 0 then s\<lparr>lastT := ts\<rparr> else s)
      in min 0.05 ((ts - lastT s0) / 1000))"

definition before_bullets :: "env \<Rightarrow> real \<Rightarrow> state \<Rightarrow> state" where
  "before_bullets env ts s =
     (let s0 = (if lastT s = 0 then s\<lparr>lastT := ts\<rparr> else s);
          dt = min 0.05 ((ts - lastT s0) / 1000);
          s1 = s0\<lparr>lastT := ts\<rparr>;
          s2 = avoidWalls (movePlayer env dt s1)
      in if mouseDown s2 then shootAtMouse env s2 else s2)"

definition after_hits :: "env \<Rightarrow> real \<Rightarrow> state \<Rightarrow> error + state" where
  "after_hits env dt s6 =
     andThen (bulletsHitPlayer env s6) (\<lambda>s7.
     andThen (updateParticles dt s7) (\<lambda>s8.
     andThen (updatePickups dt s8) (\<lambda>s9.
       Inr (gameOverCheck (levelProgression env (spawnPeriodicPickups env dt s9))))))"

text \<open>
  \<open>moved dt b\<close> is a bullet after the first line of the bullet pass and \<open>hitsWall\<close> the
  test of its loop over the walls. \<open>rocket_blast dt lvl b es\<close> is what the bullet \<open>b\<close>
  does to the enemy list \<open>es\<close> in the bullet pass: the blast of
  \<^verbatim>\<open>explode(b.x, b.y, 1.2)\<close>, of radius \<open>60 * 1.2\<close>, when \<open>b\<close> is a rocket that hits a wall,
  and nothing otherwise. \<open>is_frame\<close> tells the animation frame from the other events.
\<close>

definition moved :: "real \<Rightarrow> bullet \<Rightarrow> bullet" where
  "moved dt b = b\<lparr>b_x := b_x b + b_vx b * dt, b_y := b_y b + b_vy b * dt\<rparr>"

definition hitsWall :: "bullet \<Rightarrow> bool" where
  "hitsWall b = list_ex (\<lambda>w. circleRectCollision (b_x b) (b_y b) (b_r b)
                                (wl_x w) (wl_y w) (wl_w w) (wl_h w)) walls"

definition rocket_blast :: "real \<Rightarrow> int \<Rightarrow> bullet \<Rightarrow> enemy list \<Rightarrow> enemy list" where
  "rocket_blast dt lvl b es =
     (if hitsWall (moved dt b) \<and> b_rocket b then
        concat (map (blast_outcome (b_x (moved dt b)) (b_y (moved dt b)) (60 * 1.2) lvl) es)
      else es)"

definition is_frame :: "event \<Rightarrow> bool" where
  "is_frame ev = (case ev of Frame ts \<Rightarrow> True | _ \<Rightarrow> False)"
section \<open>Basic facts\<close>

subsection \<open>Loops and sequencing\<close>

lemma andThen_Inr [simp]: "andThen (Inr s) f = f s"
  by (simp add: andThen_def)

lemma andThen_Inl [simp]: "andThen (Inl e) f = Inl e"
  by (simp add: andThen_def)

lemma andThen_eq_Inr: "andThen r f = Inr t \<longleftrightarrow> (\<exists>s1. r = Inr s1 \<and> f s1 = Inr t)"
  by (cases r) simp_all

text \<open>A loop invariant \<open>I i\<close>, indexed by the loop counter, carries through a descending
  loop whose body never fails under it.\<close>

lemma downfrom_rule:
  assumes "I n s"
    and "\<And>i t. i < n \<Longrightarrow> I (Suc i) t \<Longrightarrow> \<exists>t'. body i t = Inr t' \<and> I i t'"
  shows "\<exists>s'. downfrom body n s = Inr s' \<and> I 0 s'"
  using assms
proof (induction n arbitrary: s)
  case 0
  then show ?case by simp
next
  case (Suc n)
  from Suc.prems(2)[of n s] Suc.prems(1) obtain t where t: "body n s = Inr t" "I n t"
    by auto
  have "\<exists>s'. downfrom body n t = Inr s' \<and> I 0 s'"
    by (rule Suc.IH[OF t(2)]) (use Suc.prems(2) in auto)
  with t show ?case by simp
qed

lemma forUpTo_rule:
  assumes "P s" and "\<And>i t. i < n \<Longrightarrow> P t \<Longrightarrow> P (body i t)"
  shows "P (forUpTo body n s)"
  using assms by (induction n) auto

lemma splice1_nth_update [simp]:
  "i < length xs \<Longrightarrow> splice1 i (xs[i := v]) = splice1 i xs"
  by (simp add: splice1_def)

lemma length_splice:
  "length (splice1 i xs) = (if i < length xs then length xs - 1 else length xs)"
  by (auto simp: splice1_def)

subsection \<open>Distances\<close>

lemma hypot_nonneg: "0 \<le> hypot a b"
  by (simp add: hypot_def)

text \<open>The comparison the collision tests make, without the square root.\<close>

lemma hypot_less_iff: "hypot a b < c \<longleftrightarrow> 0 < c \<and> a * a + b * b < c * c"
proof (cases "0 < c")
  case True
  have "sqrt (a * a + b * b) < c \<longleftrightarrow> sqrt (a * a + b * b) < sqrt (c * c)"
    using True by simp
  also have "\<dots> \<longleftrightarrow> a * a + b * b < c * c"
    by (rule real_sqrt_less_iff)
  finally show ?thesis using True by (simp add: hypot_def)
next
  case False
  then show ?thesis using hypot_nonneg[of a b] by auto
qed

subsection \<open>Which fields the cosmetic and spawning functions write\<close>

lemmas prim_defs =
  Math_random_def rand_def nowMs_def playSfx_def spawnParticle_def spawnPickup_def

lemma forUpTo_blood_frame [simp]:
  shows
    "gameStarted (forUpTo (blood_particle env x y) n s) = gameStarted s"
    "gameOver (forUpTo (blood_particle env x y) n s) = gameOver s"
    "score (forUpTo (blood_particle env x y) n s) = score s"
    "coins (forUpTo (blood_particle env x y) n s) = coins s"
    "level (forUpTo (blood_particle env x y) n s) = level s"
    "enemiesToSpawn (forUpTo (blood_particle env x y) n s) = enemiesToSpawn s"
    "player (forUpTo (blood_particle env x y) n s) = player s"
    "bullets (forUpTo (blood_particle env x y) n s) = bullets s"
    "enemies (forUpTo (blood_particle env x y) n s) = enemies s"
    "pickups (forUpTo (blood_particle env x y) n s) = pickups s"
    "weapons (forUpTo (blood_particle env x y) n s) = weapons s"
    "currentWeaponKey (forUpTo (blood_particle env x y) n s) = currentWeaponKey s"
    "lastShotAt (forUpTo (blood_particle env x y) n s) = lastShotAt s"
    "reloading (forUpTo (blood_particle env x y) n s) = reloading s"
    "keys (forUpTo (blood_particle env x y) n s) = keys s"
    "mouse (forUpTo (blood_particle env x y) n s) = mouse s"
    "mouseDown (forUpTo (blood_particle env x y) n s) = mouseDown s"
    "lastT (forUpTo (blood_particle env x y) n s) = lastT s"
    "pickupSpawnTimer (forUpTo (blood_particle env x y) n s) = pickupSpawnTimer s"
    "timers (forUpTo (blood_particle env x y) n s) = timers s"
    "sfx (forUpTo (blood_particle env x y) n s) = sfx s"
    "nclk (forUpTo (blood_particle env x y) n s) = nclk s"
  by (induction n) (simp_all add: blood_particle_def prim_defs Let_def)

lemma spawnBlood_frame [simp]:
  shows
    "gameStarted (spawnBlood env x y n s) = gameStarted s"
    "gameOver (spawnBlood env x y n s) = gameOver s"
    "score (spawnBlood env x y n s) = score s"
    "coins (spawnBlood env x y n s) = coins s"
    "level (spawnBlood env x y n s) = level s"
    "enemiesToSpawn (spawnBlood env x y n s) = enemiesToSpawn s"
    "player (spawnBlood env x y n s) = player s"
    "bullets (spawnBlood env x y n s) = bullets s"
    "enemies (spawnBlood env x y n s) = enemies s"
    "pickups (spawnBlood env x y n s) = pickups s"
    "weapons (spawnBlood env x y n s) = weapons s"
    "currentWeaponKey (spawnBlood env x y n s) = currentWeaponKey s"
    "lastShotAt (spawnBlood env x y n s) = lastShotAt s"
    "reloading (spawnBlood env x y n s) = reloading s"
    "keys (spawnBlood env x y n s) = keys s"
    "mouse (spawnBlood env x y n s) = mouse s"
    "mouseDown (spawnBlood env x y n s) = mouseDown s"
    "lastT (spawnBlood env x y n s) = lastT s"
    "pickupSpawnTimer (spawnBlood env x y n s) = pickupSpawnTimer s"
    "timers (spawnBlood env x y n s) = timers s"
    "sfx (spawnBlood env x y n s) = sfx s"
    "nclk (spawnBlood env x y n s) = nclk s"
  by (simp_all add: spawnBlood_def)

lemma forUpTo_muzzle_frame [simp]:
  shows
    "gameStarted (forUpTo (muzzle_particle env x y a) n s) = gameStarted s"
    "gameOver (forUpTo (muzzle_particle env x y a) n s) = gameOver s"
    "score (forUpTo (muzzle_particle env x y a) n s) = score s"
    "coins (forUpTo (muzzle_particle env x y a) n s) = coins s"
    "level (forUpTo (muzzle_particle env x y a) n s) = level s"
    "enemiesToSpawn (forUpTo (muzzle_particle env x y a) n s) = enemiesToSpawn s"
    "player (forUpTo (muzzle_particle env x y a) n s) = player s"
    "bullets (forUpTo (muzzle_particle env x y a) n s) = bullets s"
    "enemies (forUpTo (muzzle_particle env x y a) n s) = enemies s"
    "pickups (forUpTo (muzzle_particle env x y a) n s) = pickups s"
    "weapons (forUpTo (muzzle_particle env x y a) n s) = weapons s"
    "currentWeaponKey (forUpTo (muzzle_particle env x y a) n s) = currentWeaponKey s"
    "lastShotAt (forUpTo (muzzle_particle env x y a) n s) = lastShotAt s"
    "reloading (forUpTo (muzzle_particle env x y a) n s) = reloading s"
    "keys (forUpTo (muzzle_particle env x y a) n s) = keys s"
    "mouse (forUpTo (muzzle_particle env x y a) n s) = mouse s"
    "mouseDown (forUpTo (muzzle_particle env x y a) n s) = mouseDown s"
    "lastT (forUpTo (muzzle_particle env x y a) n s) = lastT s"
    "pickupSpawnTimer (forUpTo (muzzle_particle env x y a) n s) = pickupSpawnTimer s"
    "timers (forUpTo (muzzle_particle env x y a) n s) = timers s"
    "sfx (forUpTo (muzzle_particle env x y a) n s) = sfx s"
    "nclk (forUpTo (muzzle_particle env x y a) n s) = nclk s"
  by (induction n) (simp_all add: muzzle_particle_def prim_defs Let_def)

lemma spawnMuzzle_frame [simp]:
  shows
    "gameStarted (spawnMuzzle env x y a s) = gameStarted s"
    "gameOver (spawnMuzzle env x y a s) = gameOver s"
    "score (spawnMuzzle env x y a s) = score s"
    "coins (spawnMuzzle env x y a s) = coins s"
    "level (spawnMuzzle env x y a s) = level s"
    "enemiesToSpawn (spawnMuzzle env x y a s) = enemiesToSpawn s"
    "player (spawnMuzzle env x y a s) = player s"
    "bullets (spawnMuzzle env x y a s) = bullets s"
    "enemies (spawnMuzzle env x y a s) = enemies s"
    "pickups (spawnMuzzle env x y a s) = pickups s"
    "weapons (spawnMuzzle env x y a s) = weapons s"
    "currentWeaponKey (spawnMuzzle env x y a s) = currentWeaponKey s"
    "lastShotAt (spawnMuzzle env x y a s) = lastShotAt s"
    "reloading (spawnMuzzle env x y a s) = reloading s"
    "keys (spawnMuzzle env x y a s) = keys s"
    "mouse (spawnMuzzle env x y a s) = mouse s"
    "mouseDown (spawnMuzzle env x y a s) = mouseDown s"
    "lastT (spawnMuzzle env x y a s) = lastT s"
    "pickupSpawnTimer (spawnMuzzle env x y a s) = pickupSpawnTimer s"
    "timers (spawnMuzzle env x y a s) = timers s"
    "sfx (spawnMuzzle env x y a s) = sfx s"
    "nclk (spawnMuzzle env x y a s) = nclk s"
  by (simp_all add: spawnMuzzle_def)

lemma forUpTo_explode_particle_frame [simp]:
  shows
    "gameStarted (forUpTo (explode_particle env x y) n s) = gameStarted s"
    "gameOver (forUpTo (explode_particle env x y) n s) = gameOver s"
    "score (forUpTo (explode_particle env x y) n s) = score s"
    "coins (forUpTo (explode_particle env x y) n s) = coins s"
    "level (forUpTo (explode_particle env x y) n s) = level s"
    "enemiesToSpawn (forUpTo (explode_particle env x y) n s) = enemiesToSpawn s"
    "player (forUpTo (explode_particle env x y) n s) = player s"
    "bullets (forUpTo (explode_particle env x y) n s) = bullets s"
    "enemies (forUpTo (explode_particle env x y) n s) = enemies s"
    "pickups (forUpTo (explode_particle env x y) n s) = pickups s"
    "weapons (forUpTo (explode_particle env x y) n s) = weapons s"
    "currentWeaponKey (forUpTo (explode_particle env x y) n s) = currentWeaponKey s"
    "lastShotAt (forUpTo (explode_particle env x y) n s) = lastShotAt s"
    "reloading (forUpTo (explode_particle env x y) n s) = reloading s"
    "keys (forUpTo (explode_particle env x y) n s) = keys s"
    "mouse (forUpTo (explode_particle env x y) n s) = mouse s"
    "mouseDown (forUpTo (explode_particle env x y) n s) = mouseDown s"
    "lastT (forUpTo (explode_particle env x y) n s) = lastT s"
    "pickupSpawnTimer (forUpTo (explode_particle env x y) n s) = pickupSpawnTimer s"
    "timers (forUpTo (explode_particle env x y) n s) = timers s"
    "sfx (forUpTo (explode_particle env x y) n s) = sfx s"
    "nclk (forUpTo (explode_particle env x y) n s) = nclk s"
  by (induction n) (simp_all add: explode_particle_def prim_defs Let_def)

lemma forUpTo_pellet_frame [simp]:
  shows
    "gameStarted (forUpTo (pellet env a sp d) n s) = gameStarted s"
    "gameOver (forUpTo (pellet env a sp d) n s) = gameOver s"
    "score (forUpTo (pellet env a sp d) n s) = score s"
    "coins (forUpTo (pellet env a sp d) n s) = coins s"
    "level (forUpTo (pellet env a sp d) n s) = level s"
    "enemiesToSpawn (forUpTo (pellet env a sp d) n s) = enemiesToSpawn s"
    "player (forUpTo (pellet env a sp d) n s) = player s"
    "enemies (forUpTo (pellet env a sp d) n s) = enemies s"
    "particles (forUpTo (pellet env a sp d) n s) = particles s"
    "pickups (forUpTo (pellet env a sp d) n s) = pickups s"
    "weapons (forUpTo (pellet env a sp d) n s) = weapons s"
    "currentWeaponKey (forUpTo (pellet env a sp d) n s) = currentWeaponKey s"
    "lastShotAt (forUpTo (pellet env a sp d) n s) = lastShotAt s"
    "reloading (forUpTo (pellet env a sp d) n s) = reloading s"
    "keys (forUpTo (pellet env a sp d) n s) = keys s"
    "mouse (forUpTo (pellet env a sp d) n s) = mouse s"
    "mouseDown (forUpTo (pellet env a sp d) n s) = mouseDown s"
    "lastT (forUpTo (pellet env a sp d) n s) = lastT s"
    "pickupSpawnTimer (forUpTo (pellet env a sp d) n s) = pickupSpawnTimer s"
    "timers (forUpTo (pellet env a sp d) n s) = timers s"
    "sfx (forUpTo (pellet env a sp d) n s) = sfx s"
    "nclk (forUpTo (pellet env a sp d) n s) = nclk s"
  by (induction n) (simp_all add: pellet_def prim_defs Let_def)

lemma spawnEnemy_frame [simp]:
  shows
    "gameStarted (spawnEnemy env ty s) = gameStarted s"
    "gameOver (spawnEnemy env ty s) = gameOver s"
    "score (spawnEnemy env ty s) = score s"
    "coins (spawnEnemy env ty s) = coins s"
    "level (spawnEnemy env ty s) = level s"
    "enemiesToSpawn (spawnEnemy env ty s) = enemiesToSpawn s"
    "player (spawnEnemy env ty s) = player s"
    "bullets (spawnEnemy env ty s) = bullets s"
    "particles (spawnEnemy env ty s) = particles s"
    "pickups (spawnEnemy env ty s) = pickups s"
    "weapons (spawnEnemy env ty s) = weapons s"
    "currentWeaponKey (spawnEnemy env ty s) = currentWeaponKey s"
    "lastShotAt (spawnEnemy env ty s) = lastShotAt s"
    "reloading (spawnEnemy env ty s) = reloading s"
    "keys (spawnEnemy env ty s) = keys s"
    "mouse (spawnEnemy env ty s) = mouse s"
    "mouseDown (spawnEnemy env ty s) = mouseDown s"
    "lastT (spawnEnemy env ty s) = lastT s"
    "pickupSpawnTimer (spawnEnemy env ty s) = pickupSpawnTimer s"
    "timers (spawnEnemy env ty s) = timers s"
    "sfx (spawnEnemy env ty s) = sfx s"
    "nclk (spawnEnemy env ty s) = nclk s"
  by (simp_all add: spawnEnemy_def prim_defs Let_def)

lemma spawnWave_step_frame [simp]:
  shows
    "gameStarted (spawnWave_step env i s) = gameStarted s"
    "gameOver (spawnWave_step env i s) = gameOver s"
    "score (spawnWave_step env i s) = score s"
    "coins (spawnWave_step env i s) = coins s"
    "level (spawnWave_step env i s) = level s"
    "enemiesToSpawn (spawnWave_step env i s) = enemiesToSpawn s"
    "player (spawnWave_step env i s) = player s"
    "bullets (spawnWave_step env i s) = bullets s"
    "particles (spawnWave_step env i s) = particles s"
    "pickups (spawnWave_step env i s) = pickups s"
    "weapons (spawnWave_step env i s) = weapons s"
    "currentWeaponKey (spawnWave_step env i s) = currentWeaponKey s"
    "lastShotAt (spawnWave_step env i s) = lastShotAt s"
    "reloading (spawnWave_step env i s) = reloading s"
    "keys (spawnWave_step env i s) = keys s"
    "mouse (spawnWave_step env i s) = mouse s"
    "mouseDown (spawnWave_step env i s) = mouseDown s"
    "lastT (spawnWave_step env i s) = lastT s"
    "pickupSpawnTimer (spawnWave_step env i s) = pickupSpawnTimer s"
    "timers (spawnWave_step env i s) = timers s"
    "sfx (spawnWave_step env i s) = sfx s"
    "nclk (spawnWave_step env i s) = nclk s"
  by (simp_all add: spawnWave_step_def prim_defs)

lemma forUpTo_spawnWave_frame [simp]:
  shows
    "gameStarted (forUpTo (spawnWave_step env) n s) = gameStarted s"
    "gameOver (forUpTo (spawnWave_step env) n s) = gameOver s"
    "score (forUpTo (spawnWave_step env) n s) = score s"
    "coins (forUpTo (spawnWave_step env) n s) = coins s"
    "level (forUpTo (spawnWave_step env) n s) = level s"
    "enemiesToSpawn (forUpTo (spawnWave_step env) n s) = enemiesToSpawn s"
    "player (forUpTo (spawnWave_step env) n s) = player s"
    "bullets (forUpTo (spawnWave_step env) n s) = bullets s"
    "particles (forUpTo (spawnWave_step env) n s) = particles s"
    "pickups (forUpTo (spawnWave_step env) n s) = pickups s"
    "weapons (forUpTo (spawnWave_step env) n s) = weapons s"
    "currentWeaponKey (forUpTo (spawnWave_step env) n s) = currentWeaponKey s"
    "lastShotAt (forUpTo (spawnWave_step env) n s) = lastShotAt s"
    "reloading (forUpTo (spawnWave_step env) n s) = reloading s"
    "keys (forUpTo (spawnWave_step env) n s) = keys s"
    "mouse (forUpTo (spawnWave_step env) n s) = mouse s"
    "mouseDown (forUpTo (spawnWave_step env) n s) = mouseDown s"
    "lastT (forUpTo (spawnWave_step env) n s) = lastT s"
    "pickupSpawnTimer (forUpTo (spawnWave_step env) n s) = pickupSpawnTimer s"
    "timers (forUpTo (spawnWave_step env) n s) = timers s"
    "sfx (forUpTo (spawnWave_step env) n s) = sfx s"
    "nclk (forUpTo (spawnWave_step env) n s) = nclk s"
  by (induction n) simp_all

lemma spawnWave_frame [simp]:
  shows
    "gameStarted (spawnWave env s) = gameStarted s"
    "gameOver (spawnWave env s) = gameOver s"
    "score (spawnWave env s) = score s"
    "coins (spawnWave env s) = coins s"
    "level (spawnWave env s) = level s"
    "enemiesToSpawn (spawnWave env s) = enemiesToSpawn s"
    "player (spawnWave env s) = player s"
    "bullets (spawnWave env s) = bullets s"
    "particles (spawnWave env s) = particles s"
    "pickups (spawnWave env s) = pickups s"
    "weapons (spawnWave env s) = weapons s"
    "currentWeaponKey (spawnWave env s) = currentWeaponKey s"
    "lastShotAt (spawnWave env s) = lastShotAt s"
    "reloading (spawnWave env s) = reloading s"
    "keys (spawnWave env s) = keys s"
    "mouse (spawnWave env s) = mouse s"
    "mouseDown (spawnWave env s) = mouseDown s"
    "lastT (spawnWave env s) = lastT s"
    "pickupSpawnTimer (spawnWave env s) = pickupSpawnTimer s"
    "timers (spawnWave env s) = timers s"
    "sfx (spawnWave env s) = sfx s"
    "nclk (spawnWave env s) = nclk s"
  by (simp_all add: spawnWave_def Let_def)

section \<open>The explosion\<close>

lemma explode_step_enemies:
  assumes "i < length (enemies s)"
  shows "\<exists>t. explode_step env x y radius i s = Inr t
     \<and> enemies t = take i (enemies s) @ blast_outcome x y radius (level s) (enemies s ! i)
          @ drop (Suc i) (enemies s)
     \<and> level t = level s
     \<and> map (\<lambda>p. (pk_x p, pk_y p, pk_type p)) (pickups t) =
         map (\<lambda>p. (pk_x p, pk_y p, pk_type p)) (pickups s) @
         map (\<lambda>e. (e_x e, e_y e, Coin)) (filter (blast_kills x y radius (level s)) [enemies s ! i])"
  using assms id_take_nth_drop[of i "enemies s"]
  by (simp add: explode_step_def blast_outcome_def blast_kills_def Let_def Math_random_def
      spawnPickup_def splice1_def upd_conv_take_nth_drop)

text \<open>The descending loop with its in-place splices treats each enemy once: the part of
  the array below the counter is still to come, the part from the counter on is done.\<close>

lemma explode_loop_enemies:
  assumes "n \<le> length (enemies s)"
  shows "\<exists>t. downfrom (explode_step env x y radius) n s = Inr t
     \<and> enemies t = concat (map (blast_outcome x y radius (level s)) (take n (enemies s)))
          @ drop n (enemies s)
     \<and> level t = level s
     \<and> map (\<lambda>p. (pk_x p, pk_y p, pk_type p)) (pickups t) =
         map (\<lambda>p. (pk_x p, pk_y p, pk_type p)) (pickups s) @
         map (\<lambda>e. (e_x e, e_y e, Coin))
           (rev (filter (blast_kills x y radius (level s)) (take n (enemies s))))"
  using assms
proof (induction n arbitrary: s)
  case 0
  then show ?case by simp
next
  case (Suc n)
  then have n: "n < length (enemies s)" by simp
  from explode_step_enemies[OF n, of env x y radius] obtain s1 where
    s1: "explode_step env x y radius n s = Inr s1"
      "enemies s1 = take n (enemies s) @ blast_outcome x y radius (level s) (enemies s ! n)
         @ drop (Suc n) (enemies s)"
      "level s1 = level s"
      "map (\<lambda>p. (pk_x p, pk_y p, pk_type p)) (pickups s1) =
         map (\<lambda>p. (pk_x p, pk_y p, pk_type p)) (pickups s) @
         map (\<lambda>e. (e_x e, e_y e, Coin)) (filter (blast_kills x y radius (level s)) [enemies s ! n])"
    by blast
  have len: "n \<le> length (enemies s1)" using n s1(2) by simp
  have tk: "take n (enemies s1) = take n (enemies s)" using n s1(2) by simp
  have dr: "drop n (enemies s1) =
      blast_outcome x y radius (level s) (enemies s ! n) @ drop (Suc n) (enemies s)"
    using n s1(2) by simp
  from Suc.IH[OF len] obtain t where t: "downfrom (explode_step env x y radius) n s1 = Inr t"
    "enemies t = concat (map (blast_outcome x y radius (level s1)) (take n (enemies s1)))
       @ drop n (enemies s1)"
    "level t = level s1"
    "map (\<lambda>p. (pk_x p, pk_y p, pk_type p)) (pickups t) =
         map (\<lambda>p. (pk_x p, pk_y p, pk_type p)) (pickups s1) @
         map (\<lambda>e. (e_x e, e_y e, Coin))
           (rev (filter (blast_kills x y radius (level s1)) (take n (enemies s1))))"
    by blast
  show ?case
    using s1 t tk dr n by (simp add: take_Suc_conv_app_nth)
qed

lemma explode_step_outside:
  assumes "i < length (enemies s)"
  shows "\<exists>t. explode_step env x y radius i s = Inr t \<and> outside_explode t = outside_explode s
           \<and> i \<le> length (enemies t)"
  using assms
  by (auto simp add: explode_step_def outside_explode_def Let_def prim_defs length_splice)

lemma explode_loop_outside:
  assumes "n \<le> length (enemies s)"
  shows "\<exists>t. downfrom (explode_step env x y radius) n s = Inr t
           \<and> outside_explode t = outside_explode s"
proof -
  have "\<exists>t. downfrom (explode_step env x y radius) n s = Inr t \<and>
          (outside_explode t = outside_explode s \<and> 0 \<le> length (enemies t))"
  proof (rule downfrom_rule[where
        I = "\<lambda>i t. outside_explode t = outside_explode s \<and> i \<le> length (enemies t)"])
    show "outside_explode s = outside_explode s \<and> n \<le> length (enemies s)"
      using assms by simp
  next
    fix i t
    assume "i < n"
      and I: "outside_explode t = outside_explode s \<and> Suc i \<le> length (enemies t)"
    then have "i < length (enemies t)" by simp
    from explode_step_outside[OF this, of env x y radius] I
    show "\<exists>t'. explode_step env x y radius i t = Inr t' \<and>
            outside_explode t' = outside_explode s \<and> i \<le> length (enemies t')"
      by auto
  qed
  then show ?thesis by blast
qed

lemma forUpTo_explode_particle_outside:
  "outside_explode (forUpTo (explode_particle env x y) n s) = outside_explode s"
  by (induction n) (simp_all add: explode_particle_def prim_defs outside_explode_def)

lemma explode_outside:
  "\<exists>t. explode env x y scale s = Inr t \<and> outside_explode t = outside_explode s"
proof -
  let ?s1 = "forUpTo (explode_particle env x y) 40 s"
  from explode_loop_outside[of "length (enemies ?s1)" ?s1 env x y "60 * scale"]
  obtain t where
    t: "downfrom (explode_step env x y (60 * scale)) (length (enemies ?s1)) ?s1 = Inr t"
      "outside_explode t = outside_explode ?s1" by auto
  have "outside_explode (playSfx ''explosion'' t) = outside_explode t"
    by (simp add: playSfx_def outside_explode_def)
  with t show ?thesis
    by (simp add: explode_def forUpTo_explode_particle_outside del: forUpTo.simps)
qed

text \<open>
  Claim C4. For every call \<^verbatim>\<open>explode(x, y, scale)\<close> the call returns, and the enemy list
  afterwards is the list at call time, in order, with every enemy whose distance from
  \<open>(x, y)\<close> is below \<open>60 * scale\<close> plus its radius having lost exactly \<open>3 + level\<close> hit
  points and being removed if that brings it to zero or below; the pickups added by the
  call are one coin pickup at the position of each enemy so removed (in the order of
  the descending loop).
\<close>

theorem explode_damages_and_removes:
  "\<exists>t. explode env x y scale s = Inr t \<and>
     enemies t = concat (map (blast_outcome x y (60 * scale) (level s)) (enemies s)) \<and>
     map (\<lambda>p. (pk_x p, pk_y p, pk_type p)) (pickups t) =
       map (\<lambda>p. (pk_x p, pk_y p, pk_type p)) (pickups s) @
       map (\<lambda>e. (e_x e, e_y e, Coin))
         (rev (filter (blast_kills x y (60 * scale) (level s)) (enemies s)))"
proof -
  let ?s1 = "forUpTo (explode_particle env x y) 40 s"
  from explode_loop_enemies[of "length (enemies ?s1)" ?s1 env x y "60 * scale"]
  obtain t where
    t: "downfrom (explode_step env x y (60 * scale)) (length (enemies ?s1)) ?s1 = Inr t"
      "enemies t = concat (map (blast_outcome x y (60 * scale) (level ?s1))
          (take (length (enemies ?s1)) (enemies ?s1))) @ drop (length (enemies ?s1)) (enemies ?s1)"
      "map (\<lambda>p. (pk_x p, pk_y p, pk_type p)) (pickups t) =
         map (\<lambda>p. (pk_x p, pk_y p, pk_type p)) (pickups ?s1) @
         map (\<lambda>e. (e_x e, e_y e, Coin))
           (rev (filter (blast_kills x y (60 * scale) (level ?s1))
              (take (length (enemies ?s1)) (enemies ?s1))))"
    by blast
  have "explode env x y scale s = Inr (playSfx ''explosion'' t)"
    using t(1) by (simp add: explode_def del: forUpTo.simps)
  moreover have "enemies (playSfx ''explosion'' t) = enemies t"
    "pickups (playSfx ''explosion'' t) = pickups t"
    by (simp_all add: playSfx_def)
  ultimately show ?thesis using t(2,3) by (simp del: forUpTo.simps)
qed

text \<open>At level 1, an explosion of scale 1 at \<open>(100, 100)\<close> kills the enemy standing
  there, leaves the far one alone and takes four hit points off the boss ten units
  away; the one pickup lies where the killed enemy stood.\<close>

theorem explode_damages_and_removes_witness:
  "\<exists>t. explode env0 100 100 1 blast_demo = Inr t \<and>
     enemies t = [enemy0 500 500 1 Normal, enemy0 110 100 46 Boss] \<and>
     map (\<lambda>p. (pk_x p, pk_y p, pk_type p)) (pickups t) = [(100, 100, Coin)]"
  using explode_damages_and_removes[of env0 100 100 1 blast_demo]
  by (simp add: blast_demo_def loaded0_def createPlayer_def state0_def enemy0_def blast_outcome_def blast_kills_def
      hypot_less_iff)

text \<open>
  Claim C10. Every call of \<^verbatim>\<open>explode\<close> returns and leaves the player (its health
  included), the score and the coin balance as they were: it writes the enemy list,
  the pickups, the particles, the sound log and the count of random numbers drawn, and
  nothing else.
\<close>

theorem explode_frame:
  "\<exists>t. explode env x y scale s = Inr t \<and>
     p_hp (player t) = p_hp (player s) \<and> player t = player s \<and>
     score t = score s \<and> coins t = coins s \<and>
     outside_explode t = outside_explode s"
proof -
  from explode_outside[of env x y scale s] obtain t where
    t: "explode env x y scale s = Inr t" "outside_explode t = outside_explode s" by blast
  have "player (outside_explode t) = player (outside_explode s)"
    "score (outside_explode t) = score (outside_explode s)"
    "coins (outside_explode t) = coins (outside_explode s)"
    by (simp_all only: t(2))
  then have "player t = player s" "score t = score s" "coins t = coins s"
    by (simp_all add: outside_explode_def)
  with t show ?thesis by simp
qed

section \<open>Firing\<close>

lemma shoot_reloading: "reloading s \<Longrightarrow> shootAtMouse env s = s"
  by (simp add: shootAtMouse_def Let_def)

text \<open>A call that adds a bullet was made while not reloading, with a round left, and
  writes the weapon table at the current weapon's ammo only.\<close>

lemma shoot_fires:
  assumes "bullets (shootAtMouse env s) \<noteq> bullets s"
  shows "\<not> reloading s \<and> 0 < w_ammo (weapons s (currentWeaponKey s)) \<and>
     weapons (shootAtMouse env s) =
       (weapons s)(currentWeaponKey s := (weapons s (currentWeaponKey s))
          \<lparr>w_ammo := w_ammo (weapons s (currentWeaponKey s)) - 1\<rparr>)"
  using assms
  by (auto simp add: shootAtMouse_def Let_def autoReload_def setTimeout_reload_def prim_defs
      split: if_splits wtype.splits)

text \<open>
  Claim C1. Whenever a call of \<^verbatim>\<open>shootAtMouse\<close> spawns a bullet (the bullet list
  changes), the reloading flag was false, the current weapon's ammo after the call is
  its ammo before minus one and is not negative, and no other weapon is touched; and a
  call made while the reloading flag is true changes nothing at all.
\<close>

theorem fire_takes_one_round:
  "(bullets (shootAtMouse env s) \<noteq> bullets s \<longrightarrow>
      \<not> reloading s \<and>
      w_ammo (weapons (shootAtMouse env s) (currentWeaponKey s)) =
        w_ammo (weapons s (currentWeaponKey s)) - 1 \<and>
      0 \<le> w_ammo (weapons (shootAtMouse env s) (currentWeaponKey s)) \<and>
      (\<forall>k. k \<noteq> currentWeaponKey s \<longrightarrow> weapons (shootAtMouse env s) k = weapons s k)) \<and>
   (reloading s \<longrightarrow> shootAtMouse env s = s)"
proof (intro conjI impI)
  assume b: "bullets (shootAtMouse env s) \<noteq> bullets s"
  note f = shoot_fires[OF b]
  show "\<not> reloading s" using f by simp
  show "w_ammo (weapons (shootAtMouse env s) (currentWeaponKey s)) =
        w_ammo (weapons s (currentWeaponKey s)) - 1" using f by simp
  show "0 \<le> w_ammo (weapons (shootAtMouse env s) (currentWeaponKey s))" using f by simp
  show "\<forall>k. k \<noteq> currentWeaponKey s \<longrightarrow> weapons (shootAtMouse env s) k = weapons s k"
    using f by simp
next
  assume "reloading s" then show "shootAtMouse env s = s" by (rule shoot_reloading)
qed

text \<open>With the pistol's twelve rounds and the last shot long past, a shot leaves eleven;
  while a reload is under way the call does nothing.\<close>

theorem fire_takes_one_round_witness:
  "bullets (shootAtMouse env0 started0) \<noteq> bullets started0 \<and>
   w_ammo (weapons started0 Pistol) = 12 \<and>
   w_ammo (weapons (shootAtMouse env0 started0) Pistol) = 11 \<and>
   reloading reloading0 \<and> shootAtMouse env0 reloading0 = reloading0"
proof -
  have h: "bullets (shootAtMouse env0 started0) \<noteq> bullets started0"
    by (simp add: shootAtMouse_def started0_def loaded0_def createPlayer_def state0_def weapons0_def env0_def Let_def
        prim_defs)
  have r: "reloading reloading0"
    by (simp add: reloading0_def)
  have k: "currentWeaponKey started0 = Pistol" "w_ammo (weapons started0 Pistol) = 12"
    by (simp_all add: started0_def loaded0_def createPlayer_def state0_def weapons0_def)
  from fire_takes_one_round[of env0 started0] h
  have "w_ammo (weapons (shootAtMouse env0 started0) (currentWeaponKey started0)) =
        w_ammo (weapons started0 (currentWeaponKey started0)) - 1"
    by blast
  moreover from fire_takes_one_round[of env0 reloading0] r
  have "shootAtMouse env0 reloading0 = reloading0"
    by blast
  ultimately show ?thesis using h r k by simp
qed

section \<open>Waves\<close>

lemma spawnEnemy_enemies:
  "\<exists>e. enemies (spawnEnemy env ty s) = enemies s @ [e] \<and> e_type e = ty \<and>
       e_hp e = archetype_hp ty (level s)"
  by (cases ty) (simp_all add: spawnEnemy_def prim_defs Let_def archetype_hp_def)

text \<open>Every iteration of the loop of \<^verbatim>\<open>spawnWave\<close> appends one enemy, never a bomber,
  and a boss at index 0 of a level divisible by five.\<close>

lemma spawnWave_step_enemies:
  "\<exists>e. enemies (spawnWave_step env i s) = enemies s @ [e] \<and> e_type e \<noteq> Bomber \<and>
       e_hp e = archetype_hp (e_type e) (level s) \<and>
       (level s mod 5 = 0 \<and> i = 0 \<longrightarrow> e_type e = Boss)"
proof -
  have *: "\<And>ty t. ty \<noteq> Bomber \<Longrightarrow> level t = level s \<Longrightarrow> enemies t = enemies s \<Longrightarrow>
     \<exists>e. enemies (spawnEnemy env ty t) = enemies s @ [e] \<and> e_type e \<noteq> Bomber \<and>
       e_hp e = archetype_hp (e_type e) (level s) \<and> e_type e = ty"
    using spawnEnemy_enemies by (metis (no_types))
  show ?thesis
    unfolding spawnWave_step_def Math_random_def
    using *[of Boss s] *[of Normal "s\<lparr>nrnd := Suc (nrnd s)\<rparr>"]
      *[of Fast "s\<lparr>nrnd := Suc (nrnd s)\<rparr>"] *[of Spitter "s\<lparr>nrnd := Suc (nrnd s)\<rparr>"]
      *[of Tank "s\<lparr>nrnd := Suc (nrnd s)\<rparr>"]
    by auto
qed

lemma forUpTo_spawnWave_length:
  "length (enemies (forUpTo (spawnWave_step env) n s)) = length (enemies s) + n"
proof (induction n)
  case 0
  then show ?case by simp
next
  case (Suc n)
  from spawnWave_step_enemies[of env n "forUpTo (spawnWave_step env) n s"]
  show ?case using Suc by auto
qed

lemma forUpTo_spawnWave_first:
  "0 < n \<Longrightarrow> take (Suc (length (enemies s))) (enemies (forUpTo (spawnWave_step env) n s)) =
     enemies (spawnWave_step env 0 s)"
proof (induction n)
  case 0
  then show ?case by simp
next
  case (Suc n)
  show ?case
  proof (cases n)
    case 0
    from spawnWave_step_enemies[of env 0 s] show ?thesis using 0 by auto
  next
    case (Suc m)
    let ?t = "forUpTo (spawnWave_step env) n s"
    from spawnWave_step_enemies[of env n ?t] obtain e where
      e: "enemies (spawnWave_step env n ?t) = enemies ?t @ [e]" by blast
    have "length (enemies ?t) = length (enemies s) + n" by (rule forUpTo_spawnWave_length)
    then show ?thesis using Suc.IH Suc e by simp
  qed
qed

text \<open>
  Claim C3. Whatever the enemy list held, after \<^verbatim>\<open>spawnWave\<close> it holds exactly
  \<^verbatim>\<open>enemiesToSpawn + Math.floor(level * 1.2)\<close> enemies (none if that count is negative,
  which needs a level below 1 or a negative quota); and when the level is a multiple of
  5 and the count is positive, the first enemy of the list is a boss with
  \<open>20 + 4 * level\<close> hit points.
\<close>

theorem spawnWave_quota_and_boss:
  "length (enemies (spawnWave env s)) =
     nat (enemiesToSpawn s + \<lfloor>of_int (level s) * (1.2 :: real)\<rfloor>) \<and>
   (1 \<le> level s \<and> 0 \<le> enemiesToSpawn s \<longrightarrow>
      int (length (enemies (spawnWave env s))) =
        enemiesToSpawn s + \<lfloor>of_int (level s) * (1.2 :: real)\<rfloor>) \<and>
   (level s mod 5 = 0 \<and> 0 < enemiesToSpawn s + \<lfloor>of_int (level s) * (1.2 :: real)\<rfloor> \<longrightarrow>
      e_type (hd (enemies (spawnWave env s))) = Boss \<and>
      e_hp (hd (enemies (spawnWave env s))) = 20 + 4 * level s)"
proof (intro conjI impI)
  let ?c = "enemiesToSpawn s + \<lfloor>of_int (level s) * (1.2 :: real)\<rfloor>"
  let ?s1 = "s\<lparr>enemies := []\<rparr>"
  have sw: "spawnWave env s = forUpTo (spawnWave_step env) (nat ?c) ?s1"
    by (simp add: spawnWave_def Let_def)
  show len: "length (enemies (spawnWave env s)) = nat ?c"
    by (simp add: sw forUpTo_spawnWave_length)
  {
    assume a: "1 \<le> level s \<and> 0 \<le> enemiesToSpawn s"
    then have "0 \<le> \<lfloor>of_int (level s) * (1.2 :: real)\<rfloor>" by simp
    then show "int (length (enemies (spawnWave env s))) = ?c"
      using len a by simp
  }
  {
    assume a: "level s mod 5 = 0 \<and> 0 < ?c"
    then have pos: "0 < nat ?c" by simp
    from forUpTo_spawnWave_first[OF pos, of ?s1 env]
    have tk: "take 1 (enemies (spawnWave env s)) = enemies (spawnWave_step env 0 ?s1)"
      by (simp add: sw)
    from spawnWave_step_enemies[of env 0 ?s1] a obtain e where
      e: "enemies (spawnWave_step env 0 ?s1) = [e]" "e_type e = Boss"
         "e_hp e = archetype_hp (e_type e) (level s)" by auto
    from tk e(1) have "hd (enemies (spawnWave env s)) = e"
      by (metis hd_take list.sel(1) zero_less_one)
    then show "e_type (hd (enemies (spawnWave env s))) = Boss"
      "e_hp (hd (enemies (spawnWave env s))) = 20 + 4 * level s"
      using e by (simp_all add: archetype_hp_def)
  }
qed

text \<open>At level 5 with the initial quota of 6 the wave has twelve enemies, led by a boss
  with forty hit points.\<close>

theorem spawnWave_quota_and_boss_witness:
  "level level5 mod 5 = 0 \<and> 1 \<le> level level5 \<and> 0 \<le> enemiesToSpawn level5 \<and>
   length (enemies (spawnWave env0 level5)) = 12 \<and>
   e_type (hd (enemies (spawnWave env0 level5))) = Boss \<and>
   e_hp (hd (enemies (spawnWave env0 level5))) = 40"
proof -
  have l: "level level5 = 5" "enemiesToSpawn level5 = 6"
    by (simp_all add: level5_def loaded0_def createPlayer_def state0_def)
  have f: "\<lfloor>of_int (level level5) * (1.2 :: real)\<rfloor> = 6"
    by (simp add: l)
  from spawnWave_quota_and_boss[of env0 level5] show ?thesis
    by (simp add: l f)
qed

section \<open>Walls\<close>

text \<open>
  Claim C8, as stated, fails: nothing in the source compares penetration depths, and a
  player whose circle overlaps a corner of a wall from outside is moved on both axes at
  once. The player at \<open>(195, 135)\<close> with radius 16 overlaps the corner \<open>(200, 140)\<close> of
  the first wall and is put at \<open>(183, 123)\<close>.
\<close>

theorem wall_pushes_both_axes:
  "wall1 \<in> set walls \<and>
   circleRectCollision (p_x corner_demo) (p_y corner_demo) (p_r corner_demo)
     (wl_x wall1) (wl_y wall1) (wl_w wall1) (wl_h wall1) \<and>
   p_x (avoidWall wall1 corner_demo) \<noteq> p_x corner_demo \<and>
   p_y (avoidWall wall1 corner_demo) \<noteq> p_y corner_demo \<and>
   player (avoidWalls (state0\<lparr>player := corner_demo\<rparr>)) = corner_demo\<lparr>p_x := 183, p_y := 123\<rparr>"
  by (simp add: walls_def wall1_def corner_demo_def avoidWall_def avoidWalls_def
      circleRectCollision_def clamp_def state0_def Let_def)

lemma avoidWall_no_overlap:
  "\<not> circleRectCollision (p_x p) (p_y p) (p_r p) (wl_x w) (wl_y w) (wl_w w) (wl_h w) \<Longrightarrow>
   avoidWall w p = p"
  by (simp add: avoidWall_def)

lemma sq_gt: "0 \<le> r \<Longrightarrow> r + 1 \<le> \<bar>d\<bar> \<Longrightarrow> r * r < d * d + (e::real) * e"
proof -
  assume a: "0 \<le> r" "r + 1 \<le> \<bar>d\<bar>"
  then have "r * r < \<bar>d\<bar> * \<bar>d\<bar>"
    by (intro mult_strict_mono) auto
  then have "r * r < d * d" by simp
  moreover have "0 \<le> e * e" by simp
  ultimately show ?thesis by linarith
qed

lemma avoidWall_xyr:
  assumes "circleRectCollision (p_x p) (p_y p) (p_r p) (wl_x w) (wl_y w) (wl_w w) (wl_h w)"
  shows "p_x (avoidWall w p) =
           (if p_x p < wl_x w then wl_x w - p_r p - 1
            else if p_x p > wl_x w + wl_w w then wl_x w + wl_w w + p_r p + 1
            else p_x p)"
    and "p_y (avoidWall w p) =
           (if p_y p < wl_y w then wl_y w - p_r p - 1
            else if p_y p > wl_y w + wl_h w then wl_y w + wl_h w + p_r p + 1
            else p_y p)"
    and "p_r (avoidWall w p) = p_r p"
  using assms by (simp_all add: avoidWall_def Let_def)

lemma avoidWall_clears:
  assumes c: "circleRectCollision (p_x p) (p_y p) (p_r p) (wl_x w) (wl_y w) (wl_w w) (wl_h w)"
    and a: "0 \<le> p_r p" "0 \<le> wl_w w \<and> 0 \<le> wl_h w"
      "p_x p < wl_x w \<or> p_x p > wl_x w + wl_w w \<or> p_y p < wl_y w \<or> p_y p > wl_y w + wl_h w"
  shows "\<not> circleRectCollision (p_x (avoidWall w p)) (p_y (avoidWall w p)) (p_r (avoidWall w p))
             (wl_x w) (wl_y w) (wl_w w) (wl_h w)"
proof -
  note xyr = avoidWall_xyr[OF c]
  let ?x = "p_x (avoidWall w p)" and ?y = "p_y (avoidWall w p)"
  let ?dx = "?x - clamp ?x (wl_x w) (wl_x w + wl_w w)"
  let ?dy = "?y - clamp ?y (wl_y w) (wl_y w + wl_h w)"
  have "p_r p + 1 \<le> \<bar>?dx\<bar> \<or> p_r p + 1 \<le> \<bar>?dy\<bar>"
    using a unfolding xyr clamp_def by (auto simp: max_def min_def)
  then have "p_r p * p_r p < ?dx * ?dx + ?dy * ?dy"
    using sq_gt[OF a(1), of ?dx ?dy] sq_gt[OF a(1), of ?dy ?dx] by (auto simp: add.commute)
  then show ?thesis
    unfolding xyr(3) by (simp add: circleRectCollision_def Let_def)
qed

text \<open>
  Claim C8, amended. When the player overlaps a wall, each coordinate of its centre that
  lies outside the wall's extent on that axis is set to the position one unit more than
  the radius beyond the wall's face on that side, and a coordinate within the extent is
  left as it is: one axis moves when the centre is beside an edge, both when it is
  diagonal to a corner. With a centre outside the rectangle the player no longer
  overlaps that wall afterwards. A player that does not overlap the wall is not moved.
\<close>

theorem avoidWall_pushes_each_axis:
  "(circleRectCollision (p_x p) (p_y p) (p_r p) (wl_x w) (wl_y w) (wl_w w) (wl_h w) \<longrightarrow>
      p_x (avoidWall w p) =
        (if p_x p < wl_x w then wl_x w - p_r p - 1
         else if p_x p > wl_x w + wl_w w then wl_x w + wl_w w + p_r p + 1
         else p_x p) \<and>
      p_y (avoidWall w p) =
        (if p_y p < wl_y w then wl_y w - p_r p - 1
         else if p_y p > wl_y w + wl_h w then wl_y w + wl_h w + p_r p + 1
         else p_y p) \<and>
      (0 \<le> p_r p \<and> 0 \<le> wl_w w \<and> 0 \<le> wl_h w \<and>
       (p_x p < wl_x w \<or> p_x p > wl_x w + wl_w w \<or> p_y p < wl_y w \<or> p_y p > wl_y w + wl_h w) \<longrightarrow>
       \<not> circleRectCollision (p_x (avoidWall w p)) (p_y (avoidWall w p)) (p_r (avoidWall w p))
           (wl_x w) (wl_y w) (wl_w w) (wl_h w))) \<and>
   (\<not> circleRectCollision (p_x p) (p_y p) (p_r p) (wl_x w) (wl_y w) (wl_w w) (wl_h w) \<longrightarrow>
      avoidWall w p = p)"
  using avoidWall_xyr[of p w] avoidWall_clears[of p w] avoidWall_no_overlap[of p w]
  by blast

text \<open>A player above the first wall's upper edge, its centre within the wall's extent in
  x, is moved up only and is clear of the wall.\<close>

theorem avoidWall_pushes_each_axis_witness:
  "circleRectCollision (p_x above_demo) (p_y above_demo) (p_r above_demo)
     (wl_x wall1) (wl_y wall1) (wl_w wall1) (wl_h wall1) \<and>
   0 \<le> p_r above_demo \<and> 0 \<le> wl_w wall1 \<and> 0 \<le> wl_h wall1 \<and> p_y above_demo < wl_y wall1 \<and>
   p_x (avoidWall wall1 above_demo) = 250 \<and> p_y (avoidWall wall1 above_demo) = 123 \<and>
   \<not> circleRectCollision (p_x (avoidWall wall1 above_demo)) (p_y (avoidWall wall1 above_demo))
       (p_r (avoidWall wall1 above_demo)) (wl_x wall1) (wl_y wall1) (wl_w wall1) (wl_h wall1) \<and>
   avoidWall wall1 (avoidWall wall1 above_demo) = avoidWall wall1 above_demo"
proof -
  have c: "circleRectCollision (p_x above_demo) (p_y above_demo) (p_r above_demo)
     (wl_x wall1) (wl_y wall1) (wl_w wall1) (wl_h wall1)"
    by (simp add: above_demo_def wall1_def circleRectCollision_def clamp_def Let_def)
  have g: "0 \<le> p_r above_demo" "0 \<le> wl_w wall1" "0 \<le> wl_h wall1" "p_y above_demo < wl_y wall1"
    "\<not> p_x above_demo < wl_x wall1" "\<not> p_x above_demo > wl_x wall1 + wl_w wall1"
    "p_x above_demo = 250" "wl_y wall1 - p_r above_demo - 1 = 123"
    by (simp_all add: above_demo_def wall1_def)
  note th = avoidWall_pushes_each_axis[of above_demo wall1]
  from th c have "p_x (avoidWall wall1 above_demo) =
        (if p_x above_demo < wl_x wall1 then wl_x wall1 - p_r above_demo - 1
         else if p_x above_demo > wl_x wall1 + wl_w wall1
           then wl_x wall1 + wl_w wall1 + p_r above_demo + 1
         else p_x above_demo)"
    by blast
  then have 1: "p_x (avoidWall wall1 above_demo) = 250" using g by simp
  from th c have "p_y (avoidWall wall1 above_demo) =
        (if p_y above_demo < wl_y wall1 then wl_y wall1 - p_r above_demo - 1
         else if p_y above_demo > wl_y wall1 + wl_h wall1
           then wl_y wall1 + wl_h wall1 + p_r above_demo + 1
         else p_y above_demo)"
    by blast
  then have 1: "p_x (avoidWall wall1 above_demo) = 250" "p_y (avoidWall wall1 above_demo) = 123"
    using 1 g by simp_all
  from th c g(1-4)
  have 3: "\<not> circleRectCollision (p_x (avoidWall wall1 above_demo)) (p_y (avoidWall wall1 above_demo))
       (p_r (avoidWall wall1 above_demo)) (wl_x wall1) (wl_y wall1) (wl_w wall1) (wl_h wall1)"
    by blast
  from avoidWall_pushes_each_axis[of "avoidWall wall1 above_demo" wall1] 3
  have 2: "avoidWall wall1 (avoidWall wall1 above_demo) = avoidWall wall1 above_demo"
    by blast
  from c g(1-4) 1 2 3 show ?thesis by blast
qed

section \<open>What a simulation step preserves\<close>

lemma keeps_refl: "run_inv s \<Longrightarrow> keeps env s s"
  by (simp add: keeps_def)

lemma keeps_trans: "keeps env s u \<Longrightarrow> keeps env u v \<Longrightarrow> keeps env s v"
  by (auto simp: keeps_def)

lemma list_all_update: "list_all P xs \<Longrightarrow> P v \<Longrightarrow> list_all P (xs[i := v])"
  by (induction xs arbitrary: i) (auto split: nat.splits)

lemma list_all_splice: "list_all P xs \<Longrightarrow> list_all P (splice1 i xs)"
proof -
  assume a: "list_all P xs"
  have "set (take i xs) \<subseteq> set xs" "set (drop (Suc i) xs) \<subseteq> set xs"
    by (rule set_take_subset, rule set_drop_subset)
  with a show ?thesis
    unfolding splice1_def list_all_iff by auto
qed

lemma list_all_nth: "list_all P xs \<Longrightarrow> i < length xs \<Longrightarrow> P (xs ! i)"
  by (simp add: list_all_length)

lemma ammo_ok_update [simp]:
  shows
    "ammo_ok (s\<lparr>gameStarted := v0\<rparr>) = ammo_ok s"
    "ammo_ok (s\<lparr>gameOver := v1\<rparr>) = ammo_ok s"
    "ammo_ok (s\<lparr>score := v2\<rparr>) = ammo_ok s"
    "ammo_ok (s\<lparr>coins := v3\<rparr>) = ammo_ok s"
    "ammo_ok (s\<lparr>level := v4\<rparr>) = ammo_ok s"
    "ammo_ok (s\<lparr>enemiesToSpawn := v5\<rparr>) = ammo_ok s"
    "ammo_ok (s\<lparr>player := v6\<rparr>) = ammo_ok s"
    "ammo_ok (s\<lparr>bullets := v7\<rparr>) = ammo_ok s"
    "ammo_ok (s\<lparr>enemies := v8\<rparr>) = ammo_ok s"
    "ammo_ok (s\<lparr>particles := v9\<rparr>) = ammo_ok s"
    "ammo_ok (s\<lparr>pickups := v10\<rparr>) = ammo_ok s"
    "ammo_ok (s\<lparr>currentWeaponKey := v11\<rparr>) = ammo_ok s"
    "ammo_ok (s\<lparr>lastShotAt := v12\<rparr>) = ammo_ok s"
    "ammo_ok (s\<lparr>reloading := v13\<rparr>) = ammo_ok s"
    "ammo_ok (s\<lparr>keys := v14\<rparr>) = ammo_ok s"
    "ammo_ok (s\<lparr>mouse := v15\<rparr>) = ammo_ok s"
    "ammo_ok (s\<lparr>mouseDown := v16\<rparr>) = ammo_ok s"
    "ammo_ok (s\<lparr>lastT := v17\<rparr>) = ammo_ok s"
    "ammo_ok (s\<lparr>pickupSpawnTimer := v18\<rparr>) = ammo_ok s"
    "ammo_ok (s\<lparr>timers := v19\<rparr>) = ammo_ok s"
    "ammo_ok (s\<lparr>sfx := v20\<rparr>) = ammo_ok s"
    "ammo_ok (s\<lparr>nrnd := v21\<rparr>) = ammo_ok s"
    "ammo_ok (s\<lparr>nclk := v22\<rparr>) = ammo_ok s"
  by (simp_all add: ammo_ok_def)

lemma no_bomber_update [simp]:
  shows
    "no_bomber (s\<lparr>gameStarted := v0\<rparr>) = no_bomber s"
    "no_bomber (s\<lparr>gameOver := v1\<rparr>) = no_bomber s"
    "no_bomber (s\<lparr>score := v2\<rparr>) = no_bomber s"
    "no_bomber (s\<lparr>coins := v3\<rparr>) = no_bomber s"
    "no_bomber (s\<lparr>level := v4\<rparr>) = no_bomber s"
    "no_bomber (s\<lparr>enemiesToSpawn := v5\<rparr>) = no_bomber s"
    "no_bomber (s\<lparr>player := v6\<rparr>) = no_bomber s"
    "no_bomber (s\<lparr>bullets := v7\<rparr>) = no_bomber s"
    "no_bomber (s\<lparr>particles := v8\<rparr>) = no_bomber s"
    "no_bomber (s\<lparr>pickups := v9\<rparr>) = no_bomber s"
    "no_bomber (s\<lparr>weapons := v10\<rparr>) = no_bomber s"
    "no_bomber (s\<lparr>currentWeaponKey := v11\<rparr>) = no_bomber s"
    "no_bomber (s\<lparr>lastShotAt := v12\<rparr>) = no_bomber s"
    "no_bomber (s\<lparr>reloading := v13\<rparr>) = no_bomber s"
    "no_bomber (s\<lparr>keys := v14\<rparr>) = no_bomber s"
    "no_bomber (s\<lparr>mouse := v15\<rparr>) = no_bomber s"
    "no_bomber (s\<lparr>mouseDown := v16\<rparr>) = no_bomber s"
    "no_bomber (s\<lparr>lastT := v17\<rparr>) = no_bomber s"
    "no_bomber (s\<lparr>pickupSpawnTimer := v18\<rparr>) = no_bomber s"
    "no_bomber (s\<lparr>timers := v19\<rparr>) = no_bomber s"
    "no_bomber (s\<lparr>sfx := v20\<rparr>) = no_bomber s"
    "no_bomber (s\<lparr>nrnd := v21\<rparr>) = no_bomber s"
    "no_bomber (s\<lparr>nclk := v22\<rparr>) = no_bomber s"
  by (simp_all add: no_bomber_def)

lemma pickups_ok_update [simp]:
  shows
    "pickups_ok (s\<lparr>gameStarted := v0\<rparr>) = pickups_ok s"
    "pickups_ok (s\<lparr>gameOver := v1\<rparr>) = pickups_ok s"
    "pickups_ok (s\<lparr>score := v2\<rparr>) = pickups_ok s"
    "pickups_ok (s\<lparr>coins := v3\<rparr>) = pickups_ok s"
    "pickups_ok (s\<lparr>level := v4\<rparr>) = pickups_ok s"
    "pickups_ok (s\<lparr>enemiesToSpawn := v5\<rparr>) = pickups_ok s"
    "pickups_ok (s\<lparr>player := v6\<rparr>) = pickups_ok s"
    "pickups_ok (s\<lparr>bullets := v7\<rparr>) = pickups_ok s"
    "pickups_ok (s\<lparr>enemies := v8\<rparr>) = pickups_ok s"
    "pickups_ok (s\<lparr>particles := v9\<rparr>) = pickups_ok s"
    "pickups_ok (s\<lparr>weapons := v10\<rparr>) = pickups_ok s"
    "pickups_ok (s\<lparr>currentWeaponKey := v11\<rparr>) = pickups_ok s"
    "pickups_ok (s\<lparr>lastShotAt := v12\<rparr>) = pickups_ok s"
    "pickups_ok (s\<lparr>reloading := v13\<rparr>) = pickups_ok s"
    "pickups_ok (s\<lparr>keys := v14\<rparr>) = pickups_ok s"
    "pickups_ok (s\<lparr>mouse := v15\<rparr>) = pickups_ok s"
    "pickups_ok (s\<lparr>mouseDown := v16\<rparr>) = pickups_ok s"
    "pickups_ok (s\<lparr>lastT := v17\<rparr>) = pickups_ok s"
    "pickups_ok (s\<lparr>pickupSpawnTimer := v18\<rparr>) = pickups_ok s"
    "pickups_ok (s\<lparr>timers := v19\<rparr>) = pickups_ok s"
    "pickups_ok (s\<lparr>sfx := v20\<rparr>) = pickups_ok s"
    "pickups_ok (s\<lparr>nrnd := v21\<rparr>) = pickups_ok s"
    "pickups_ok (s\<lparr>nclk := v22\<rparr>) = pickups_ok s"
  by (simp_all add: pickups_ok_def)

lemma no_bomber_enemies [simp]:
  "no_bomber (s\<lparr>enemies := es\<rparr>) = list_all (\<lambda>e. e_type e \<noteq> Bomber) es"
  by (simp add: no_bomber_def)

lemma pickups_ok_pickups [simp]:
  "pickups_ok (s\<lparr>pickups := ps\<rparr>) = list_all (\<lambda>pk. 0 \<le> pk_val pk) ps"
  by (simp add: pickups_ok_def)

lemma random_val_nonneg:
  "random_ok env \<Longrightarrow> 0 \<le> a \<Longrightarrow> 0 \<le> c \<Longrightarrow> 0 \<le> a + \<lfloor>rnd env n * c\<rfloor>"
  by (simp add: random_ok_def)


lemma length_splice_ge: "i < length xs \<Longrightarrow> i \<le> length (splice1 i xs)"
  by (simp add: length_splice)

lemma explode_step_keeps:
  assumes "run_inv u" "i < length (enemies u)"
  shows "\<exists>u'. explode_step env x y radius i u = Inr u' \<and> keeps env u u' \<and> i \<le> length (enemies u')"
proof -
  have nb: "e_type (enemies u ! i) \<noteq> Bomber" and all: "list_all (\<lambda>e. e_type e \<noteq> Bomber) (enemies u)"
    using assms list_all_nth[of "\<lambda>e. e_type e \<noteq> Bomber" "enemies u" i]
    by (auto simp: run_inv_def no_bomber_def)
  have po: "pickups_ok u \<Longrightarrow> list_all (\<lambda>pk. 0 \<le> pk_val pk) (pickups u)"
    by (simp add: pickups_ok_def)
  show ?thesis
    using assms nb all po
    by (simp add: explode_step_def Let_def prim_defs keeps_def run_inv_def
        length_splice_ge random_val_nonneg list_all_update list_all_splice)
qed

lemma downfrom_keeps:
  assumes "run_inv s" "n \<le> len s"
    and "\<And>i u. run_inv u \<Longrightarrow> i < len u \<Longrightarrow> \<exists>u'. body i u = Inr u' \<and> keeps env u u' \<and> i \<le> len u'"
  shows "\<exists>t. downfrom body n s = Inr t \<and> keeps env s t"
proof -
  have "\<exists>t. downfrom body n s = Inr t \<and> (keeps env s t \<and> 0 \<le> len t)"
  proof (rule downfrom_rule[where I = "\<lambda>i u. keeps env s u \<and> i \<le> len u"])
    show "keeps env s s \<and> n \<le> len s" using assms(1,2) by (simp add: keeps_refl)
  next
    fix i t assume "i < n" and I: "keeps env s t \<and> Suc i \<le> len t"
    then have "run_inv t" "i < len t" by (simp_all add: keeps_def)
    from assms(3)[OF this] obtain u' where "body i t = Inr u'" "keeps env t u'" "i \<le> len u'"
      by blast
    with I show "\<exists>t'. body i t = Inr t' \<and> keeps env s t' \<and> i \<le> len t'"
      using keeps_trans by blast
  qed
  then show ?thesis by blast
qed

lemma explode_fields:
  assumes "explode env x y scale s = Inr t"
  shows
    "gameStarted t = gameStarted s"
    "gameOver t = gameOver s"
    "score t = score s"
    "coins t = coins s"
    "level t = level s"
    "enemiesToSpawn t = enemiesToSpawn s"
    "player t = player s"
    "bullets t = bullets s"
    "weapons t = weapons s"
    "currentWeaponKey t = currentWeaponKey s"
    "lastShotAt t = lastShotAt s"
    "reloading t = reloading s"
    "keys t = keys s"
    "mouse t = mouse s"
    "mouseDown t = mouseDown s"
    "lastT t = lastT s"
    "pickupSpawnTimer t = pickupSpawnTimer s"
    "timers t = timers s"
    "nclk t = nclk s"
proof -
  from explode_outside[of env x y scale s] assms
  have eq: "outside_explode t = outside_explode s" by auto
  show "gameStarted t = gameStarted s"
    using arg_cong[OF eq, of gameStarted] by (simp add: outside_explode_def)
  show "gameOver t = gameOver s"
    using arg_cong[OF eq, of gameOver] by (simp add: outside_explode_def)
  show "score t = score s"
    using arg_cong[OF eq, of score] by (simp add: outside_explode_def)
  show "coins t = coins s"
    using arg_cong[OF eq, of coins] by (simp add: outside_explode_def)
  show "level t = level s"
    using arg_cong[OF eq, of level] by (simp add: outside_explode_def)
  show "enemiesToSpawn t = enemiesToSpawn s"
    using arg_cong[OF eq, of enemiesToSpawn] by (simp add: outside_explode_def)
  show "player t = player s"
    using arg_cong[OF eq, of player] by (simp add: outside_explode_def)
  show "bullets t = bullets s"
    using arg_cong[OF eq, of bullets] by (simp add: outside_explode_def)
  show "weapons t = weapons s"
    using arg_cong[OF eq, of weapons] by (simp add: outside_explode_def)
  show "currentWeaponKey t = currentWeaponKey s"
    using arg_cong[OF eq, of currentWeaponKey] by (simp add: outside_explode_def)
  show "lastShotAt t = lastShotAt s"
    using arg_cong[OF eq, of lastShotAt] by (simp add: outside_explode_def)
  show "reloading t = reloading s"
    using arg_cong[OF eq, of reloading] by (simp add: outside_explode_def)
  show "keys t = keys s"
    using arg_cong[OF eq, of keys] by (simp add: outside_explode_def)
  show "mouse t = mouse s"
    using arg_cong[OF eq, of mouse] by (simp add: outside_explode_def)
  show "mouseDown t = mouseDown s"
    using arg_cong[OF eq, of mouseDown] by (simp add: outside_explode_def)
  show "lastT t = lastT s"
    using arg_cong[OF eq, of lastT] by (simp add: outside_explode_def)
  show "pickupSpawnTimer t = pickupSpawnTimer s"
    using arg_cong[OF eq, of pickupSpawnTimer] by (simp add: outside_explode_def)
  show "timers t = timers s"
    using arg_cong[OF eq, of timers] by (simp add: outside_explode_def)
  show "nclk t = nclk s"
    using arg_cong[OF eq, of nclk] by (simp add: outside_explode_def)
qed

lemma explode_keeps:
  assumes "run_inv s"
  shows "\<exists>t. explode env x y scale s = Inr t \<and> keeps env s t"
proof -
  let ?s1 = "forUpTo (explode_particle env x y) 40 s"
  have k1: "keeps env s ?s1"
    using assms by (simp add: keeps_def run_inv_def ammo_ok_def no_bomber_def pickups_ok_def del: forUpTo.simps)
  then have i1: "run_inv ?s1" by (simp add: keeps_def)
  have "\<exists>t. downfrom (explode_step env x y (60 * scale)) (length (enemies ?s1)) ?s1 = Inr t \<and> keeps env ?s1 t"
    by (rule downfrom_keeps[where len = "\<lambda>u. length (enemies u)", OF i1]) (simp_all add: explode_step_keeps)
  then obtain t where t: "downfrom (explode_step env x y (60 * scale)) (length (enemies ?s1)) ?s1 = Inr t" "keeps env ?s1 t"
    by blast
  have "keeps env t (playSfx ''explosion'' t)"
    using t(2) by (simp add: keeps_def playSfx_def run_inv_def)
  with k1 t(2) have "keeps env s (playSfx ''explosion'' t)"
    using keeps_trans by blast
  then show ?thesis
    using t(1) by (simp add: explode_def del: forUpTo.simps)
qed

lemma run_inv_update [simp]:
  shows
    "run_inv (u\<lparr>gameStarted := v0\<rparr>) = run_inv u"
    "run_inv (u\<lparr>gameOver := v1\<rparr>) = run_inv u"
    "run_inv (u\<lparr>score := v2\<rparr>) = run_inv u"
    "run_inv (u\<lparr>coins := v3\<rparr>) = run_inv u"
    "run_inv (u\<lparr>bullets := v4\<rparr>) = run_inv u"
    "run_inv (u\<lparr>particles := v5\<rparr>) = run_inv u"
    "run_inv (u\<lparr>pickups := v6\<rparr>) = run_inv u"
    "run_inv (u\<lparr>currentWeaponKey := v7\<rparr>) = run_inv u"
    "run_inv (u\<lparr>lastShotAt := v8\<rparr>) = run_inv u"
    "run_inv (u\<lparr>reloading := v9\<rparr>) = run_inv u"
    "run_inv (u\<lparr>keys := v10\<rparr>) = run_inv u"
    "run_inv (u\<lparr>mouse := v11\<rparr>) = run_inv u"
    "run_inv (u\<lparr>mouseDown := v12\<rparr>) = run_inv u"
    "run_inv (u\<lparr>lastT := v13\<rparr>) = run_inv u"
    "run_inv (u\<lparr>pickupSpawnTimer := v14\<rparr>) = run_inv u"
    "run_inv (u\<lparr>timers := v15\<rparr>) = run_inv u"
    "run_inv (u\<lparr>sfx := v16\<rparr>) = run_inv u"
    "run_inv (u\<lparr>nrnd := v17\<rparr>) = run_inv u"
    "run_inv (u\<lparr>nclk := v18\<rparr>) = run_inv u"
  by (simp_all add: run_inv_def)

lemma keeps_update [simp]:
  shows
    "keeps env s (u\<lparr>score := v0\<rparr>) = keeps env s u"
    "keeps env s (u\<lparr>bullets := v1\<rparr>) = keeps env s u"
    "keeps env s (u\<lparr>particles := v2\<rparr>) = keeps env s u"
    "keeps env s (u\<lparr>currentWeaponKey := v3\<rparr>) = keeps env s u"
    "keeps env s (u\<lparr>lastShotAt := v4\<rparr>) = keeps env s u"
    "keeps env s (u\<lparr>reloading := v5\<rparr>) = keeps env s u"
    "keeps env s (u\<lparr>keys := v6\<rparr>) = keeps env s u"
    "keeps env s (u\<lparr>mouse := v7\<rparr>) = keeps env s u"
    "keeps env s (u\<lparr>mouseDown := v8\<rparr>) = keeps env s u"
    "keeps env s (u\<lparr>lastT := v9\<rparr>) = keeps env s u"
    "keeps env s (u\<lparr>pickupSpawnTimer := v10\<rparr>) = keeps env s u"
    "keeps env s (u\<lparr>timers := v11\<rparr>) = keeps env s u"
    "keeps env s (u\<lparr>sfx := v12\<rparr>) = keeps env s u"
    "keeps env s (u\<lparr>nrnd := v13\<rparr>) = keeps env s u"
    "keeps env s (u\<lparr>nclk := v14\<rparr>) = keeps env s u"
  by (simp_all add: keeps_def)

lemma run_inv_spawnBlood [simp]: "run_inv (spawnBlood env x y n u) = run_inv u"
  by (simp add: run_inv_def no_bomber_def ammo_ok_def)

lemma keeps_spawnBlood [simp]: "keeps env s (spawnBlood env1 x y n u) = keeps env s u"
  by (simp add: keeps_def pickups_ok_def)

lemma keeps_player_hp:
  "keeps env s u \<Longrightarrow> 0 \<le> d \<Longrightarrow> keeps env s (u\<lparr>player := (player u)\<lparr>p_hp := p_hp (player u) - d\<rparr>\<rparr>)"
  by (simp add: keeps_def run_inv_def no_bomber_def ammo_ok_def pickups_ok_def)

lemma keeps_enemies:
  "keeps env s u \<Longrightarrow> list_all (\<lambda>e. e_type e \<noteq> Bomber) es \<Longrightarrow> keeps env s (u\<lparr>enemies := es\<rparr>)"
  by (simp add: keeps_def run_inv_def ammo_ok_def pickups_ok_def)

lemma keeps_spawnPickup:
  "keeps env s u \<Longrightarrow> (random_ok env \<Longrightarrow> 0 \<le> v) \<Longrightarrow> keeps env s (spawnPickup x y ty v u)"
  by (auto simp add: keeps_def run_inv_def ammo_ok_def no_bomber_def pickups_ok_def spawnPickup_def)

lemma bullet_step_keeps:
  assumes "run_inv u" "i < length (bullets u)"
  shows "\<exists>u'. bullet_step env dt i u = Inr u' \<and> keeps env u u' \<and> i \<le> length (bullets u')"
proof -
  define b where "b = (bullets u ! i)\<lparr>b_x := b_x (bullets u ! i) + b_vx (bullets u ! i) * dt,
     b_y := b_y (bullets u ! i) + b_vy (bullets u ! i) * dt\<rparr>"
  define s1 where "s1 = u\<lparr>bullets := (bullets u)[i := b]\<rparr>"
  have i1: "run_inv s1" and k1: "keeps env u s1" and l1: "i < length (bullets s1)"
    using assms by (simp_all add: s1_def keeps_refl)
  from explode_keeps[OF i1, of env "b_x b" "b_y b" "1.2"] obtain t where
    t: "explode env (b_x b) (b_y b) 1.2 s1 = Inr t" "keeps env s1 t" by blast
  have bt: "bullets t = bullets s1" by (rule explode_fields[OF t(1)])
  have kt: "keeps env u (t\<lparr>bullets := splice1 i (bullets t)\<rparr>)"
    using keeps_trans[OF k1 t(2)] by simp
  have lt: "i \<le> length (splice1 i (bullets t))"
    using l1 bt by (simp add: length_splice_ge)
  show ?thesis
    using assms(2) t(1) kt lt k1 l1
    by (simp add: bullet_step_def Let_def b_def[symmetric] s1_def[symmetric] length_splice_ge)
qed

lemma run_inv_no_bomber_nth:
  "run_inv u \<Longrightarrow> i < length (enemies u) \<Longrightarrow> e_type (enemies u ! i) \<noteq> Bomber"
  using list_all_nth[of "\<lambda>e. e_type e \<noteq> Bomber" "enemies u" i]
  by (simp add: run_inv_def no_bomber_def)

lemma keeps_enemies_update:
  "keeps env s u \<Longrightarrow> enemies u = es \<Longrightarrow> e_type e \<noteq> Bomber \<Longrightarrow>
   keeps env s (u\<lparr>enemies := es[i := e]\<rparr>)"
  by (auto simp add: keeps_def run_inv_def no_bomber_def ammo_ok_def pickups_ok_def list_all_update)

lemma keeps_enemies_splice:
  "keeps env s u \<Longrightarrow> enemies u = es \<Longrightarrow> keeps env s (u\<lparr>enemies := splice1 i es\<rparr>)"
  by (auto simp add: keeps_def run_inv_def no_bomber_def ammo_ok_def pickups_ok_def list_all_splice)

lemma keeps_pickups_append:
  "keeps env s u \<Longrightarrow> pickups u = ps \<Longrightarrow> (random_ok env \<Longrightarrow> 0 \<le> pk_val pk) \<Longrightarrow>
   keeps env s (u\<lparr>pickups := ps @ [pk]\<rparr>)"
  by (auto simp add: keeps_def run_inv_def no_bomber_def ammo_ok_def pickups_ok_def)

lemma spitterAttack_keeps:
  assumes "run_inv u" "i < length (enemies u)"
  shows "keeps env u (spitterAttack env i u) \<and>
         length (enemies (spitterAttack env i u)) = length (enemies u)"
proof -
  note nb = run_inv_no_bomber_nth[OF assms]
  have k: "keeps env u u" using assms(1) by (rule keeps_refl)
  show ?thesis
    using nb k by (simp add: spitterAttack_def Let_def nowMs_def keeps_enemies_update)
qed

lemma moveTowardPlayer_keeps:
  assumes "run_inv u" "i < length (enemies u)"
  shows "keeps env u (moveTowardPlayer dt i u) \<and>
         length (enemies (moveTowardPlayer dt i u)) = length (enemies u)"
proof -
  note nb = run_inv_no_bomber_nth[OF assms]
  have k: "keeps env u u" using assms(1) by (rule keeps_refl)
  show ?thesis
    using nb k by (simp add: moveTowardPlayer_def Let_def keeps_enemies_update)
qed

lemma playerContact_keeps:
  assumes "run_inv u" "i < length (enemies u)"
  shows "\<exists>u'. playerContact env i u = Inr u' \<and> keeps env u u' \<and> i \<le> length (enemies u')"
proof -
  note nb = run_inv_no_bomber_nth[OF assms]
  have k: "keeps env u u" using assms(1) by (rule keeps_refl)
  have r: "random_ok env \<Longrightarrow> 0 \<le> 1 + \<lfloor>rnd env n * 3\<rfloor>" for n
    by (rule random_val_nonneg) simp_all
  show ?thesis
  proof (cases "hypot (e_x (enemies u ! i) - p_x (player u)) (e_y (enemies u ! i) - p_y (player u))
      < e_r (enemies u ! i) + p_r (player u)")
    case False
    then show ?thesis using k assms(2) by (simp add: playerContact_def Let_def)
  next
    case True
    define d :: int where "d = (if e_type (enemies u ! i) = Tank then 12 else 6)"
    have d: "0 \<le> d" by (simp add: d_def)
    define s1 where "s1 = u\<lparr>player := (player u)\<lparr>p_hp := p_hp (player u) - d\<rparr>\<rparr>"
    have k1: "keeps env u s1" unfolding s1_def by (rule keeps_player_hp[OF k d])
    have e1: "enemies s1 = enemies u" by (simp add: s1_def)
    show ?thesis
      using True nb assms(2) k1 r e1
      by (simp add: playerContact_def Let_def prim_defs length_splice_ge d_def[symmetric] s1_def[symmetric]
          keeps_enemies_splice keeps_pickups_append)
  qed
qed

lemma enemy_step_keeps:
  assumes "run_inv u" "i < length (enemies u)"
  shows "\<exists>u'. enemy_step env dt i u = Inr u' \<and> keeps env u u' \<and> i \<le> length (enemies u')"
proof -
  let ?a = "spitterAttack env i u"
  let ?b = "moveTowardPlayer dt i ?a"
  from spitterAttack_keeps[OF assms, of env] have a: "keeps env u ?a" "i < length (enemies ?a)" "run_inv ?a"
    using assms(2) by (simp_all add: keeps_def)
  from moveTowardPlayer_keeps[OF a(3,2), of env dt] have b: "keeps env ?a ?b" "i < length (enemies ?b)" "run_inv ?b"
    using a(2) by (simp_all add: keeps_def)
  from playerContact_keeps[OF b(3,2), of env] obtain u' where
    "playerContact env i ?b = Inr u'" "keeps env ?b u'" "i \<le> length (enemies u')" by blast
  then show ?thesis
    using assms(2) keeps_trans[OF keeps_trans[OF a(1) b(1)]] by (simp add: enemy_step_def)
qed


lemma keeps_coins:
  "keeps env s u \<Longrightarrow> coins u = c \<Longrightarrow> (random_ok env \<Longrightarrow> 0 \<le> d) \<Longrightarrow>
   keeps env s (u\<lparr>coins := c + d\<rparr>)"
  by (auto simp add: keeps_def run_inv_def no_bomber_def ammo_ok_def pickups_ok_def)

lemma enemyDied_keeps:
  assumes "run_inv u" "i < length (enemies u)"
  shows "\<exists>t. enemyDied env i u = Inr t \<and> keeps env u t \<and> i \<le> length (enemies t)"
proof -
  note nb = run_inv_no_bomber_nth[OF assms]
  have k: "keeps env u u" using assms(1) by (rule keeps_refl)
  have r: "random_ok env \<Longrightarrow> 0 \<le> 3 + \<lfloor>rnd env n * 3\<rfloor>" for n
    by (rule random_val_nonneg) simp_all
  show ?thesis
    using nb assms(2) k r
    by (simp add: enemyDied_def Let_def prim_defs length_splice_ge
        keeps_enemies_splice keeps_pickups_append keeps_coins)
qed

lemma bullet_hits_keeps:
  assumes "run_inv u" "i < length (enemies u)"
  shows "\<exists>t. bullet_hits env i j u = Inr t \<and> keeps env u t \<and> i \<le> length (enemies t)"
proof -
  note nb = run_inv_no_bomber_nth[OF assms]
  have k: "keeps env u u" using assms(1) by (rule keeps_refl)
  define e1 where "e1 = (enemies u ! i)\<lparr>e_hp := e_hp (enemies u ! i) - b_dmg (bullets u ! j)\<rparr>"
  define s3 where "s3 = (spawnBlood env (b_x (bullets u ! j)) (b_y (bullets u ! j)) 4
      (u\<lparr>enemies := (enemies u)[i := e1]\<rparr>))
      \<lparr>bullets := splice1 j (bullets (spawnBlood env (b_x (bullets u ! j)) (b_y (bullets u ! j)) 4
      (u\<lparr>enemies := (enemies u)[i := e1]\<rparr>)))\<rparr>"
  have k3: "keeps env u s3"
    using k nb by (simp add: s3_def e1_def keeps_enemies_update)
  then have i3: "run_inv s3" by (simp add: keeps_def)
  have l3: "i < length (enemies s3)" using assms(2) by (simp add: s3_def)
  from enemyDied_keeps[OF i3 l3, of env] obtain t where
    t: "enemyDied env i s3 = Inr t" "keeps env s3 t" "i \<le> length (enemies t)" by blast
  have bh: "bullet_hits env i j u = (if e_hp e1 \<le> 0 then enemyDied env i s3 else Inr s3)"
    by (simp add: bullet_hits_def Let_def e1_def s3_def)
  show ?thesis
    using t k3 l3 keeps_trans[OF k3 t(2)] by (simp add: bh)
qed

lemma hit_scan_keeps:
  assumes "run_inv u" "i < length (enemies u)" "j \<le> length (bullets u)"
  shows "\<exists>t. hit_scan env i j u = Inr t \<and> keeps env u t \<and> i \<le> length (enemies t)"
  using assms
proof (induction j)
  case 0
  then show ?case by (simp add: keeps_refl)
next
  case (Suc j)
  then show ?case
    using bullet_hits_keeps[OF Suc.prems(1,2), of env j]
    by (simp add: Let_def)
qed

lemma hit_step_keeps:
  assumes "run_inv u" "i < length (enemies u)"
  shows "\<exists>t. hit_step env i u = Inr t \<and> keeps env u t \<and> i \<le> length (enemies t)"
  using hit_scan_keeps[OF assms, of "length (bullets u)" env] by (simp add: hit_step_def)

lemma playerHit_step_keeps:
  assumes "run_inv u" "i < length (bullets u)"
  shows "\<exists>t. playerHit_step env i u = Inr t \<and> keeps env u t \<and> i \<le> length (bullets t)"
proof -
  have k: "keeps env u u" using assms(1) by (rule keeps_refl)
  have k1: "keeps env u (u\<lparr>player := (player u)\<lparr>p_hp := p_hp (player u) - 8\<rparr>\<rparr>)"
    by (rule keeps_player_hp[OF k]) simp
  show ?thesis
    using assms(2) k k1 by (simp add: playerHit_step_def Let_def length_splice_ge)
qed

lemma particle_step_keeps:
  assumes "run_inv u" "i < length (particles u)"
  shows "\<exists>t. particle_step dt i u = Inr t \<and> keeps env u t \<and> i \<le> length (particles t)"
proof -
  have k: "keeps env u u" using assms(1) by (rule keeps_refl)
  show ?thesis
    using assms(2) k by (simp add: particle_step_def Let_def length_splice_ge)
qed


lemma list_all_update_nth:
  "list_all P xs \<Longrightarrow> i < length xs \<Longrightarrow> (P (xs ! i) \<Longrightarrow> P v) \<Longrightarrow> list_all P (xs[i := v])"
  using list_all_update[of P xs v i] list_all_nth[of P xs i] by blast

lemma keeps_pickups_update:
  assumes "keeps env s u" "pickups u = ps" "i < length ps" "pk_val pk = pk_val (ps ! i)"
  shows "keeps env s (u\<lparr>pickups := ps[i := pk]\<rparr>)"
proof -
  have "list_all (\<lambda>pk. 0 \<le> pk_val pk) (ps[i := pk])" if "list_all (\<lambda>pk. 0 \<le> pk_val pk) ps"
    using that assms(3,4) by (intro list_all_update_nth) simp_all
  then show ?thesis
    using assms(1,2) by (auto simp add: keeps_def run_inv_def pickups_ok_def)
qed

lemma keeps_pickups_splice:
  "keeps env s u \<Longrightarrow> pickups u = ps \<Longrightarrow> keeps env s (u\<lparr>pickups := splice1 i ps\<rparr>)"
  by (auto simp add: keeps_def run_inv_def no_bomber_def ammo_ok_def pickups_ok_def list_all_splice)

lemma keeps_collect_coin:
  "keeps env s u \<Longrightarrow> pickups s = pickups u \<Longrightarrow> coins s = coins u \<Longrightarrow> i < length (pickups u) \<Longrightarrow>
   keeps env s (u\<lparr>coins := coins u + pk_val (pickups u ! i)\<rparr>)"
  by (auto simp add: keeps_def run_inv_def no_bomber_def ammo_ok_def pickups_ok_def
      dest: list_all_nth[where i = i])

lemma keeps_ammo:
  "keeps env s u \<Longrightarrow> weapons u = ws \<Longrightarrow> 0 \<le> w_ammo w \<Longrightarrow> w_ammo w \<le> w_maxAmmo w \<Longrightarrow>
   keeps env s (u\<lparr>weapons := ws(k := w)\<rparr>)"
  by (auto simp add: keeps_def run_inv_def no_bomber_def ammo_ok_def pickups_ok_def)

lemma ammo_ok_nth:
  "run_inv u \<Longrightarrow> 0 \<le> w_ammo (weapons u k) \<and> w_ammo (weapons u k) \<le> w_maxAmmo (weapons u k)"
  unfolding run_inv_def ammo_ok_def by blast

lemma pickup_step_keeps:
  assumes "run_inv u" "i < length (pickups u)"
  shows "\<exists>t. pickup_step dt i u = Inr t \<and> keeps env u t \<and> i \<le> length (pickups t)"
proof -
  have k: "keeps env u u" using assms(1) by (rule keeps_refl)
  define k0 where "k0 = currentWeaponKey u"
  note a = ammo_ok_nth[OF assms(1), of k0]
  have kc: "keeps env u (u\<lparr>coins := coins u + pk_val (pickups u ! i)\<rparr>)"
    by (rule keeps_collect_coin[OF k refl refl assms(2)])
  show ?thesis
    using assms(2) k kc a
    by (simp add: pickup_step_def Let_def length_splice_ge k0_def[symmetric]
        keeps_pickups_update keeps_pickups_splice keeps_ammo)
qed

lemma updateBullets_keeps:
  "run_inv s \<Longrightarrow> \<exists>t. updateBullets env dt s = Inr t \<and> keeps env s t"
  unfolding updateBullets_def
  by (rule downfrom_keeps[where len = "\<lambda>u. length (bullets u)"]) (simp_all add: bullet_step_keeps)

lemma updateEnemies_keeps:
  "run_inv s \<Longrightarrow> \<exists>t. updateEnemies env dt s = Inr t \<and> keeps env s t"
  unfolding updateEnemies_def
  by (rule downfrom_keeps[where len = "\<lambda>u. length (enemies u)"]) (simp_all add: enemy_step_keeps)

lemma bulletsHitEnemies_keeps:
  "run_inv s \<Longrightarrow> \<exists>t. bulletsHitEnemies env s = Inr t \<and> keeps env s t"
  unfolding bulletsHitEnemies_def
  by (rule downfrom_keeps[where len = "\<lambda>u. length (enemies u)"]) (simp_all add: hit_step_keeps)

lemma bulletsHitPlayer_keeps:
  "run_inv s \<Longrightarrow> \<exists>t. bulletsHitPlayer env s = Inr t \<and> keeps env s t"
  unfolding bulletsHitPlayer_def
  by (rule downfrom_keeps[where len = "\<lambda>u. length (bullets u)"]) (simp_all add: playerHit_step_keeps)

lemma updateParticles_keeps:
  "run_inv s \<Longrightarrow> \<exists>t. updateParticles dt s = Inr t \<and> keeps env s t"
  unfolding updateParticles_def
  by (rule downfrom_keeps[where len = "\<lambda>u. length (particles u)"]) (simp_all add: particle_step_keeps)

lemma updatePickups_keeps:
  "run_inv s \<Longrightarrow> \<exists>t. updatePickups dt s = Inr t \<and> keeps env s t"
  unfolding updatePickups_def
  by (rule downfrom_keeps[where len = "\<lambda>u. length (pickups u)"]) (simp_all add: pickup_step_keeps)

lemma avoidWall_health: "p_hp (avoidWall w p) = p_hp p \<and> p_maxHp (avoidWall w p) = p_maxHp p"
  by (simp add: avoidWall_def Let_def)

lemma fold_avoidWall_health:
  "p_hp (fold avoidWall ws p) = p_hp p \<and> p_maxHp (fold avoidWall ws p) = p_maxHp p"
  by (induction ws arbitrary: p) (simp_all add: avoidWall_health)

lemma keeps_player:
  "keeps env s u \<Longrightarrow> p_hp p = p_hp (player u) \<Longrightarrow> p_maxHp p = p_maxHp (player u) \<Longrightarrow>
   keeps env s (u\<lparr>player := p\<rparr>)"
  by (auto simp add: keeps_def run_inv_def no_bomber_def ammo_ok_def pickups_ok_def)

lemma movePlayer_keeps: "run_inv s \<Longrightarrow> keeps env s (avoidWalls (movePlayer env dt s))"
  by (simp add: avoidWalls_def movePlayer_def Let_def keeps_player keeps_refl fold_avoidWall_health)


lemma keeps_cong:
  assumes "level u' = level u" "enemiesToSpawn u' = enemiesToSpawn u" "enemies u' = enemies u"
    "player u' = player u" "weapons u' = weapons u" "gameStarted u' = gameStarted u"
    "gameOver u' = gameOver u" "pickups u' = pickups u" "coins u' = coins u"
  shows "keeps env s u' = keeps env s u"
  using assms by (simp add: keeps_def run_inv_def no_bomber_def ammo_ok_def pickups_ok_def)

lemma keeps_spawnMuzzle [simp]: "keeps env s (spawnMuzzle env1 x y a u) = keeps env s u"
  by (rule keeps_cong) simp_all

lemma keeps_pellets [simp]: "keeps env s (forUpTo (pellet env1 a sp d) n u) = keeps env s u"
  by (rule keeps_cong) simp_all

lemma keeps_autoReload [simp]: "keeps env s (autoReload u) = keeps env s u"
  by (simp add: autoReload_def setTimeout_reload_def)

lemma weapons_autoReload [simp]: "weapons (autoReload u) = weapons u"
  by (simp add: autoReload_def setTimeout_reload_def)

lemma shootAtMouse_keeps:
  assumes "run_inv u"
  shows "keeps env u (shootAtMouse env u)"
proof -
  have k: "keeps env u u" using assms by (rule keeps_refl)
  define k0 where "k0 = currentWeaponKey u"
  note a = ammo_ok_nth[OF assms, of k0]
  show ?thesis
    using k a
    by (simp add: shootAtMouse_def Let_def k0_def[symmetric] nowMs_def playSfx_def
        keeps_ammo split: wtype.split)
qed


lemma spawnPeriodicPickups_keeps:
  assumes "run_inv u"
  shows "keeps env u (spawnPeriodicPickups env dt u)"
proof -
  have k: "keeps env u u" using assms by (rule keeps_refl)
  have r: "random_ok env \<Longrightarrow> 0 \<le> 1 + \<lfloor>rnd env n * 3\<rfloor>" for n
    by (rule random_val_nonneg) simp_all
  show ?thesis
    using k r by (simp add: spawnPeriodicPickups_def Let_def prim_defs keeps_pickups_append)
qed

lemma spawnWave_no_bomber: "no_bomber (spawnWave env s)"
proof -
  have "list_all (\<lambda>e. e_type e \<noteq> Bomber) (enemies (forUpTo (spawnWave_step env) n (s\<lparr>enemies := []\<rparr>)))" for n
  proof (induction n)
    case 0
    then show ?case by simp
  next
    case (Suc n)
    from spawnWave_step_enemies[of env n "forUpTo (spawnWave_step env) n (s\<lparr>enemies := []\<rparr>)"]
    show ?case using Suc by auto
  qed
  then show ?thesis by (simp add: spawnWave_def Let_def no_bomber_def)
qed

lemma keeps_spawnWave:
  assumes "keeps env s u"
  shows "keeps env s (spawnWave env1 u)"
  using assms spawnWave_no_bomber[of env1 u]
  by (simp add: keeps_def run_inv_def ammo_ok_def pickups_ok_def)

lemma keeps_level_up:
  "keeps env s u \<Longrightarrow> keeps env s (u\<lparr>level := level u + 1\<rparr>)"
  "keeps env s u \<Longrightarrow> keeps env s (u\<lparr>enemiesToSpawn := enemiesToSpawn u + 2\<rparr>)"
  by (simp_all add: keeps_def run_inv_def no_bomber_def ammo_ok_def pickups_ok_def)

lemma levelProgression_keeps:
  assumes "run_inv u"
  shows "keeps env u (levelProgression env u)"
proof -
  have k: "keeps env u u" using assms by (rule keeps_refl)
  define k0 where "k0 = currentWeaponKey u"
  note a = ammo_ok_nth[OF assms, of k0]
  then have m: "0 \<le> \<lfloor>real_of_int (w_maxAmmo (weapons u k0)) * 0.2\<rfloor>" by simp
  let ?s3 = "spawnWave env (u\<lparr>level := level u + 1, enemiesToSpawn := enemiesToSpawn u + 2\<rparr>)"
  have k3: "keeps env u ?s3"
    using keeps_spawnWave[OF keeps_level_up(2)[OF keeps_level_up(1)[OF k]], of env] by simp
  have k4: "keeps env u (?s3\<lparr>coins := coins ?s3 + 5\<rparr>)"
    by (rule keeps_coins[OF k3 refl]) simp
  show ?thesis
    using k k4 a m
    by (simp add: levelProgression_def Let_def k0_def[symmetric] keeps_ammo)
qed

lemma gameOverCheck_run_inv [simp]: "run_inv (gameOverCheck u) = run_inv u"
  by (simp add: gameOverCheck_def playSfx_def run_inv_def no_bomber_def ammo_ok_def)

lemma update_not_started: "\<not> gameStarted s \<Longrightarrow> update env ts s = Inr (s\<lparr>lastT := ts\<rparr>)"
  by (simp add: update_def Let_def)

lemma update_keeps:
  assumes "run_inv s" "gameStarted s"
  shows "\<exists>x. update env ts s = Inr (gameOverCheck x) \<and> keeps env s x"
proof -
  let ?dt = "min 0.05 ((ts - lastT (if lastT s = 0 then s\<lparr>lastT := ts\<rparr> else s)) / 1000)"
  let ?s1 = "(if lastT s = 0 then s\<lparr>lastT := ts\<rparr> else s)\<lparr>lastT := ts\<rparr>"
  have k1: "keeps env s ?s1" using assms(1) by (simp add: keeps_refl)
  then have i1: "run_inv ?s1" by (simp add: keeps_def)
  let ?s2 = "avoidWalls (movePlayer env ?dt ?s1)"
  have k2: "keeps env s ?s2" by (rule keeps_trans[OF k1 movePlayer_keeps[OF i1]])
  then have i2: "run_inv ?s2" by (simp only: keeps_def)
  let ?s3 = "(if mouseDown ?s2 then shootAtMouse env ?s2 else ?s2)"
  have k3: "keeps env s ?s3"
    using k2 keeps_trans[OF k2 shootAtMouse_keeps[OF i2]] by (simp only: if_split) blast
  then have i3: "run_inv ?s3" by (simp only: keeps_def)
  from updateBullets_keeps[OF i3, of env ?dt] obtain s4 where
    s4: "updateBullets env ?dt ?s3 = Inr s4" "keeps env ?s3 s4" by blast
  then have i4: "run_inv s4" by (simp add: keeps_def)
  from updateEnemies_keeps[OF i4, of env ?dt] obtain s5 where
    s5: "updateEnemies env ?dt s4 = Inr s5" "keeps env s4 s5" by blast
  then have i5: "run_inv s5" by (simp add: keeps_def)
  from bulletsHitEnemies_keeps[OF i5, of env] obtain s6 where
    s6: "bulletsHitEnemies env s5 = Inr s6" "keeps env s5 s6" by blast
  then have i6: "run_inv s6" by (simp add: keeps_def)
  from bulletsHitPlayer_keeps[OF i6, of env] obtain s7 where
    s7: "bulletsHitPlayer env s6 = Inr s7" "keeps env s6 s7" by blast
  then have i7: "run_inv s7" by (simp add: keeps_def)
  from updateParticles_keeps[OF i7, of ?dt env] obtain s8 where
    s8: "updateParticles ?dt s7 = Inr s8" "keeps env s7 s8" by blast
  then have i8: "run_inv s8" by (simp add: keeps_def)
  from updatePickups_keeps[OF i8, of ?dt env] obtain s9 where
    s9: "updatePickups ?dt s8 = Inr s9" "keeps env s8 s9" by blast
  then have i9: "run_inv s9" by (simp add: keeps_def)
  let ?s10 = "spawnPeriodicPickups env ?dt s9"
  have k10: "keeps env s9 ?s10" by (rule spawnPeriodicPickups_keeps[OF i9])
  then have i10: "run_inv ?s10" by (simp only: keeps_def)
  let ?s11 = "levelProgression env ?s10"
  have k11: "keeps env ?s10 ?s11" by (rule levelProgression_keeps[OF i10])
  note k = keeps_trans[OF keeps_trans[OF keeps_trans[OF keeps_trans[OF keeps_trans[OF
      keeps_trans[OF keeps_trans[OF keeps_trans[OF k3 s4(2)] s5(2)] s6(2)] s7(2)] s8(2)] s9(2)]
      k10] k11]
  have gs: "gameStarted ?s1" using assms(2) by simp
  have "update env ts s = Inr (gameOverCheck ?s11)"
    unfolding update_def Let_def using gs
    by (simp only: if_not_P not_not s4(1) s5(1) s6(1) s7(1) s8(1) s9(1) andThen_Inr)
  with k show ?thesis by blast
qed


lemma ammo_ok_weapons [simp]:
  "ammo_ok (s\<lparr>weapons := ws\<rparr>) = (\<forall>k. 0 \<le> w_ammo (ws k) \<and> w_ammo (ws k) \<le> w_maxAmmo (ws k))"
  by (simp add: ammo_ok_def)

lemma ammo_ok_cong: "weapons u' = weapons u \<Longrightarrow> ammo_ok u' = ammo_ok u"
  by (simp add: ammo_ok_def)

lemma pickups_ok_cong: "pickups u' = pickups u \<Longrightarrow> pickups_ok u' = pickups_ok u"
  by (simp add: pickups_ok_def)

lemma run_inv_spawnWave:
  "run_inv (spawnWave env u) =
     (1 \<le> level u \<and> 6 \<le> enemiesToSpawn u \<and> p_hp (player u) \<le> p_maxHp (player u) \<and> ammo_ok u)"
  using spawnWave_no_bomber[of env u] ammo_ok_cong[of "spawnWave env u" u]
  by (simp add: run_inv_def)

lemma ammo_ok_owned:
  "ammo_ok u \<Longrightarrow> ammo_ok (u\<lparr>weapons := (weapons u)(k := (weapons u k)\<lparr>w_owned := True\<rparr>)\<rparr>)"
  by (simp add: ammo_ok_def)

lemma startGame_run_inv: "ammo_ok s \<Longrightarrow> run_inv (startGame env s)"
  using ammo_ok_owned[of s Pistol]
  by (simp add: startGame_def Let_def createPlayer_def run_inv_spawnWave ammo_ok_def)

lemma restartGame_run_inv: "ammo_ok s \<Longrightarrow> run_inv (restartGame env s)"
  by (simp add: restartGame_def Let_def run_inv_spawnWave)

lemma startReload_run_inv [simp]: "run_inv (startReload s) = run_inv s"
  by (simp add: startReload_def Let_def setTimeout_reload_def playSfx_def)

lemma run_inv_ammo_ok: "run_inv s \<Longrightarrow> ammo_ok s"
  by (simp add: run_inv_def)

lemma keydown_run_inv:
  assumes "run_inv s"
  shows "run_inv (keydown env key s)"
proof -
  define s7 where "s7 = (let s1 = s\<lparr>keys := (keys s)(toLowerCase key := True)\<rparr>;
          s2 = (if key = ''1'' then s1\<lparr>currentWeaponKey := Pistol\<rparr> else s1);
          s3 = (if key = ''2'' then s2\<lparr>currentWeaponKey := Smg\<rparr> else s2);
          s4 = (if key = ''3'' then s3\<lparr>currentWeaponKey := Machine\<rparr> else s3);
          s5 = (if key = ''4'' then s4\<lparr>currentWeaponKey := Shotgun\<rparr> else s4);
          s6 = (if key = ''5'' then s5\<lparr>currentWeaponKey := Sniper\<rparr> else s5)
      in (if key = ''6'' then s6\<lparr>currentWeaponKey := Rocket\<rparr> else s6))"
  define s8 where "s8 = (if key = ''r'' then startReload s7 else s7)"
  have "run_inv s7" using assms by (simp add: s7_def Let_def)
  then have i8: "run_inv s8" by (simp add: s8_def)
  have kd: "keydown env key s =
      (if key = ''Enter'' then
        (if \<not> gameStarted s8 then startGame env s8
         else if gameOver s8 then restartGame env s8
         else s8)
      else s8)"
    by (simp add: keydown_def s8_def s7_def Let_def)
  show ?thesis
    unfolding kd using i8 startGame_run_inv[OF run_inv_ammo_ok[OF i8], of env]
      restartGame_run_inv[OF run_inv_ammo_ok[OF i8], of env]
    by simp
qed

lemma reload_done_run_inv: "run_inv s \<Longrightarrow> run_inv (reload_done k s)"
  using ammo_ok_nth[of s]
  by (simp add: reload_done_def run_inv_def order_trans[of 0 "w_ammo (weapons s k)"])

lemma shopClick_run_inv: "run_inv s \<Longrightarrow> run_inv (snd (shopClick it s))"
  using ammo_ok_nth[of s]
  by (simp add: shopClick_def Let_def run_inv_def)

lemma init_run_inv: "run_inv (init env)"
  by (simp add: init_def Let_def createPlayer_def run_inv_spawnWave state0_def weapons0_def
      ammo_ok_def split: wkey.split)

lemma handle_run_inv:
  assumes "run_inv s"
  shows "\<exists>t. handle env ev s = Inr t \<and> run_inv t"
proof (cases ev)
  case (Frame ts)
  show ?thesis
  proof (cases "gameStarted s")
    case True
    from update_keeps[OF assms True, of env ts] show ?thesis
      using Frame by (auto simp: handle_def keeps_def)
  next
    case False
    then show ?thesis using Frame assms by (simp add: handle_def update_not_started)
  qed
next
  case (KeyDown key)
  then show ?thesis using assms by (simp add: handle_def keydown_run_inv)
next
  case MouseDown
  have "run_inv (s\<lparr>mouseDown := True\<rparr>)" using assms by simp
  from shootAtMouse_keeps[OF this, of env] show ?thesis
    using MouseDown by (simp add: handle_def keeps_def)
next
  case FireTouchStart
  from shootAtMouse_keeps[OF assms, of env] show ?thesis
    using FireTouchStart by (simp add: handle_def keeps_def)
next
  case (Timeout n)
  then show ?thesis using assms by (simp add: handle_def reload_done_run_inv)
next
  case (ShopClick n)
  then show ?thesis using assms by (simp add: handle_def shopClick_run_inv)
next
  case StartClick
  then show ?thesis
    using startGame_run_inv[OF run_inv_ammo_ok[OF assms], of env] by (simp add: handle_def)
qed (use assms in \<open>simp_all add: handle_def\<close>)

lemma reachable_run_inv: "reachable env s \<Longrightarrow> run_inv s"
proof (induction rule: reachable.induct)
  case reachable_init
  show ?case by (rule init_run_inv)
next
  case (reachable_step s ev s1)
  from handle_run_inv[OF reachable_step.IH, of env ev] reachable_step.hyps(2)
  show ?case by auto
qed


lemma gameOverCheck_fields [simp]:
  "coins (gameOverCheck u) = coins u" "pickups (gameOverCheck u) = pickups u"
  "player (gameOverCheck u) = player u" "gameStarted (gameOverCheck u) = gameStarted u"
  "weapons (gameOverCheck u) = weapons u"
  by (simp_all add: gameOverCheck_def playSfx_def)

lemma keeps_money:
  "keeps env s u \<Longrightarrow> random_ok env \<Longrightarrow> pickups_ok s \<Longrightarrow> pickups_ok u \<and> coins s \<le> coins u"
  by (simp add: keeps_def)

lemma spawnWave_pickups_ok [simp]: "pickups_ok (spawnWave env u) = pickups_ok u"
  by (rule pickups_ok_cong) simp

lemma startReload_fields [simp]:
  "coins (startReload u) = coins u" "pickups (startReload u) = pickups u"
  "gameStarted (startReload u) = gameStarted u" "gameOver (startReload u) = gameOver u"
  by (simp_all add: startReload_def Let_def setTimeout_reload_def playSfx_def)

lemma startReload_pickups_ok [simp]: "pickups_ok (startReload u) = pickups_ok u"
  by (rule pickups_ok_cong) simp

lemma keydown_money:
  assumes "pickups_ok s" "keydown env key s = t"
  shows "pickups_ok t \<and> (coins t < coins s \<longrightarrow> key = ''Enter'' \<and> coins t = 0)"
proof -
  define s7 where "s7 = (let s1 = s\<lparr>keys := (keys s)(toLowerCase key := True)\<rparr>;
          s2 = (if key = ''1'' then s1\<lparr>currentWeaponKey := Pistol\<rparr> else s1);
          s3 = (if key = ''2'' then s2\<lparr>currentWeaponKey := Smg\<rparr> else s2);
          s4 = (if key = ''3'' then s3\<lparr>currentWeaponKey := Machine\<rparr> else s3);
          s5 = (if key = ''4'' then s4\<lparr>currentWeaponKey := Shotgun\<rparr> else s4);
          s6 = (if key = ''5'' then s5\<lparr>currentWeaponKey := Sniper\<rparr> else s5)
      in (if key = ''6'' then s6\<lparr>currentWeaponKey := Rocket\<rparr> else s6))"
  define s8 where "s8 = (if key = ''r'' then startReload s7 else s7)"
  have 7: "pickups s7 = pickups s" "coins s7 = coins s" by (simp_all add: s7_def Let_def)
  then have 8: "pickups s8 = pickups s" "coins s8 = coins s" by (simp_all add: s8_def)
  have kd: "keydown env key s =
      (if key = ''Enter'' then
        (if \<not> gameStarted s8 then startGame env s8
         else if gameOver s8 then restartGame env s8
         else s8)
      else s8)"
    by (simp add: keydown_def s8_def s7_def Let_def)
  have p8: "pickups_ok s8" using assms(1) 8 pickups_ok_cong by blast
  have sg: "pickups_ok (startGame env s8) \<and> coins (startGame env s8) = 0"
    using p8 by (simp add: startGame_def Let_def createPlayer_def)
  have rg: "pickups_ok (restartGame env s8) \<and> coins (restartGame env s8) = 0"
    by (simp add: restartGame_def Let_def)
  show ?thesis
    using assms(2) p8 8 sg rg unfolding kd by (auto split: if_splits)
qed

lemma handle_money:
  assumes "random_ok env" "run_inv s" "pickups_ok s" "handle env ev s = Inr t"
  shows "pickups_ok t \<and>
    (coins t < coins s \<longrightarrow>
       (\<exists>n<length shopItems. ev = ShopClick n \<and> it_price (shopItems ! n) \<le> coins s \<and>
            coins t = coins s - it_price (shopItems ! n)) \<or>
       ((ev = StartClick \<or> ev = KeyDown ''Enter'') \<and> coins t = 0))"
proof (cases ev)
  case (Frame ts)
  show ?thesis
  proof (cases "gameStarted s")
    case True
    from update_keeps[OF assms(2) True, of env ts] obtain x where
      x: "update env ts s = Inr (gameOverCheck x)" "keeps env s x" by blast
    from keeps_money[OF x(2) assms(1,3)] have "pickups_ok x" "coins s \<le> coins x" by simp_all
    moreover have "t = gameOverCheck x" using assms(4) Frame x(1) by (simp add: handle_def)
    ultimately show ?thesis using pickups_ok_cong[of "gameOverCheck x" x] by simp
  next
    case False
    then show ?thesis using Frame assms(3,4) by (auto simp add: handle_def update_not_started)
  qed
next
  case (KeyDown key)
  then have "keydown env key s = t" using assms(4) by (simp add: handle_def)
  from keydown_money[OF assms(3) this] show ?thesis using KeyDown by auto
next
  case MouseDown
  have "run_inv (s\<lparr>mouseDown := True\<rparr>)" using assms(2) by simp
  from keeps_money[OF shootAtMouse_keeps[OF this, of env] assms(1)] assms(3,4) show ?thesis
    using MouseDown by (auto simp add: handle_def)
next
  case FireTouchStart
  from keeps_money[OF shootAtMouse_keeps[OF assms(2), of env] assms(1,3)] assms(4) show ?thesis
    using FireTouchStart by (auto simp add: handle_def)
next
  case (Timeout n)
  then show ?thesis using assms(3,4) by (auto simp add: handle_def reload_done_def split: if_splits)
next
  case (ShopClick n)
  then show ?thesis using assms(3,4)
    by (auto simp add: handle_def shopClick_def Let_def split: if_splits)
next
  case StartClick
  then show ?thesis using assms(3,4)
    by (auto simp add: handle_def startGame_def Let_def createPlayer_def)
qed (use assms in \<open>auto simp add: handle_def\<close>)

lemma init_pickups_ok: "pickups_ok (init env)"
  by (simp add: init_def Let_def createPlayer_def state0_def pickups_ok_def)

lemma reachable_pickups_ok:
  assumes "reachable env s" "random_ok env"
  shows "pickups_ok s"
  using assms
proof (induction rule: reachable.induct)
  case reachable_init
  show ?case by (rule init_pickups_ok)
next
  case (reachable_step s ev s1)
  from handle_money[OF reachable_step.prems reachable_run_inv[OF reachable_step.hyps(1)]
      reachable_step.IH[OF reachable_step.prems] reachable_step.hyps(2)]
  show ?case by simp
qed

section \<open>The game-over flag and the player's health\<close>

lemma gameOverCheck_done: "gameOver s \<Longrightarrow> gameOverCheck s = s"
  by (simp add: gameOverCheck_def)

lemma gameOverCheck_sets: "p_hp (player s) \<le> 0 \<Longrightarrow> gameOver (gameOverCheck s)"
  by (simp add: gameOverCheck_def playSfx_def)

lemma gameOverCheck_idem: "gameOverCheck (gameOverCheck s) = gameOverCheck s"
  by (simp add: gameOverCheck_def playSfx_def)

lemma gameOverCheck_flag: "gameOver (gameOverCheck s) = (gameOver s \<or> p_hp (player s) \<le> 0)"
  by (auto simp add: gameOverCheck_def playSfx_def)

lemma update_game_over:
  assumes "run_inv s" "gameStarted s"
  shows "\<exists>t. update env ts s = Inr t \<and> run_inv t \<and>
     p_hp (player t) \<le> p_hp (player s) \<and> p_maxHp (player t) = p_maxHp (player s) \<and>
     (p_hp (player t) \<le> 0 \<longrightarrow> gameOver t) \<and> (gameOver s \<longrightarrow> gameOver t) \<and>
     (gameOver t \<and> \<not> gameOver s \<longrightarrow> p_hp (player t) \<le> 0)"
proof -
  from update_keeps[OF assms, of env ts] obtain x where
    x: "update env ts s = Inr (gameOverCheck x)" "keeps env s x" by blast
  from x(2) have "run_inv x" "gameOver x = gameOver s" "p_hp (player x) \<le> p_hp (player s)"
    "p_maxHp (player x) = p_maxHp (player s)"
    by (simp_all add: keeps_def)
  then show ?thesis
    using x(1) by (auto simp add: gameOverCheck_flag)
qed

lemma keydown_gameOver:
  "key \<noteq> ''Enter'' \<Longrightarrow> gameOver (keydown env key s) = gameOver s"
  by (simp add: keydown_def Let_def)

lemma handle_gameOver:
  assumes "run_inv s" "gameOver s" "handle env ev s = Inr t" "ev \<noteq> StartClick" "ev \<noteq> KeyDown ''Enter''"
  shows "gameOver t"
proof (cases ev)
  case (Frame ts)
  show ?thesis
  proof (cases "gameStarted s")
    case True
    from update_game_over[OF assms(1) True, of env ts] assms(2,3) Frame show ?thesis
      by (auto simp: handle_def)
  next
    case False
    then show ?thesis using Frame assms(2,3) by (auto simp add: handle_def update_not_started)
  qed
next
  case (KeyDown key)
  then show ?thesis using assms(2,3,5) by (auto simp add: handle_def keydown_gameOver)
next
  case MouseDown
  then show ?thesis using assms(2,3) by (auto simp add: handle_def shootAtMouse_def)
next
  case FireTouchStart
  then show ?thesis using assms(2,3) by (auto simp add: handle_def shootAtMouse_def)
next
  case (Timeout n)
  then show ?thesis using assms(2,3) by (auto simp add: handle_def reload_done_def split: if_splits)
next
  case (ShopClick n)
  then show ?thesis using assms(2,3)
    by (auto simp add: handle_def shopClick_def Let_def split: if_splits)
qed (use assms in \<open>auto simp add: handle_def\<close>)

text \<open>
  Claim C5. In every state of a run the invariant holds and the player's health is at
  most its maximum. From a state of a started game in which the invariant holds, a call
  of \<^verbatim>\<open>update\<close> returns, keeps the invariant, does not raise the health nor change its
  maximum, ends with the flag true whenever the health is then at or below zero, never
  clears the flag, and sets it only with the health at or below zero. No other handler
  but a start or restart (the start button, the Enter key) clears the flag. Once the
  flag is true the check changes nothing, the sound log included, so running it twice
  is running it once.
\<close>

theorem game_over_once:
  "(reachable env s \<longrightarrow> run_inv s \<and> p_hp (player s) \<le> p_maxHp (player s)) \<and>
   (run_inv s \<and> gameStarted s \<longrightarrow>
      (\<exists>t. update env ts s = Inr t \<and> run_inv t \<and>
         p_hp (player t) \<le> p_hp (player s) \<and> p_maxHp (player t) = p_maxHp (player s) \<and>
         (p_hp (player t) \<le> 0 \<longrightarrow> gameOver t) \<and> (gameOver s \<longrightarrow> gameOver t) \<and>
         (gameOver t \<and> \<not> gameOver s \<longrightarrow> p_hp (player t) \<le> 0))) \<and>
   (run_inv s \<and> gameOver s \<and> handle env ev s = Inr u \<and> ev \<noteq> StartClick \<and>
      ev \<noteq> KeyDown ''Enter'' \<longrightarrow> gameOver u) \<and>
   (gameOver s \<longrightarrow> gameOverCheck s = s) \<and>
   (p_hp (player s) \<le> 0 \<longrightarrow> gameOver (gameOverCheck s)) \<and>
   gameOverCheck (gameOverCheck s) = gameOverCheck s"
  using reachable_run_inv[of env s] update_game_over[of s env ts] handle_gameOver[of s env ev u]
    gameOverCheck_done[of s] gameOverCheck_sets[of s] gameOverCheck_idem[of s]
  by (simp add: run_inv_def)

text \<open>The loaded script is a state of the run; and one step of a started game whose
  player has no health left ends with the flag set, after which the check is the
  identity.\<close>

theorem game_over_once_witness:
  "reachable env0 (init env0) \<and> p_hp (player (init env0)) \<le> p_maxHp (player (init env0)) \<and>
   run_inv dead_demo \<and> gameStarted dead_demo \<and> \<not> gameOver dead_demo \<and>
   (\<exists>t. update env0 16 dead_demo = Inr t \<and> p_hp (player t) \<le> 0 \<and> gameOver t \<and>
        gameOverCheck t = t)"
proof -
  have r: "reachable env0 (init env0)" by (rule reachable_init)
  have d: "run_inv dead_demo" "gameStarted dead_demo" "\<not> gameOver dead_demo"
    "p_hp (player dead_demo) = 0"
    by (simp_all add: dead_demo_def loaded0_def createPlayer_def state0_def run_inv_def no_bomber_def ammo_ok_def
        weapons0_def split: wkey.split)
  from game_over_once[of env0 "init env0"] r
  have 1: "p_hp (player (init env0)) \<le> p_maxHp (player (init env0))" by blast
  from game_over_once[of env0 dead_demo 16] d obtain t where
    t: "update env0 16 dead_demo = Inr t" "p_hp (player t) \<le> p_hp (player dead_demo)"
      "p_hp (player t) \<le> 0 \<longrightarrow> gameOver t"
    by blast
  from t(2,3) d(4) have g: "p_hp (player t) \<le> 0" "gameOver t" by simp_all
  from game_over_once[of env0 t] g(2) have "gameOverCheck t = t" by blast
  with r 1 d t(1) g show ?thesis by blast
qed


section \<open>Ammunition\<close>

lemma shoot_weapons:
  "weapons (shootAtMouse env s) = weapons s \<or>
   (0 < w_ammo (weapons s (currentWeaponKey s)) \<and>
    weapons (shootAtMouse env s) =
      (weapons s)(currentWeaponKey s := (weapons s (currentWeaponKey s))
         \<lparr>w_ammo := w_ammo (weapons s (currentWeaponKey s)) - 1\<rparr>))"
  by (simp add: shootAtMouse_def Let_def nowMs_def playSfx_def split: wtype.split)

lemma ammo_ok_at:
  "ammo_ok s \<Longrightarrow> 0 \<le> w_ammo (weapons s k) \<and> w_ammo (weapons s k) \<le> w_maxAmmo (weapons s k)"
  by (simp add: ammo_ok_def)

lemma ammo_ok_upd:
  "ammo_ok s \<Longrightarrow> 0 \<le> w_ammo w \<Longrightarrow> w_ammo w \<le> w_maxAmmo w \<Longrightarrow>
   ammo_ok (s\<lparr>weapons := (weapons s)(k := w)\<rparr>)"
  by (simp add: ammo_ok_def)

lemma shootAtMouse_ammo_ok:
  assumes "ammo_ok s"
  shows "ammo_ok (shootAtMouse env s)"
proof -
  note b = ammo_ok_at[OF assms, of "currentWeaponKey s"]
  from shoot_weapons[of env s] show ?thesis
  proof
    assume "weapons (shootAtMouse env s) = weapons s"
    then show ?thesis using assms ammo_ok_cong by blast
  next
    assume c: "0 < w_ammo (weapons s (currentWeaponKey s)) \<and>
      weapons (shootAtMouse env s) =
      (weapons s)(currentWeaponKey s := (weapons s (currentWeaponKey s))
         \<lparr>w_ammo := w_ammo (weapons s (currentWeaponKey s)) - 1\<rparr>)"
    let ?u = "s\<lparr>weapons := (weapons s)(currentWeaponKey s := (weapons s (currentWeaponKey s))
         \<lparr>w_ammo := w_ammo (weapons s (currentWeaponKey s)) - 1\<rparr>)\<rparr>"
    have u: "ammo_ok ?u"
      using b c by (intro ammo_ok_upd[OF assms]) simp_all
    have "ammo_ok (shootAtMouse env s) = ammo_ok ?u"
      by (rule ammo_ok_cong) (simp add: c)
    with u show ?thesis by (simp only:)
  qed
qed

lemma reload_done_ammo_ok:
  assumes "ammo_ok s"
  shows "ammo_ok (reload_done k s)"
proof -
  note b = ammo_ok_at[OF assms, of k]
  have "ammo_ok (s\<lparr>weapons := (weapons s)(k := (weapons s k)\<lparr>w_ammo := w_maxAmmo (weapons s k)\<rparr>)\<rparr>)"
    using b by (intro ammo_ok_upd[OF assms]) simp_all
  then show ?thesis by (simp add: reload_done_def)
qed

lemma pickup_step_ammo_ok:
  assumes "ammo_ok s" "pickup_step dt i s = Inr t"
  shows "ammo_ok t"
proof -
  define k where "k = currentWeaponKey s"
  note b = ammo_ok_at[OF assms(1), of k]
  have "ammo_ok (s\<lparr>weapons := (weapons s)(k := (weapons s k)
      \<lparr>w_ammo := min (w_maxAmmo (weapons s k)) (w_ammo (weapons s k) + 8)\<rparr>)\<rparr>)"
    using b by (intro ammo_ok_upd[OF assms(1)]) simp_all
  then show ?thesis
    using assms
    by (auto simp add: pickup_step_def Let_def k_def[symmetric] split: if_splits)
qed

lemma levelProgression_ammo_ok: "ammo_ok s \<Longrightarrow> ammo_ok (levelProgression env s)"
proof -
  assume a: "ammo_ok s"
  define k where "k = currentWeaponKey s"
  from a have b: "0 \<le> w_ammo (weapons s k)" "w_ammo (weapons s k) \<le> w_maxAmmo (weapons s k)"
    by (simp_all add: ammo_ok_def)
  then have m: "0 \<le> \<lfloor>real_of_int (w_maxAmmo (weapons s k)) * 0.2\<rfloor>" by simp
  show ?thesis
    using a b m by (simp add: levelProgression_def Let_def k_def[symmetric] ammo_ok_def)
qed

text \<open>
  Claim C6. In every state of a run every weapon's ammo lies between 0 and its capacity;
  and each of the four operations that write ammo (firing, the reload timer's callback,
  the level-up refill, the collection of a pickup) takes a weapon table within these
  bounds to one within them.
\<close>

theorem ammo_within_capacity:
  "(reachable env s \<longrightarrow>
      0 \<le> w_ammo (weapons s k) \<and> w_ammo (weapons s k) \<le> w_maxAmmo (weapons s k)) \<and>
   (ammo_ok s \<longrightarrow>
      ammo_ok (shootAtMouse env s) \<and> ammo_ok (reload_done k s) \<and>
      ammo_ok (levelProgression env s) \<and> (pickup_step dt i s = Inr t \<longrightarrow> ammo_ok t))"
  using ammo_ok_nth[OF reachable_run_inv, of env s k] shootAtMouse_ammo_ok[of s env]
    reload_done_ammo_ok[of s k] levelProgression_ammo_ok[of s env] pickup_step_ammo_ok[of s dt i t]
  by blast

text \<open>In the loaded script the rocket launcher holds 2 of 2 rounds; a pistol shot in a
  started game leaves 11 of 12.\<close>

theorem ammo_within_capacity_witness:
  "reachable env0 (init env0) \<and>
   0 \<le> w_ammo (weapons (init env0) Rocket) \<and>
   w_ammo (weapons (init env0) Rocket) \<le> w_maxAmmo (weapons (init env0) Rocket) \<and>
   ammo_ok started0 \<and> w_ammo (weapons (shootAtMouse env0 started0) Pistol) = 11 \<and>
   ammo_ok (shootAtMouse env0 started0) \<and> ammo_ok (reload_done Pistol started0)"
proof -
  have r: "reachable env0 (init env0)" by (rule reachable_init)
  have a: "ammo_ok started0"
    by (simp add: started0_def loaded0_def createPlayer_def state0_def ammo_ok_def weapons0_def split: wkey.split)
  have f: "w_ammo (weapons (shootAtMouse env0 started0) Pistol) = 11"
    by (simp add: shootAtMouse_def started0_def loaded0_def createPlayer_def state0_def weapons0_def env0_def Let_def
        prim_defs)
  from ammo_within_capacity[of env0 "init env0" Rocket] r
  have 1: "0 \<le> w_ammo (weapons (init env0) Rocket) \<and>
      w_ammo (weapons (init env0) Rocket) \<le> w_maxAmmo (weapons (init env0) Rocket)"
    by blast
  from ammo_within_capacity[of env0 started0 Pistol] a
  have 2: "ammo_ok (shootAtMouse env0 started0) \<and> ammo_ok (reload_done Pistol started0)"
    by blast
  from r a f 1 2 show ?thesis by blast
qed

section \<open>The shop and the coin balance\<close>

lemma shopClick_rejects: "coins s < it_price it \<Longrightarrow> shopClick it s = (NotEnoughCoins, s)"
  by (simp add: shopClick_def)

lemma shopClick_accepts:
  "it_price it \<le> coins s \<Longrightarrow>
   fst (shopClick it s) = Purchased \<and> coins (snd (shopClick it s)) = coins s - it_price it \<and>
   w_owned (weapons (snd (shopClick it s)) (it_key it))"
  by (simp add: shopClick_def Let_def)

text \<open>
  Claim C7. A click on an item's button with a balance below the item's price is
  rejected and changes nothing, the balance and the weapon's owned flag included; with
  a balance of at least the price it succeeds, takes exactly the price off the balance
  and sets the weapon's owned flag. In every state of a run the invariant holds and no
  pickup has a negative value (given that \<^verbatim>\<open>Math.random()\<close> keeps to \<open>[0, 1)\<close>), and from
  such a state a handler that lowers the balance within a game is a successful
  purchase, lowering it by the price. The start button and the Enter key begin a new
  game, whose session state starts afresh; they are not operations within a game.
\<close>

theorem purchase_and_currency:
  "(coins s < it_price it \<longrightarrow> shopClick it s = (NotEnoughCoins, s)) \<and>
   (it_price it \<le> coins s \<longrightarrow>
      fst (shopClick it s) = Purchased \<and> coins (snd (shopClick it s)) = coins s - it_price it \<and>
      w_owned (weapons (snd (shopClick it s)) (it_key it))) \<and>
   (random_ok env \<and> reachable env s \<longrightarrow> run_inv s \<and> pickups_ok s) \<and>
   (random_ok env \<and> run_inv s \<and> pickups_ok s \<and> handle env ev s = Inr t \<and>
    ev \<noteq> StartClick \<and> ev \<noteq> KeyDown ''Enter'' \<and> coins t < coins s \<longrightarrow>
      (\<exists>n<length shopItems. ev = ShopClick n \<and> it_price (shopItems ! n) \<le> coins s \<and>
           coins t = coins s - it_price (shopItems ! n)))"
proof (intro conjI impI)
  assume "coins s < it_price it" then show "shopClick it s = (NotEnoughCoins, s)"
    by (rule shopClick_rejects)
next
  assume a: "it_price it \<le> coins s"
  from shopClick_accepts[OF a]
  show "fst (shopClick it s) = Purchased" "coins (snd (shopClick it s)) = coins s - it_price it"
    "w_owned (weapons (snd (shopClick it s)) (it_key it))" by simp_all
next
  assume a: "random_ok env \<and> reachable env s"
  then show "run_inv s" "pickups_ok s"
    using reachable_run_inv reachable_pickups_ok by blast+
next
  assume a: "random_ok env \<and> run_inv s \<and> pickups_ok s \<and> handle env ev s = Inr t \<and>
    ev \<noteq> StartClick \<and> ev \<noteq> KeyDown ''Enter'' \<and> coins t < coins s"
  from handle_money[of env s ev t] a
  show "\<exists>n<length shopItems. ev = ShopClick n \<and> it_price (shopItems ! n) \<le> coins s \<and>
           coins t = coins s - it_price (shopItems ! n)"
    by blast
qed

text \<open>With no coins the SMG (50 coins) is refused; with 60 coins it is bought, 10 coins
  are left, and the click is a handler that lowered the balance.\<close>

theorem purchase_and_currency_witness:
  "coins loaded0 < it_price (shopItems ! 0) \<and>
   shopClick (shopItems ! 0) loaded0 = (NotEnoughCoins, loaded0) \<and>
   it_price (shopItems ! 0) \<le> coins rich_demo \<and>
   fst (shopClick (shopItems ! 0) rich_demo) = Purchased \<and>
   coins (snd (shopClick (shopItems ! 0) rich_demo)) = 10 \<and>
   random_ok env0 \<and> reachable env0 (init env0) \<and> run_inv (init env0) \<and>
   pickups_ok (init env0) \<and> run_inv rich_demo \<and> pickups_ok rich_demo \<and>
   handle env0 (ShopClick 0) rich_demo = Inr (snd (shopClick (shopItems ! 0) rich_demo)) \<and>
   coins (snd (shopClick (shopItems ! 0) rich_demo)) < coins rich_demo \<and>
   (\<exists>n<length shopItems. ShopClick 0 = ShopClick n \<and> it_price (shopItems ! n) \<le> coins rich_demo)"
proof -
  let ?it = "shopItems ! 0"
  let ?t = "snd (shopClick ?it rich_demo)"
  have p: "coins loaded0 < it_price ?it" "it_price ?it \<le> coins rich_demo"
    "coins rich_demo = 60" "it_price ?it = 50"
    by (simp_all add: shopItems_def loaded0_def rich_demo_def createPlayer_def state0_def)
  have e: "random_ok env0" by (simp add: random_ok_def env0_def)
  have r: "reachable env0 (init env0)" by (rule reachable_init)
  have i: "run_inv rich_demo" "pickups_ok rich_demo"
    by (simp_all add: rich_demo_def loaded0_def createPlayer_def state0_def run_inv_def
        no_bomber_def ammo_ok_def pickups_ok_def weapons0_def env0_def split: wkey.split)
  have h: "handle env0 (ShopClick 0) rich_demo = Inr ?t"
    by (simp add: handle_def shopItems_def)
  note thm1 = purchase_and_currency[where s = loaded0 and it = "?it" and env = env0]
  note thm2 = purchase_and_currency[where s = rich_demo and it = "?it"]
  from thm1 p(1) have 1: "shopClick ?it loaded0 = (NotEnoughCoins, loaded0)" by blast
  from thm2 p(2) have 2: "fst (shopClick ?it rich_demo) = Purchased"
    "coins ?t = coins rich_demo - it_price ?it" by blast+
  from purchase_and_currency[where s = "init env0" and env = env0] e r
  have 3: "run_inv (init env0)" "pickups_ok (init env0)" by blast+
  have lt: "coins ?t < coins rich_demo" using 2(2) p(3,4) by simp
  note thm3 = purchase_and_currency[where s = rich_demo and env = env0 and ev = "ShopClick 0" and t = "?t"]
  have ne: "ShopClick 0 \<noteq> StartClick" "ShopClick 0 \<noteq> KeyDown ''Enter''" by simp_all
  from thm3 e i h ne lt have 4: "\<exists>n<length shopItems. ShopClick 0 = ShopClick n \<and>
      it_price (shopItems ! n) \<le> coins rich_demo \<and>
      coins ?t = coins rich_demo - it_price (shopItems ! n)"
    by blast
  then have 5: "\<exists>n<length shopItems. ShopClick 0 = ShopClick n \<and>
      it_price (shopItems ! n) \<le> coins rich_demo"
    by blast
  have 6: "coins ?t = 10" using 2(2) p(3,4) by simp
  from p(1,2) 1 2(1) 6 e r 3 i h lt 5 show ?thesis by blast
qed

section \<open>The enemy pass and the bullet pass of a step\<close>

subsection \<open>Contact with the player\<close>

lemma spitterAttack_enemies:
  assumes "i < length (enemies s)"
  shows "\<exists>l. enemies (spitterAttack env i s) = (enemies s)[i := (enemies s ! i)\<lparr>e_lastSpit := l\<rparr>]
           \<and> player (spitterAttack env i s) = player s"
proof -
  have "(enemies s)[i := (enemies s ! i)\<lparr>e_lastSpit := e_lastSpit (enemies s ! i)\<rparr>] = enemies s"
    by simp
  then show ?thesis
    by (auto simp add: spitterAttack_def Let_def nowMs_def intro: exI[of _ "e_lastSpit (enemies s ! i)"])
qed

lemma moveTowardPlayer_enemies:
  "enemies (moveTowardPlayer dt i s) = (enemies s)[i := approach (player s) dt (enemies s ! i)] \<and>
   player (moveTowardPlayer dt i s) = player s"
  by (simp add: moveTowardPlayer_def approach_def Let_def)

lemma playerContact_enemies:
  assumes "i < length (enemies s)" "e_type (enemies s ! i) \<noteq> Bomber"
  shows "\<exists>t. playerContact env i s = Inr t \<and>
     enemies t = (if touches (player s) (enemies s ! i) then splice1 i (enemies s) else enemies s) \<and>
     same_body (player s) (player t)"
  using assms
  by (simp add: playerContact_def Let_def prim_defs touches_def same_body_def)

lemma approach_forget:
  "forget_spit (approach p dt (e\<lparr>e_lastSpit := l\<rparr>)) = forget_spit (approach p dt e)"
  "touches p (approach p dt (e\<lparr>e_lastSpit := l\<rparr>)) = touches p (approach p dt e)"
  "e_type (approach p dt (e\<lparr>e_lastSpit := l\<rparr>)) = e_type e"
  by (simp_all add: approach_def forget_spit_def touches_def Let_def)

lemma touches_same_body: "same_body p q \<Longrightarrow> touches q e = touches p e"
  by (simp add: touches_def same_body_def)

lemma approach_same_body: "same_body p q \<Longrightarrow> approach q dt e = approach p dt e"
  by (simp add: approach_def same_body_def)

lemma enemy_step_enemies:
  assumes "i < length (enemies s)" "e_type (enemies s ! i) \<noteq> Bomber"
  shows "\<exists>t. enemy_step env dt i s = Inr t \<and>
     map forget_spit (enemies t) =
       map forget_spit (take i (enemies s)) @
       map forget_spit (contact_outcome (player s) dt (enemies s ! i)) @
       map forget_spit (drop (Suc i) (enemies s)) \<and>
     take i (enemies t) = take i (enemies s) \<and>
     same_body (player s) (player t)"
proof -
  let ?a = "spitterAttack env i s"
  let ?b = "moveTowardPlayer dt i ?a"
  let ?e = "enemies s ! i"
  from spitterAttack_enemies[OF assms(1), of env] obtain l where
    a: "enemies ?a = (enemies s)[i := ?e\<lparr>e_lastSpit := l\<rparr>]" "player ?a = player s" by blast
  let ?e' = "approach (player s) dt (?e\<lparr>e_lastSpit := l\<rparr>)"
  have b: "enemies ?b = (enemies s)[i := ?e']" "player ?b = player s"
    using moveTowardPlayer_enemies[of dt i ?a] a assms(1) by simp_all
  have lb: "i < length (enemies ?b)" "e_type (enemies ?b ! i) \<noteq> Bomber" "enemies ?b ! i = ?e'"
    using b assms by (simp_all add: approach_forget)
  from playerContact_enemies[OF lb(1,2), of env] obtain t where
    t: "playerContact env i ?b = Inr t"
       "enemies t = (if touches (player ?b) (enemies ?b ! i) then splice1 i (enemies ?b) else enemies ?b)"
       "same_body (player ?b) (player t)" by blast
  have es: "enemies t = take i (enemies s) @ (if touches (player s) ?e' then [] else [?e']) @ drop (Suc i) (enemies s)"
    using t(2) b lb(3) assms(1) by (simp add: splice1_def upd_conv_take_nth_drop)
  have "map forget_spit (enemies t) =
       map forget_spit (take i (enemies s)) @
       map forget_spit (contact_outcome (player s) dt ?e) @
       map forget_spit (drop (Suc i) (enemies s))"
    unfolding es by (simp add: contact_outcome_def approach_forget)
  moreover have "take i (enemies t) = take i (enemies s)"
    unfolding es using assms(1) by simp
  ultimately show ?thesis
    using t(1,3) b(2) assms(1) by (simp add: enemy_step_def)
qed


lemma same_body_refl: "same_body p p"
  by (simp add: same_body_def)

lemma same_body_trans: "same_body p q \<Longrightarrow> same_body q r \<Longrightarrow> same_body p r"
  by (simp add: same_body_def)

lemma contact_outcome_same_body: "same_body p q \<Longrightarrow> contact_outcome q dt e = contact_outcome p dt e"
  by (simp add: contact_outcome_def touches_same_body approach_same_body)

lemma contact_outcome_type:
  "e_type e \<noteq> Bomber \<Longrightarrow> list_all (\<lambda>e. e_type e \<noteq> Bomber) (contact_outcome p dt e)"
  by (simp add: contact_outcome_def approach_def Let_def)

lemma non_bomber_forget:
  "list_all (\<lambda>e. e_type e \<noteq> Bomber) (map forget_spit xs) = list_all (\<lambda>e. e_type e \<noteq> Bomber) xs"
  by (induction xs) (simp_all add: forget_spit_def)

lemma list_all_take_drop:
  "list_all P xs \<Longrightarrow> list_all P (take n xs) \<and> list_all P (drop n xs)"
  by (metis append_take_drop_id list_all_append)

lemma updateEnemies_loop:
  assumes "n \<le> length (enemies s)" "list_all (\<lambda>e. e_type e \<noteq> Bomber) (enemies s)"
  shows "\<exists>t. downfrom (enemy_step env dt) n s = Inr t \<and>
     map forget_spit (enemies t) =
       map forget_spit (concat (map (contact_outcome (player s) dt) (take n (enemies s)))) @
       map forget_spit (drop n (enemies s)) \<and>
     same_body (player s) (player t)"
  using assms
proof (induction n arbitrary: s)
  case 0
  then show ?case by (simp add: same_body_refl)
next
  case (Suc n)
  let ?es = "enemies s"
  let ?p = "player s"
  from Suc.prems have n: "n < length ?es" by simp
  have nb: "e_type (?es ! n) \<noteq> Bomber" using Suc.prems(2) n by (rule list_all_nth)
  from enemy_step_enemies[OF n nb, of env dt] obtain s1 where
    s1: "enemy_step env dt n s = Inr s1"
      "map forget_spit (enemies s1) =
         map forget_spit (take n ?es) @ map forget_spit (contact_outcome ?p dt (?es ! n)) @
         map forget_spit (drop (Suc n) ?es)"
      "take n (enemies s1) = take n ?es"
      "same_body ?p (player s1)" by blast
  have len: "n \<le> length (enemies s1)"
    using arg_cong[OF s1(3), of length] n by simp
  have "list_all (\<lambda>e. e_type e \<noteq> Bomber) (map forget_spit (enemies s1))"
    unfolding s1(2)
    using list_all_take_drop[OF Suc.prems(2)] contact_outcome_type[OF nb]
    by (simp add: non_bomber_forget)
  then have nb1: "list_all (\<lambda>e. e_type e \<noteq> Bomber) (enemies s1)"
    by (simp add: non_bomber_forget)
  from Suc.IH[OF len nb1] obtain t where
    t: "downfrom (enemy_step env dt) n s1 = Inr t"
      "map forget_spit (enemies t) =
         map forget_spit (concat (map (contact_outcome (player s1) dt) (take n (enemies s1)))) @
         map forget_spit (drop n (enemies s1))"
      "same_body (player s1) (player t)" by blast
  have co: "contact_outcome (player s1) dt = contact_outcome ?p dt"
    using contact_outcome_same_body[OF s1(4)] by auto
  have dr: "map forget_spit (drop n (enemies s1)) =
      map forget_spit (contact_outcome ?p dt (?es ! n)) @ map forget_spit (drop (Suc n) ?es)"
    using arg_cong[OF s1(2), of "drop n"] n by (simp add: drop_map)
  have "map forget_spit (enemies t) =
       map forget_spit (concat (map (contact_outcome ?p dt) (take (Suc n) ?es))) @
       map forget_spit (drop (Suc n) ?es)"
    unfolding t(2) co s1(3) dr using n by (simp add: take_Suc_conv_app_nth)
  then show ?case
    using s1(1) t(1) same_body_trans[OF s1(4) t(3)] by simp
qed

lemma contact_tank: "contact_outcome (player loaded0) 0 (enemy0 410 300 5 Tank) = []"
  by (simp add: contact_outcome_def touches_def approach_def Let_def enemy0_def loaded0_def
      createPlayer_def env0_def state0_def hypot_less_iff)

lemma contact_far:
  "contact_outcome (player loaded0) 0 (enemy0 100 100 1 Normal) = [enemy0 100 100 1 Normal]"
  by (simp add: contact_outcome_def touches_def approach_def Let_def enemy0_def loaded0_def
      createPlayer_def env0_def state0_def hypot_less_iff)

subsection \<open>Bullets hitting enemies\<close>

lemma mset_splice1: "j < length xs \<Longrightarrow> mset (splice1 j xs) + {#xs ! j#} = mset xs"
proof -
  assume j: "j < length xs"
  have "mset xs = mset (take j xs @ xs ! j # drop (Suc j) xs)"
    using id_take_nth_drop[OF j] by simp
  then show ?thesis by (simp add: splice1_def)
qed

lemma enemyDied_enemies:
  assumes "e_type (enemies s ! i) \<noteq> Bomber"
  shows "\<exists>t. enemyDied env i s = Inr t \<and> enemies t = splice1 i (enemies s) \<and> bullets t = bullets s"
  using assms by (simp add: enemyDied_def Let_def prim_defs)

lemma bullet_hits_enemies:
  assumes "i < length (enemies s)" "e_type (enemies s ! i) \<noteq> Bomber"
  shows "\<exists>t. bullet_hits env i j s = Inr t \<and>
     enemies t = take i (enemies s) @ hit_outcome (enemies s ! i) (Some (bullets s ! j)) @
                 drop (Suc i) (enemies s) \<and>
     bullets t = splice1 j (bullets s)"
proof -
  let ?e = "enemies s ! i" and ?b = "bullets s ! j"
  let ?e1 = "?e\<lparr>e_hp := e_hp ?e - b_dmg ?b\<rparr>"
  let ?s2 = "spawnBlood env (b_x ?b) (b_y ?b) 4 (s\<lparr>enemies := (enemies s)[i := ?e1]\<rparr>)"
  let ?s3 = "?s2\<lparr>bullets := splice1 j (bullets ?s2)\<rparr>"
  have e3: "enemies ?s3 = (enemies s)[i := ?e1]" "bullets ?s3 = splice1 j (bullets s)" by simp_all
  have bh: "bullet_hits env i j s = (if e_hp ?e1 \<le> 0 then enemyDied env i ?s3 else Inr ?s3)"
    by (simp add: bullet_hits_def Let_def)
  show ?thesis
  proof (cases "e_hp ?e1 \<le> 0")
    case True
    have "e_type (enemies ?s3 ! i) \<noteq> Bomber" using assms by simp
    from enemyDied_enemies[OF this, of env] obtain t where
      t: "enemyDied env i ?s3 = Inr t" "enemies t = splice1 i (enemies ?s3)" "bullets t = bullets ?s3"
      by blast
    show ?thesis
      using True t assms(1) unfolding bh
      by (simp add: hit_outcome_def splice1_def)
  next
    case False
    then show ?thesis
      using assms(1) unfolding bh
      by (simp add: hit_outcome_def upd_conv_take_nth_drop)
  qed
qed

lemma hit_scan_result:
  assumes "i < length (enemies s)" "e_type (enemies s ! i) \<noteq> Bomber" "j \<le> length (bullets s)"
  shows "\<exists>t h. hit_scan env i j s = Inr t \<and>
     enemies t = take i (enemies s) @ hit_outcome (enemies s ! i) h @ drop (Suc i) (enemies s) \<and>
     mset (bullets t) + mset (the_hits [h]) = mset (bullets s) \<and>
     hit_fair (take j (bullets s)) (enemies s ! i) h"
  using assms(3)
proof (induction j)
  case 0
  show ?case
    using id_take_nth_drop[OF assms(1)]
    by (intro exI[of _ s] exI[of _ None]) (simp add: hit_outcome_def the_hits_def hit_fair_def)
next
  case (Suc j)
  then have j: "j < length (bullets s)" by simp
  let ?b = "bullets s ! j" and ?e = "enemies s ! i"
  show ?case
  proof (cases "b_from ?b = FromPlayer \<and> overlaps ?e ?b")
    case True
    from bullet_hits_enemies[OF assms(1,2), of env j] obtain t where
      t: "bullet_hits env i j s = Inr t"
        "enemies t = take i (enemies s) @ hit_outcome ?e (Some ?b) @ drop (Suc i) (enemies s)"
        "bullets t = splice1 j (bullets s)" by blast
    have "hit_scan env i (Suc j) s = Inr t"
      using True j assms(1) t(1) by (simp add: Let_def overlaps_def)
    moreover have "mset (bullets t) + mset (the_hits [Some ?b]) = mset (bullets s)"
      using mset_splice1[OF j] t(3) by (simp add: the_hits_def)
    ultimately show ?thesis
      using t(2) True
      by (intro exI[of _ t] exI[of _ "Some ?b"]) (simp add: hit_fair_def)
  next
    case False
    from Suc.IH j obtain t h where
      t: "hit_scan env i j s = Inr t"
        "enemies t = take i (enemies s) @ hit_outcome ?e h @ drop (Suc i) (enemies s)"
        "mset (bullets t) + mset (the_hits [h]) = mset (bullets s)"
        "hit_fair (take j (bullets s)) ?e h" by auto
    have "hit_scan env i (Suc j) s = Inr t"
      using False j assms(1) t(1) by (auto simp add: Let_def overlaps_def)
    moreover have "hit_fair (take (Suc j) (bullets s)) ?e h"
      using t(4) False j by (cases h) (auto simp add: hit_fair_def take_Suc_conv_app_nth)
    ultimately show ?thesis using t(2,3) by blast
  qed
qed


lemma hit_outcome_type:
  "e_type e \<noteq> Bomber \<Longrightarrow> list_all (\<lambda>e. e_type e \<noteq> Bomber) (hit_outcome e h)"
  by (cases h) (simp_all add: hit_outcome_def)

lemma hit_fair_subset:
  "hit_fair bs e h \<Longrightarrow> set bs' \<subseteq> set bs \<Longrightarrow> hit_fair bs' e h"
  by (cases h) (auto simp add: hit_fair_def list_all_iff)

lemma mset_sum_subset: "mset xs + m = mset ys \<Longrightarrow> set xs \<subseteq> set ys"
  by (metis mset_subset_eq_add_left set_mset_mono set_mset_mset)

lemma hit_step_result:
  assumes "i < length (enemies s)" "e_type (enemies s ! i) \<noteq> Bomber"
  shows "\<exists>t h. hit_step env i s = Inr t \<and>
     enemies t = take i (enemies s) @ hit_outcome (enemies s ! i) h @ drop (Suc i) (enemies s) \<and>
     mset (bullets t) + mset (the_hits [h]) = mset (bullets s) \<and>
     hit_fair (bullets s) (enemies s ! i) h"
  using hit_scan_result[OF assms, of "length (bullets s)" env] by (simp add: hit_step_def)

lemma the_hits_append: "the_hits (hs @ [h]) = the_hits hs @ the_hits [h]"
  by (simp add: the_hits_def)

lemma bulletsHitEnemies_loop:
  assumes "n \<le> length (enemies s)" "list_all (\<lambda>e. e_type e \<noteq> Bomber) (enemies s)"
  shows "\<exists>t hits. downfrom (hit_step env) n s = Inr t \<and>
     enemies t = concat (map2 hit_outcome (take n (enemies s)) hits) @ drop n (enemies s) \<and>
     mset (bullets t) + mset (the_hits hits) = mset (bullets s) \<and>
     list_all2 (hit_fair (bullets t)) (take n (enemies s)) hits"
  using assms
proof (induction n arbitrary: s)
  case 0
  show ?case
    by (intro exI[of _ s] exI[of _ "[]"]) (simp add: the_hits_def)
next
  case (Suc n)
  let ?es = "enemies s"
  from Suc.prems have n: "n < length ?es" by simp
  have nb: "e_type (?es ! n) \<noteq> Bomber" using Suc.prems(2) n by (rule list_all_nth)
  from hit_step_result[OF n nb, of env] obtain s1 h where
    s1: "hit_step env n s = Inr s1"
      "enemies s1 = take n ?es @ hit_outcome (?es ! n) h @ drop (Suc n) ?es"
      "mset (bullets s1) + mset (the_hits [h]) = mset (bullets s)"
      "hit_fair (bullets s) (?es ! n) h" by blast
  have len: "n \<le> length (enemies s1)" using n s1(2) by simp
  have tk: "take n (enemies s1) = take n ?es" using n s1(2) by simp
  have dr: "drop n (enemies s1) = hit_outcome (?es ! n) h @ drop (Suc n) ?es"
    using n s1(2) by simp
  have nb1: "list_all (\<lambda>e. e_type e \<noteq> Bomber) (enemies s1)"
    unfolding s1(2)
    using list_all_take_drop[OF Suc.prems(2)] hit_outcome_type[OF nb] by simp
  from Suc.IH[OF len nb1] obtain t hits where
    t: "downfrom (hit_step env) n s1 = Inr t"
      "enemies t = concat (map2 hit_outcome (take n (enemies s1)) hits) @ drop n (enemies s1)"
      "mset (bullets t) + mset (the_hits hits) = mset (bullets s1)"
      "list_all2 (hit_fair (bullets t)) (take n (enemies s1)) hits" by blast
  have lh: "length hits = n"
    using list_all2_lengthD[OF t(4)] len by simp
  have sub: "set (bullets t) \<subseteq> set (bullets s)"
    using mset_sum_subset[OF t(3)] mset_sum_subset[OF s1(3)] by blast
  have fair_n: "hit_fair (bullets t) (?es ! n) h"
    by (rule hit_fair_subset[OF s1(4) sub])
  have 1: "downfrom (hit_step env) (Suc n) s = Inr t"
    using s1(1) t(1) by simp
  have 2: "enemies t =
      concat (map2 hit_outcome (take (Suc n) ?es) (hits @ [h])) @ drop (Suc n) ?es"
    unfolding t(2) tk dr using n lh by (simp add: take_Suc_conv_app_nth)
  have 3: "mset (bullets t) + mset (the_hits (hits @ [h])) = mset (bullets s)"
    using t(3) s1(3) by (simp add: the_hits_append add.assoc[symmetric])
  have 4: "list_all2 (hit_fair (bullets t)) (take (Suc n) ?es) (hits @ [h])"
    using t(4) fair_n n unfolding tk
    by (simp add: take_Suc_conv_app_nth list_all2_appendI)
  from 1 2 3 4 show ?case by blast
qed

lemma overlaps_demo: "overlaps (enemy0 500 500 5 Tank) (bullet0 500 500)"
  by (simp add: overlaps_def enemy0_def bullet0_def hypot_less_iff)

text \<open>
  Claim C9. No state of a run holds a bomber. On a list without bombers the pass
  "bullets hitting enemies" returns, and there is a list \<open>hits\<close> that gives every enemy
  of the list at most one bullet, such that: the enemy list afterwards is the list
  before with every enemy that got a bullet either gone, when that one bullet's damage
  brings its hit points to zero or below, or with exactly that damage taken off, and
  every enemy that got none as it was; the bullets afterwards and the bullets of
  \<open>hits\<close> together are the bullets before, each as often as before, so a bullet that
  hits is removed and is the bullet of one enemy only; a bullet that hits belongs to
  the player and overlaps its enemy; and an enemy that got none overlaps no bullet of
  the player that is left.
\<close>

theorem one_bullet_per_enemy:
  "(reachable env s \<longrightarrow> no_bomber s) \<and>
   (no_bomber s \<longrightarrow>
      (\<exists>t hits. bulletsHitEnemies env s = Inr t \<and>
         enemies t = concat (map2 hit_outcome (enemies s) hits) \<and>
         mset (bullets t) + mset (the_hits hits) = mset (bullets s) \<and>
         list_all2 (hit_fair (bullets t)) (enemies s) hits))"
  using bulletsHitEnemies_loop[of "length (enemies s)" s env] reachable_run_inv[of env s]
  by (simp add: bulletsHitEnemies_def no_bomber_def run_inv_def)

text \<open>The loaded script holds no bomber; and a tank with five hit points under two
  bullets of the player, each of damage 1, loses one hit point and one of the two
  bullets is left.\<close>

theorem one_bullet_per_enemy_witness:
  "reachable env0 (init env0) \<and> no_bomber (init env0) \<and> no_bomber hits_demo \<and>
   (\<exists>t. bulletsHitEnemies env0 hits_demo = Inr t \<and>
        map e_hp (enemies t) = [4] \<and> bullets t = [bullet0 500 500])"
proof -
  let ?e = "enemy0 500 500 5 Tank"
  let ?b = "bullet0 500 500"
  have r: "reachable env0 (init env0)" by (rule reachable_init)
  from one_bullet_per_enemy[of env0 "init env0"] r
  have r1: "no_bomber (init env0)" by blast
  have nb: "no_bomber hits_demo"
    by (simp add: no_bomber_def hits_demo_def enemy0_def)
  have es: "enemies hits_demo = [?e]" and bs: "bullets hits_demo = [?b, ?b]"
    by (simp_all add: hits_demo_def)
  from one_bullet_per_enemy[of env0 hits_demo] nb obtain t hits where
    t: "bulletsHitEnemies env0 hits_demo = Inr t"
       "enemies t = concat (map2 hit_outcome (enemies hits_demo) hits)"
       "mset (bullets t) + mset (the_hits hits) = mset (bullets hits_demo)"
       "list_all2 (hit_fair (bullets t)) (enemies hits_demo) hits"
    by blast
  from t(4) obtain h where h: "hits = [h]" "hit_fair (bullets t) ?e h"
    unfolding es by (auto simp add: list_all2_Cons1)
  have "h = Some ?b \<and> bullets t = [?b]"
  proof (cases h)
    case None
    then have "mset (bullets t) = mset [?b, ?b]"
      using t(3) h(1) bs by (simp add: the_hits_def)
    then have "?b \<in> set (bullets t)"
      by (metis list.set_intros(1) mset_eq_setD)
    then have "\<not> overlaps ?e ?b"
      using h(2) None by (auto simp add: hit_fair_def list_all_iff bullet0_def)
    then show ?thesis using overlaps_demo by simp
  next
    case (Some b)
    then have m: "mset (bullets t) + {#b#} = {#?b, ?b#}"
      using t(3) h(1) bs by (simp add: the_hits_def)
    have "b \<in># mset (bullets t) + {#b#}" by simp
    then have "b \<in># {#?b, ?b#}" unfolding m .
    then have b: "b = ?b" by simp
    with m have "mset (bullets t) = {#?b#}" by simp
    then have "bullets t = [?b]" by (metis mset_single_iff)
    with Some b show ?thesis by simp
  qed
  then have "enemies t = [?e\<lparr>e_hp := 4\<rparr>]" and "bullets t = [?b]"
    using t(2) h(1) es by (simp_all add: hit_outcome_def enemy0_def bullet0_def)
  with t(1) nb r r1 show ?thesis by simp
qed

subsection \<open>Where enemies leave the list\<close>

text \<open>A started step is the bullet pass, the enemy pass and the pass "bullets hitting
  enemies", in this order, between \<open>before_bullets\<close> and \<open>after_hits\<close>.\<close>

lemma after_hits_eta:
  "after_hits env dt =
     (\<lambda>s6. andThen (bulletsHitPlayer env s6) (\<lambda>s7.
     andThen (updateParticles dt s7) (\<lambda>s8.
     andThen (updatePickups dt s8) (\<lambda>s9.
       Inr (gameOverCheck (levelProgression env (spawnPeriodicPickups env dt s9)))))))"
  by (rule ext) (simp add: after_hits_def)

lemma lastT_update_same: "gameStarted (s\<lparr>lastT := ts\<rparr>) = gameStarted s"
  by simp

lemma update_passes:
  "gameStarted s \<Longrightarrow>
   update env ts s =
     andThen (updateBullets env (frame_dt ts s) (before_bullets env ts s)) (\<lambda>s4.
     andThen (updateEnemies env (frame_dt ts s) s4) (\<lambda>s5.
     andThen (bulletsHitEnemies env s5) (after_hits env (frame_dt ts s))))"
proof -
  assume "gameStarted s"
  then have g: "gameStarted ((if lastT s = 0 then s\<lparr>lastT := ts\<rparr> else s)\<lparr>lastT := ts\<rparr>) = True"
    by simp
  show ?thesis
    unfolding update_def before_bullets_def frame_dt_def Let_def after_hits_eta
    by (simp only: g not_True_eq_False if_False)
qed

lemma movePlayer_enemies [simp]:
  "enemies (movePlayer env dt s) = enemies s" "level (movePlayer env dt s) = level s"
  "bullets (movePlayer env dt s) = bullets s" "mouseDown (movePlayer env dt s) = mouseDown s"
  by (simp_all add: movePlayer_def Let_def)

lemma avoidWalls_enemies [simp]:
  "enemies (avoidWalls s) = enemies s" "level (avoidWalls s) = level s"
  "bullets (avoidWalls s) = bullets s" "mouseDown (avoidWalls s) = mouseDown s"
  by (simp_all add: avoidWalls_def)

lemma autoReload_enemies [simp]:
  "enemies (autoReload s) = enemies s" "level (autoReload s) = level s"
  by (simp_all add: autoReload_def startReload_def Let_def setTimeout_reload_def playSfx_def)

lemma shootAtMouse_enemies [simp]:
  "enemies (shootAtMouse env s) = enemies s" "level (shootAtMouse env s) = level s"
  by (simp_all add: shootAtMouse_def Let_def nowMs_def playSfx_def split: wtype.split)

lemma before_bullets_enemies:
  "enemies (before_bullets env ts s) = enemies s" "level (before_bullets env ts s) = level s"
  by (simp_all add: before_bullets_def Let_def)

lemma before_bullets_keeps:
  assumes "run_inv s"
  shows "keeps env s (before_bullets env ts s)"
proof -
  let ?dt = "min 0.05 ((ts - lastT (if lastT s = 0 then s\<lparr>lastT := ts\<rparr> else s)) / 1000)"
  let ?s1 = "(if lastT s = 0 then s\<lparr>lastT := ts\<rparr> else s)\<lparr>lastT := ts\<rparr>"
  have k1: "keeps env s ?s1" using assms by (simp add: keeps_refl)
  then have i1: "run_inv ?s1" by (simp add: keeps_def)
  let ?s2 = "avoidWalls (movePlayer env ?dt ?s1)"
  have k2: "keeps env s ?s2" by (rule keeps_trans[OF k1 movePlayer_keeps[OF i1]])
  then have i2: "run_inv ?s2" by (simp only: keeps_def)
  let ?s3 = "(if mouseDown ?s2 then shootAtMouse env ?s2 else ?s2)"
  have k3: "keeps env s ?s3"
    using k2 keeps_trans[OF k2 shootAtMouse_keeps[OF i2]] by (simp only: if_split) blast
  have "before_bullets env ts s = ?s3"
    unfolding before_bullets_def Let_def ..
  with k3 show ?thesis by simp
qed


lemma explode_enemies:
  "\<exists>t. explode env x y scale s = Inr t \<and>
     enemies t = concat (map (blast_outcome x y (60 * scale) (level s)) (enemies s)) \<and>
     level t = level s \<and> bullets t = bullets s"
proof -
  let ?s1 = "forUpTo (explode_particle env x y) 40 s"
  from explode_loop_enemies[of "length (enemies ?s1)" ?s1 env x y "60 * scale"]
  obtain u where
    u: "downfrom (explode_step env x y (60 * scale)) (length (enemies ?s1)) ?s1 = Inr u"
      "enemies u = concat (map (blast_outcome x y (60 * scale) (level ?s1)) (enemies ?s1))"
      "level u = level ?s1"
    by auto
  have e: "explode env x y scale s = Inr (playSfx ''explosion'' u)"
    using u(1) by (simp add: explode_def del: forUpTo.simps)
  have "enemies (playSfx ''explosion'' u) =
      concat (map (blast_outcome x y (60 * scale) (level s)) (enemies s))"
    "level (playSfx ''explosion'' u) = level s"
    using u(2,3) by (simp_all add: playSfx_def del: forUpTo.simps)
  with e explode_fields(8)[OF e] show ?thesis by simp
qed

lemma bullet_step_enemies:
  assumes "i < length (bullets s)"
  shows "\<exists>t. bullet_step env dt i s = Inr t \<and>
     enemies t = rocket_blast dt (level s) (bullets s ! i) (enemies s) \<and>
     level t = level s \<and> take i (bullets t) = take i (bullets s)"
proof -
  let ?b = "bullets s ! i"
  let ?b2 = "moved dt ?b"
  let ?s1 = "s\<lparr>bullets := (bullets s)[i := ?b2]\<rparr>"
  have b2: "(?b\<lparr>b_x := b_x ?b + b_vx ?b * dt\<rparr>)\<lparr>b_y := b_y (?b\<lparr>b_x := b_x ?b + b_vx ?b * dt\<rparr>)
      + b_vy (?b\<lparr>b_x := b_x ?b + b_vx ?b * dt\<rparr>) * dt\<rparr> = ?b2"
    by (simp add: moved_def)
  have hw: "list_ex (\<lambda>w. circleRectCollision (b_x ?b2) (b_y ?b2) (b_r ?b2)
                (wl_x w) (wl_y w) (wl_w w) (wl_h w)) walls = hitsWall ?b2"
    by (simp add: hitsWall_def)
  have rk: "b_rocket ?b2 = b_rocket ?b" by (simp add: moved_def)
  have st: "bullet_step env dt i s =
     (if hitsWall ?b2 then
        andThen (if b_rocket ?b then explode env (b_x ?b2) (b_y ?b2) 1.2 ?s1 else Inr ?s1)
          (\<lambda>s2. Inr (s2\<lparr>bullets := splice1 i (bullets s2)\<rparr>))
      else if b_x ?b2 < - 40 \<or> b_x ?b2 > canvasW env + 40 \<or>
              b_y ?b2 < - 40 \<or> b_y ?b2 > canvasH env + 40 then
        Inr (?s1\<lparr>bullets := splice1 i (bullets ?s1)\<rparr>)
      else Inr ?s1)"
    using assms unfolding bullet_step_def Let_def b2 hw rk by simp
  show ?thesis
  proof (cases "hitsWall ?b2 \<and> b_rocket ?b")
    case True
    from explode_enemies[of env "b_x ?b2" "b_y ?b2" "1.2" ?s1] obtain u where
      u: "explode env (b_x ?b2) (b_y ?b2) 1.2 ?s1 = Inr u"
        "enemies u = concat (map (blast_outcome (b_x ?b2) (b_y ?b2) (60 * 1.2) (level ?s1)) (enemies ?s1))"
        "level u = level ?s1" "bullets u = bullets ?s1"
      by blast
    have "bullet_step env dt i s = Inr (u\<lparr>bullets := splice1 i (bullets u)\<rparr>)"
      unfolding st using True u(1) by simp
    moreover have "take i (splice1 i (bullets u)) = take i (bullets s)"
      using u(4) assms by (simp add: splice1_def)
    ultimately show ?thesis
      using True u(2,3) by (simp add: rocket_blast_def)
  next
    case False
    have tk: "take i (splice1 i ((bullets s)[i := ?b2])) = take i (bullets s)"
      using assms by (simp add: splice1_def)
    show ?thesis
      unfolding st using False tk by (auto simp add: rocket_blast_def)
  qed
qed

lemma updateBullets_loop:
  assumes "n \<le> length (bullets s)"
  shows "\<exists>t. downfrom (bullet_step env dt) n s = Inr t \<and>
     enemies t = foldr (rocket_blast dt (level s)) (take n (bullets s)) (enemies s) \<and>
     level t = level s"
  using assms
proof (induction n arbitrary: s)
  case 0
  then show ?case by simp
next
  case (Suc n)
  then have n: "n < length (bullets s)" by simp
  from bullet_step_enemies[OF n, of env dt] obtain s1 where
    s1: "bullet_step env dt n s = Inr s1"
      "enemies s1 = rocket_blast dt (level s) (bullets s ! n) (enemies s)"
      "level s1 = level s" "take n (bullets s1) = take n (bullets s)"
    by blast
  have len: "n \<le> length (bullets s1)"
    using arg_cong[OF s1(4), of length] n by simp
  from Suc.IH[OF len] obtain t where
    t: "downfrom (bullet_step env dt) n s1 = Inr t"
      "enemies t = foldr (rocket_blast dt (level s1)) (take n (bullets s1)) (enemies s1)"
      "level t = level s1"
    by blast
  show ?case
    using s1 t n by (simp add: take_Suc_conv_app_nth)
qed

lemma updateBullets_enemies:
  "\<exists>t. updateBullets env dt s = Inr t \<and>
     enemies t = foldr (rocket_blast dt (level s)) (bullets s) (enemies s)"
  using updateBullets_loop[of "length (bullets s)" s env dt]
  by (auto simp add: updateBullets_def)


lemma downfrom_same:
  assumes "\<And>i u u'. body i u = Inr u' \<Longrightarrow> f u' = f u" and "downfrom body n s = Inr t"
  shows "f t = f s"
  using assms(2)
proof (induction n arbitrary: s)
  case 0
  then show ?case by simp
next
  case (Suc n)
  then obtain s1 where s1: "body n s = Inr s1" "downfrom body n s1 = Inr t"
    by (cases "body n s") simp_all
  from Suc.IH[OF s1(2)] assms(1)[OF s1(1)] show ?case by simp
qed

lemma playerHit_step_enemies: "playerHit_step env i u = Inr u' \<Longrightarrow> enemies u' = enemies u"
  by (auto simp add: playerHit_step_def Let_def split: if_splits)

lemma particle_step_enemies: "particle_step dt i u = Inr u' \<Longrightarrow> enemies u' = enemies u"
  by (auto simp add: particle_step_def Let_def split: if_splits)

lemma pickup_step_enemies: "pickup_step dt i u = Inr u' \<Longrightarrow> enemies u' = enemies u"
  by (auto simp add: pickup_step_def Let_def split: if_splits)

lemma spawnPeriodicPickups_enemies [simp]:
  "enemies (spawnPeriodicPickups env dt s) = enemies s"
  by (simp add: spawnPeriodicPickups_def Let_def prim_defs)

lemma gameOverCheck_enemies [simp]: "enemies (gameOverCheck s) = enemies s"
  by (simp add: gameOverCheck_def playSfx_def)

lemma levelProgression_enemies: "enemies s \<noteq> [] \<Longrightarrow> levelProgression env s = s"
  by (simp add: levelProgression_def)

lemma after_hits_enemies:
  assumes "run_inv s6"
  shows "\<exists>t. after_hits env dt s6 = Inr t \<and> (enemies s6 \<noteq> [] \<longrightarrow> enemies t = enemies s6)"
proof -
  from bulletsHitPlayer_keeps[OF assms, of env] obtain s7 where
    s7: "bulletsHitPlayer env s6 = Inr s7" "keeps env s6 s7" by blast
  then have i7: "run_inv s7" by (simp add: keeps_def)
  from updateParticles_keeps[OF i7, of dt env] obtain s8 where
    s8: "updateParticles dt s7 = Inr s8" "keeps env s7 s8" by blast
  then have i8: "run_inv s8" by (simp add: keeps_def)
  from updatePickups_keeps[OF i8, of dt env] obtain s9 where
    s9: "updatePickups dt s8 = Inr s9" "keeps env s8 s9" by blast
  have e7: "enemies s7 = enemies s6"
    using s7(1) unfolding bulletsHitPlayer_def
    by (rule downfrom_same[where f = enemies, rotated]) (rule playerHit_step_enemies)
  have e8: "enemies s8 = enemies s7"
    using s8(1) unfolding updateParticles_def
    by (rule downfrom_same[where f = enemies, rotated]) (rule particle_step_enemies)
  have e9: "enemies s9 = enemies s8"
    using s9(1) unfolding updatePickups_def
    by (rule downfrom_same[where f = enemies, rotated]) (rule pickup_step_enemies)
  let ?t = "gameOverCheck (levelProgression env (spawnPeriodicPickups env dt s9))"
  have "after_hits env dt s6 = Inr ?t"
    by (simp add: after_hits_def s7(1) s8(1) s9(1))
  moreover have "enemies ?t = enemies s6" if "enemies s6 \<noteq> []"
  proof -
    have "enemies (spawnPeriodicPickups env dt s9) \<noteq> []"
      using that e7 e8 e9 by simp
    from levelProgression_enemies[OF this, of env] show ?thesis
      using e7 e8 e9 by simp
  qed
  ultimately show ?thesis by blast
qed

lemma startReload_enemies [simp]: "enemies (startReload s) = enemies s"
  by (simp add: startReload_def Let_def setTimeout_reload_def playSfx_def)

lemma keydown_enemies: "key \<noteq> ''Enter'' \<Longrightarrow> enemies (keydown env key s) = enemies s"
  by (simp add: keydown_def Let_def)

lemma handle_enemies:
  assumes "handle env ev s = Inr u" "\<not> is_frame ev" "ev \<noteq> StartClick" "ev \<noteq> KeyDown ''Enter''"
  shows "enemies u = enemies s"
proof (cases ev)
  case (KeyDown key)
  then show ?thesis using assms keydown_enemies[of key env s] by (auto simp add: handle_def)
next
  case (Timeout n)
  then show ?thesis using assms
    by (auto simp add: handle_def reload_done_def Let_def split: if_splits)
next
  case (ShopClick n)
  then show ?thesis using assms
    by (auto simp add: handle_def shopClick_def Let_def split: if_splits)
qed (use assms in \<open>auto simp add: handle_def is_frame_def\<close>)

lemma loaded0_player:
  "player loaded0 = \<lparr>p_x = 400, p_y = 300, p_r = 16, p_speed = 200, p_maxHp = 100, p_hp = 100\<rparr>"
  by (simp add: loaded0_def createPlayer_def env0_def)

lemma contact_game_fields:
  "lastT contact_game = 0" "mouseDown contact_game = False" "bullets contact_game = []"
  "keys contact_game = (\<lambda>k. False)" "player contact_game = player loaded0"
  by (simp_all add: contact_game_def contact_pair_def loaded0_def createPlayer_def state0_def)

lemma contact_game_dt: "frame_dt 16 contact_game = 0"
  by (simp add: frame_dt_def Let_def contact_game_fields)

lemma avoidWalls_loaded0: "fold avoidWall walls (player loaded0) = player loaded0"
  by (simp add: loaded0_player walls_def avoidWall_def circleRectCollision_def clamp_def Let_def)

lemma movePlayer_rest:
  "keys s = (\<lambda>k. False) \<Longrightarrow> player s = player loaded0 \<Longrightarrow>
   player (movePlayer env0 0 s) = player loaded0"
  by (simp add: movePlayer_def Let_def loaded0_player clamp_def env0_def)

lemma contact_game_before:
  "bullets (before_bullets env0 16 contact_game) = []"
  "player (before_bullets env0 16 contact_game) = player loaded0"
proof -
  let ?s1 = "contact_game\<lparr>lastT := 16\<rparr>"
  have b: "before_bullets env0 16 contact_game = avoidWalls (movePlayer env0 0 ?s1)"
    by (simp add: before_bullets_def Let_def contact_game_fields)
  show "bullets (before_bullets env0 16 contact_game) = []"
    unfolding b by (simp add: contact_game_fields)
  have "player (movePlayer env0 0 ?s1) = player loaded0"
    by (rule movePlayer_rest) (simp_all add: contact_game_fields)
  then show "player (before_bullets env0 16 contact_game) = player loaded0"
    unfolding b by (simp add: avoidWalls_def avoidWalls_loaded0)
qed


lemma survivors_of_pair:
  assumes "map forget_spit es = map forget_spit
      (concat (map (contact_outcome (player loaded0) 0) (enemies contact_pair)))"
  shows "map e_type es = [Normal] \<and> map e_hp es = [1]"
proof -
  have "map forget_spit es = [forget_spit (enemy0 100 100 1 Normal)]"
    unfolding assms using contact_tank contact_far by (simp add: contact_pair_def)
  then obtain e where e: "es = [e]" "forget_spit e = forget_spit (enemy0 100 100 1 Normal)"
    by (auto simp add: map_eq_Cons_conv)
  have "e_type e = e_type (forget_spit e)" "e_hp e = e_hp (forget_spit e)"
    by (simp_all add: forget_spit_def)
  then have "e_type e = Normal" "e_hp e = 1"
    unfolding e(2) by (simp_all add: forget_spit_def enemy0_def)
  with e(1) show ?thesis by simp
qed

text \<open>
  Claim C2, as stated, fails. A tank with five hit points stands ten units from the
  player, so the two circles overlap; in the first frame of a game the time step is
  \<open>0\<close>. The enemy pass removes the tank, which is no bomber and has all its hit points.
\<close>

theorem contact_removes_healthy_tank:
  "map e_type (enemies contact_demo) = [Tank] \<and> map e_hp (enemies contact_demo) = [5] \<and>
   (\<exists>t. updateEnemies env0 0 contact_demo = Inr t \<and> enemies t = [])"
proof -
  have nb: "list_all (\<lambda>e. e_type e \<noteq> Bomber) (enemies contact_demo)"
    by (simp add: contact_demo_def enemy0_def)
  from updateEnemies_loop[of 1 contact_demo env0 0] nb
  obtain t where "downfrom (enemy_step env0 0) 1 contact_demo = Inr t"
    "map forget_spit (enemies t) = []"
    by (auto simp add: contact_demo_def contact_tank simp del: downfrom.simps)
  then have "updateEnemies env0 0 contact_demo = Inr t \<and> enemies t = []"
    by (simp add: updateEnemies_def contact_demo_def)
  then show ?thesis
    by (auto simp add: contact_demo_def enemy0_def)
qed

text \<open>
  Claim C2, amended: an enemy leaves the enemy list only when its hit points reach zero
  or on contact with the player, and contact removes an enemy of every archetype, not of
  the bomber alone. Every state of a run satisfies the invariant, so it holds no
  bomber. On a list without bombers the enemy pass returns and removes an enemy exactly
  when the enemy, after its move toward the player, overlaps the player, whatever its
  archetype and its hit points; every other enemy stays, in its place, moved, with its
  hit points and every other field but the spitter's time stamp as they were. A step
  of a started game from a state that satisfies the invariant returns, and its three
  passes account for the whole change of the list. The bullet pass leaves the list as
  it is but for the blasts of the rockets that hit a wall, last bullet first, and a
  blast removes an enemy only if its damage brings the enemy's hit points to zero or
  below. The enemy pass removes exactly the enemies that overlap the player after
  their move. The pass "bullets hitting enemies" gives every enemy at most one bullet
  of the list, a bullet of the player that overlaps it, and removes the enemy only if
  that bullet's damage brings its hit points to zero or below. What follows in the
  step changes the list only if it is empty, when the next wave is spawned. A call of
  \<^verbatim>\<open>update\<close> before the game has started leaves the list as it is, and so does every
  other handler but the start button and the Enter key, which begin a new game.
\<close>

theorem removed_only_by_death_or_contact:
  "(reachable env s \<longrightarrow> run_inv s) \<and>
   (no_bomber s \<longrightarrow>
      (\<exists>t. updateEnemies env dt s = Inr t \<and>
         map forget_spit (enemies t) =
           map forget_spit (concat (map (contact_outcome (player s) dt) (enemies s))) \<and>
         same_body (player s) (player t))) \<and>
   (run_inv s \<and> gameStarted s \<longrightarrow>
      (\<exists>s4 s5 s6 t hits.
         updateBullets env (frame_dt ts s) (before_bullets env ts s) = Inr s4 \<and>
         updateEnemies env (frame_dt ts s) s4 = Inr s5 \<and>
         bulletsHitEnemies env s5 = Inr s6 \<and>
         after_hits env (frame_dt ts s) s6 = Inr t \<and>
         update env ts s = Inr t \<and>
         enemies s4 =
           foldr (rocket_blast (frame_dt ts s) (level s)) (bullets (before_bullets env ts s))
             (enemies s) \<and>
         map forget_spit (enemies s5) =
           map forget_spit
             (concat (map (contact_outcome (player s4) (frame_dt ts s)) (enemies s4))) \<and>
         enemies s6 = concat (map2 hit_outcome (enemies s5) hits) \<and>
         mset (bullets s6) + mset (the_hits hits) = mset (bullets s5) \<and>
         list_all2 (hit_fair (bullets s6)) (enemies s5) hits \<and>
         (enemies s6 \<noteq> [] \<longrightarrow> enemies t = enemies s6))) \<and>
   (\<not> gameStarted s \<longrightarrow> (\<exists>t. update env ts s = Inr t \<and> enemies t = enemies s)) \<and>
   (handle env ev s = Inr u \<and> \<not> is_frame ev \<and> ev \<noteq> StartClick \<and> ev \<noteq> KeyDown ''Enter'' \<longrightarrow>
      enemies u = enemies s)"
proof (intro conjI impI)
  assume "reachable env s" then show "run_inv s" by (rule reachable_run_inv)
next
  assume "no_bomber s"
  then show "\<exists>t. updateEnemies env dt s = Inr t \<and>
         map forget_spit (enemies t) =
           map forget_spit (concat (map (contact_outcome (player s) dt) (enemies s))) \<and>
         same_body (player s) (player t)"
    using updateEnemies_loop[of "length (enemies s)" s env dt]
    by (simp add: updateEnemies_def no_bomber_def)
next
  assume a: "run_inv s \<and> gameStarted s"
  let ?dt = "frame_dt ts s"
  let ?s3 = "before_bullets env ts s"
  have i3: "run_inv ?s3"
    using before_bullets_keeps[of s env ts] a by (simp add: keeps_def)
  from updateBullets_enemies[of env ?dt ?s3] obtain s4 where
    s4: "updateBullets env ?dt ?s3 = Inr s4"
      "enemies s4 = foldr (rocket_blast ?dt (level ?s3)) (bullets ?s3) (enemies ?s3)"
    by blast
  from updateBullets_keeps[OF i3, of env ?dt] s4(1) have i4: "run_inv s4"
    by (simp add: keeps_def)
  then have nb4: "list_all (\<lambda>e. e_type e \<noteq> Bomber) (enemies s4)"
    by (simp add: run_inv_def no_bomber_def)
  from updateEnemies_loop[OF order_refl nb4, of env ?dt] obtain s5 where
    s5: "updateEnemies env ?dt s4 = Inr s5"
      "map forget_spit (enemies s5) =
         map forget_spit (concat (map (contact_outcome (player s4) ?dt) (enemies s4)))"
    by (auto simp add: updateEnemies_def)
  from updateEnemies_keeps[OF i4, of env ?dt] s5(1) have i5: "run_inv s5"
    by (simp add: keeps_def)
  then have nb5: "list_all (\<lambda>e. e_type e \<noteq> Bomber) (enemies s5)"
    by (simp add: run_inv_def no_bomber_def)
  from bulletsHitEnemies_loop[OF order_refl nb5, of env] obtain s6 hits where
    s6: "bulletsHitEnemies env s5 = Inr s6"
      "enemies s6 = concat (map2 hit_outcome (enemies s5) hits)"
      "mset (bullets s6) + mset (the_hits hits) = mset (bullets s5)"
      "list_all2 (hit_fair (bullets s6)) (enemies s5) hits"
    by (auto simp add: bulletsHitEnemies_def)
  from bulletsHitEnemies_keeps[OF i5, of env] s6(1) have i6: "run_inv s6"
    by (simp add: keeps_def)
  from after_hits_enemies[OF i6, of env ?dt] obtain t where
    t: "after_hits env ?dt s6 = Inr t" "enemies s6 \<noteq> [] \<longrightarrow> enemies t = enemies s6"
    by blast
  have u: "update env ts s = Inr t"
    using a by (simp add: update_passes s4(1) s5(1) s6(1) t(1))
  have e4: "enemies s4 = foldr (rocket_blast ?dt (level s)) (bullets ?s3) (enemies s)"
    using s4(2) by (simp add: before_bullets_enemies)
  from s4(1) s5 s6 t u e4
  show "\<exists>s4 s5 s6 t hits.
         updateBullets env (frame_dt ts s) (before_bullets env ts s) = Inr s4 \<and>
         updateEnemies env (frame_dt ts s) s4 = Inr s5 \<and>
         bulletsHitEnemies env s5 = Inr s6 \<and>
         after_hits env (frame_dt ts s) s6 = Inr t \<and>
         update env ts s = Inr t \<and>
         enemies s4 =
           foldr (rocket_blast (frame_dt ts s) (level s)) (bullets (before_bullets env ts s))
             (enemies s) \<and>
         map forget_spit (enemies s5) =
           map forget_spit
             (concat (map (contact_outcome (player s4) (frame_dt ts s)) (enemies s4))) \<and>
         enemies s6 = concat (map2 hit_outcome (enemies s5) hits) \<and>
         mset (bullets s6) + mset (the_hits hits) = mset (bullets s5) \<and>
         list_all2 (hit_fair (bullets s6)) (enemies s5) hits \<and>
         (enemies s6 \<noteq> [] \<longrightarrow> enemies t = enemies s6)"
    by blast
next
  assume "\<not> gameStarted s"
  then show "\<exists>t. update env ts s = Inr t \<and> enemies t = enemies s"
    by (simp add: update_not_started)
next
  assume "handle env ev s = Inr u \<and> \<not> is_frame ev \<and> ev \<noteq> StartClick \<and> ev \<noteq> KeyDown ''Enter''"
  then show "enemies u = enemies s" using handle_enemies by blast
qed

text \<open>The loaded script satisfies the invariant. Of a tank that touches the player and a
  normal enemy far away, the enemy pass with time step \<open>0\<close> leaves the normal enemy
  with its one hit point; so does the first step of a started game with these two
  enemies, whose bullet pass, with no bullet, leaves the list as it is. A frame before
  the game has started and a released mouse button leave the list as it is.\<close>

theorem removed_only_by_death_or_contact_witness:
  "reachable env0 (init env0) \<and> run_inv (init env0) \<and>
   no_bomber contact_pair \<and>
   (\<exists>t. updateEnemies env0 0 contact_pair = Inr t \<and>
        map e_type (enemies t) = [Normal] \<and> map e_hp (enemies t) = [1]) \<and>
   run_inv contact_game \<and> gameStarted contact_game \<and>
   (\<exists>s4 s5. updateBullets env0 0 (before_bullets env0 16 contact_game) = Inr s4 \<and>
        enemies s4 = enemies contact_game \<and>
        updateEnemies env0 0 s4 = Inr s5 \<and>
        map e_type (enemies s5) = [Normal] \<and> map e_hp (enemies s5) = [1]) \<and>
   \<not> gameStarted loaded0 \<and>
   (\<exists>t. update env0 16 loaded0 = Inr t \<and> enemies t = enemies loaded0) \<and>
   handle env0 MouseUp contact_game = Inr (contact_game\<lparr>mouseDown := False\<rparr>) \<and>
   \<not> is_frame MouseUp \<and>
   enemies (contact_game\<lparr>mouseDown := False\<rparr>) = enemies contact_game"
proof -
  have r: "reachable env0 (init env0)" by (rule reachable_init)
  from removed_only_by_death_or_contact[of env0 "init env0"] r
  have r1: "run_inv (init env0)" by blast
  have nb: "no_bomber contact_pair"
    by (simp add: no_bomber_def contact_pair_def enemy0_def)
  from removed_only_by_death_or_contact[of env0 contact_pair 0] nb obtain t where
    t: "updateEnemies env0 0 contact_pair = Inr t"
       "map forget_spit (enemies t) =
          map forget_spit (concat (map (contact_outcome (player contact_pair) 0) (enemies contact_pair)))"
    by blast
  have "player contact_pair = player loaded0" by (simp add: contact_pair_def)
  with t(2) have t2: "map e_type (enemies t) = [Normal] \<and> map e_hp (enemies t) = [1]"
    by (simp add: survivors_of_pair)
  have g: "run_inv contact_game" "gameStarted contact_game"
    by (simp_all add: contact_game_def contact_pair_def loaded0_def createPlayer_def state0_def
        run_inv_def no_bomber_def ammo_ok_def weapons0_def enemy0_def split: wkey.split)
  from removed_only_by_death_or_contact[of env0 contact_game 0 16] g obtain s4 s5 where
    s: "updateBullets env0 (frame_dt 16 contact_game) (before_bullets env0 16 contact_game) = Inr s4"
       "updateEnemies env0 (frame_dt 16 contact_game) s4 = Inr s5"
       "enemies s4 =
           foldr (rocket_blast (frame_dt 16 contact_game) (level contact_game))
             (bullets (before_bullets env0 16 contact_game)) (enemies contact_game)"
       "map forget_spit (enemies s5) =
           map forget_spit
             (concat (map (contact_outcome (player s4) (frame_dt 16 contact_game)) (enemies s4)))"
    by blast
  have "updateBullets env0 0 (before_bullets env0 16 contact_game) =
      Inr (before_bullets env0 16 contact_game)"
    by (simp add: updateBullets_def contact_game_before)
  with s(1) have s4: "s4 = before_bullets env0 16 contact_game"
    by (simp add: contact_game_dt)
  have e4: "enemies s4 = enemies contact_game"
    using s(3) by (simp add: contact_game_before)
  have "enemies contact_game = enemies contact_pair" by (simp add: contact_game_def)
  with s(4) e4 have s5: "map e_type (enemies s5) = [Normal] \<and> map e_hp (enemies s5) = [1]"
    by (simp add: s4 contact_game_before contact_game_dt survivors_of_pair)
  have n: "\<not> gameStarted loaded0"
    by (simp add: loaded0_def createPlayer_def state0_def)
  from removed_only_by_death_or_contact[of env0 loaded0 0 16] n
  have u: "\<exists>t. update env0 16 loaded0 = Inr t \<and> enemies t = enemies loaded0" by blast
  have h: "handle env0 MouseUp contact_game = Inr (contact_game\<lparr>mouseDown := False\<rparr>)"
    "\<not> is_frame MouseUp" "MouseUp \<noteq> StartClick" "MouseUp \<noteq> KeyDown ''Enter''"
    by (simp_all add: handle_def is_frame_def)
  from removed_only_by_death_or_contact[of env0 contact_game 0 16 MouseUp
      "contact_game\<lparr>mouseDown := False\<rparr>"] h
  have m: "enemies (contact_game\<lparr>mouseDown := False\<rparr>) = enemies contact_game" by blast
  from s(1,2) have s12: "updateBullets env0 0 (before_bullets env0 16 contact_game) = Inr s4"
    "updateEnemies env0 0 s4 = Inr s5"
    by (simp_all add: contact_game_dt)
  have A: "\<exists>t. updateEnemies env0 0 contact_pair = Inr t \<and>
        map e_type (enemies t) = [Normal] \<and> map e_hp (enemies t) = [1]"
    by (rule exI[of _ t]) (simp add: t(1) t2)
  have B: "\<exists>s4 s5. updateBullets env0 0 (before_bullets env0 16 contact_game) = Inr s4 \<and>
        enemies s4 = enemies contact_game \<and>
        updateEnemies env0 0 s4 = Inr s5 \<and>
        map e_type (enemies s5) = [Normal] \<and> map e_hp (enemies s5) = [1]"
    by (rule exI[of _ s4], rule exI[of _ s5]) (simp add: s12 e4 s5)
  show ?thesis
    using r r1 nb A g B n u h(1,2) m by (simp only: simp_thms)
qed
end
